(* ===== verification/Prelude.thy ===== *)
theory Prelude
  imports Main "HOL-Library.Word" "HOL-Library.Sublist" "HOL-Library.Multiset"
begin

text \<open>
  Shared vocabulary of the development: the machine types of the Go code, the
  error-and-state result of a fallible operation, and the generic list lemmas the
  component theories use.

  A Go function that returns \<open>(T, error)\<close> and may touch shared state is an
  \<open>('s, 'e, 'a) op\<close>: it takes the state and returns either the error or the value,
  together with the state it leaves behind.  \<open>bindE\<close> is the Go idiom
  \<open>x, err := f(); if err != nil { return ..., err }\<close>.
\<close>

section \<open>Collections of simplification rules\<close>

named_theorems op_simps \<open>evaluation of fallible operations\<close>
named_theorems status_simps \<open>facts about the order status constants\<close>
named_theorems table_simps \<open>facts about the tables of the database\<close>

section \<open>Machine types\<close>

type_synonym int32 = "32 word"
type_synonym int64 = "64 word"

text \<open>A UUID is 16 bytes; PostgreSQL orders UUIDs bytewise, which is the unsigned
  order of the 128-bit big-endian number.\<close>

type_synonym uuid = "128 word"

text \<open>Instants are nanoseconds since the Unix epoch.\<close>

type_synonym time = int

section \<open>Fallible operations over a state\<close>

type_synonym ('s, 'e, 'a) op = "'s \<Rightarrow> ('e + 'a) \<times> 's"

definition returnE :: "'a \<Rightarrow> ('s, 'e, 'a) op" where
  "returnE x s = (Inr x, s)"

definition failE :: "'e \<Rightarrow> ('s, 'e, 'a) op" where
  "failE e s = (Inl e, s)"

definition bindE :: "('s, 'e, 'a) op \<Rightarrow> ('a \<Rightarrow> ('s, 'e, 'b) op) \<Rightarrow> ('s, 'e, 'b) op" where
  "bindE m f s = (case m s of (Inl e, s') \<Rightarrow> (Inl e, s') | (Inr x, s') \<Rightarrow> f x s')"

text \<open>\<open>liftE r\<close> turns a pure fallible computation into an operation.\<close>

definition liftE :: "('e + 'a) \<Rightarrow> ('s, 'e, 'a) op" where
  "liftE r s = (r, s)"

text \<open>\<open>drawE f\<close> is a call that changes the state and cannot fail.\<close>

definition drawE :: "('s \<Rightarrow> 'a \<times> 's) \<Rightarrow> ('s, 'e, 'a) op" where
  "drawE f s = (case f s of (x, s') \<Rightarrow> (Inr x, s'))"

text \<open>\<open>onErrE m h\<close> rewrites the error of \<open>m\<close>, keeping the state it left.\<close>

definition onErrE :: "('s, 'e, 'a) op \<Rightarrow> ('e \<Rightarrow> ('s, 'e, 'a) op) \<Rightarrow> ('s, 'e, 'a) op" where
  "onErrE m h s = (case m s of (Inl e, s') \<Rightarrow> h e s' | (Inr x, s') \<Rightarrow> (Inr x, s'))"

lemma returnE_run [simp, op_simps]: "returnE x s = (Inr x, s)"
  by (simp add: returnE_def)

lemma failE_run [simp, op_simps]: "failE e s = (Inl e, s)"
  by (simp add: failE_def)

lemma liftE_run [simp, op_simps]: "liftE r s = (r, s)"
  by (simp add: liftE_def)

lemma bindE_returnE [simp]: "bindE (returnE x) f = f x"
  by (rule ext) (simp add: bindE_def)

lemma bindE_failE [simp]: "bindE (failE e) f = failE e"
  by (rule ext) (simp add: bindE_def)

lemma bindE_liftE [simp]:
  "bindE (liftE (Inr x)) f = f x" "bindE (liftE (Inl e)) f = failE e"
  by (rule ext, simp add: bindE_def)+

lemma bindE_Inr: "m s = (Inr x, s') \<Longrightarrow> bindE m f s = f x s'"
  by (simp add: bindE_def)

lemma bindE_Inl: "m s = (Inl e, s') \<Longrightarrow> bindE m f s = (Inl e, s')"
  by (simp add: bindE_def)

lemma bindE_assoc: "bindE (bindE m f) g = bindE m (\<lambda>x. bindE (f x) g)"
  by (rule ext) (simp add: bindE_def split: prod.splits sum.splits)

lemma bindE_InrE:
  assumes "bindE m f s = (Inr y, t)"
  obtains x s' where "m s = (Inr x, s')" and "f x s' = (Inr y, t)"
  using assms by (auto simp: bindE_def split: prod.splits sum.splits)

lemma bindE_cases:
  assumes "bindE m f s = (r, t)"
  obtains (err) e where "m s = (Inl e, t)" and "r = Inl e"
    | (ok) x s' where "m s = (Inr x, s')" and "f x s' = (r, t)"
  using assms by (auto simp: bindE_def split: prod.splits sum.splits)

lemma onErrE_cases:
  assumes "onErrE m h s = (r, t)"
  obtains (err) e s' where "m s = (Inl e, s')" and "h e s' = (r, t)"
    | (ok) x where "m s = (Inr x, t)" and "r = Inr x"
  using assms by (auto simp: onErrE_def split: prod.splits sum.splits)

text \<open>
  \<open>keepsE P m\<close>: whatever \<open>m\<close> does, it takes states with \<open>P\<close> to states with \<open>P\<close>.
  Preservation of an invariant by a composed operation is preservation by its parts.
\<close>

definition keepsE :: "('s \<Rightarrow> bool) \<Rightarrow> ('s, 'e, 'a) op \<Rightarrow> bool" where
  "keepsE P m \<longleftrightarrow> (\<forall>s. P s \<longrightarrow> P (snd (m s)))"

lemma keepsEI: "(\<And>s r t. P s \<Longrightarrow> m s = (r, t) \<Longrightarrow> P t) \<Longrightarrow> keepsE P m"
  by (metis keepsE_def prod.collapse)

lemma keepsED: "keepsE P m \<Longrightarrow> P s \<Longrightarrow> P (snd (m s))"
  by (simp add: keepsE_def)

lemma keepsE_run: "keepsE P m \<Longrightarrow> m s = (r, t) \<Longrightarrow> P s \<Longrightarrow> P t"
  by (metis keepsE_def snd_conv)

lemma keepsE_return [simp, intro]: "keepsE P (returnE x)"
  by (simp add: keepsE_def)

lemma keepsE_fail [simp, intro]: "keepsE P (failE e)"
  by (simp add: keepsE_def)

lemma keepsE_lift [simp, intro]: "keepsE P (liftE r)"
  by (simp add: keepsE_def)

lemma keepsE_bind [intro]: "keepsE P m \<Longrightarrow> (\<And>x. keepsE P (f x)) \<Longrightarrow> keepsE P (bindE m f)"
  by (auto simp: keepsE_def bindE_def split: prod.splits sum.splits; metis snd_conv)

lemma keepsE_onErr [intro]: "keepsE P m \<Longrightarrow> (\<And>e. keepsE P (h e)) \<Longrightarrow> keepsE P (onErrE m h)"
  by (auto simp: keepsE_def onErrE_def split: prod.splits sum.splits; metis snd_conv)

text \<open>A Go \<open>for _, x := range xs\<close> loop that appends one result per element and
  returns at the first error.\<close>

fun mapE :: "('x \<Rightarrow> ('s, 'e, 'a) op) \<Rightarrow> 'x list \<Rightarrow> ('s, 'e, 'a list) op" where
  "mapE f [] = returnE []"
| "mapE f (x # xs) = bindE (f x) (\<lambda>y. bindE (mapE f xs) (\<lambda>ys. returnE (y # ys)))"

lemma keepsE_mapE [intro]: "(\<And>x. x \<in> set xs \<Longrightarrow> keepsE P (f x)) \<Longrightarrow> keepsE P (mapE f xs)"
  by (induction xs) (auto intro!: keepsE_bind)

lemma mapE_length: "mapE f xs s = (Inr ys, t) \<Longrightarrow> length ys = length xs"
  by (induction xs arbitrary: s ys t) (auto elim!: bindE_InrE)

section \<open>Lists\<close>

lemma distinct_map_same:
  "(\<And>x. x \<in> set xs \<Longrightarrow> f (g x) = f x) \<Longrightarrow> distinct (map f (map g xs)) = distinct (map f xs)"
  by (metis (mono_tags, lifting) map_eq_conv map_map comp_apply)

lemma distinct_map_inj_on_set:
  "distinct (map f xs) \<Longrightarrow> x \<in> set xs \<Longrightarrow> y \<in> set xs \<Longrightarrow> f x = f y \<Longrightarrow> x = y"
  by (meson distinct_map inj_onD)

lemma filter_unique:
  "distinct (map f xs) \<Longrightarrow> x \<in> set xs \<Longrightarrow> filter (\<lambda>y. f y = f x) xs = [x]"
proof (induction xs)
  case Nil
  then show ?case by simp
next
  case (Cons a xs)
  show ?case
  proof (cases "a = x")
    case True
    with Cons.prems(1) have "filter (\<lambda>y. f y = f x) xs = []"
      by (auto simp: filter_empty_conv) (metis image_eqI)
    with True show ?thesis by simp
  next
    case False
    with Cons.prems have "x \<in> set xs" and "f a \<noteq> f x"
      by (auto simp: image_iff)
    with Cons show ?thesis by simp
  qed
qed

end
