(* ===== verification/GoStrings.thy ===== *)
theory GoStrings
  imports Prelude
begin

text \<open>
  The parts of Go's \<open>strings\<close>, \<open>strconv\<close> and \<open>fmt\<close> packages the program uses, on
  byte strings.  A Go string is a sequence of bytes, so \<open>string\<close> (a list of 8-bit
  characters) is the exact type and \<open>length\<close> is Go's \<open>len\<close>.
\<close>

section \<open>White space\<close>

text \<open>The UTF-8 encodings of the runes for which \<open>unicode.IsSpace\<close> holds.  Each one
  begins with an ASCII byte or a lead byte, so it is met only on a rune boundary: on
  bytes, trimming runes is trimming these words.\<close>

definition utf8_spaces :: "string list" where
  "utf8_spaces =
     [[CHR 0x09], [CHR 0x0A], [CHR 0x0B], [CHR 0x0C], [CHR 0x0D], [CHR 0x20],
      [CHR 0xC2, CHR 0x85], [CHR 0xC2, CHR 0xA0], [CHR 0xE1, CHR 0x9A, CHR 0x80]] @
     map (\<lambda>c. [CHR 0xE2, CHR 0x80, c])
       [CHR 0x80, CHR 0x81, CHR 0x82, CHR 0x83, CHR 0x84, CHR 0x85, CHR 0x86, CHR 0x87,
        CHR 0x88, CHR 0x89, CHR 0x8A, CHR 0xA8, CHR 0xA9, CHR 0xAF] @
     [[CHR 0xE2, CHR 0x81, CHR 0x9F], [CHR 0xE3, CHR 0x80, CHR 0x80]]"

definition leading_space :: "string \<Rightarrow> nat" where
  "leading_space s = (case find (\<lambda>p. prefix p s) utf8_spaces of None \<Rightarrow> 0 | Some p \<Rightarrow> length p)"

definition trailing_space :: "string \<Rightarrow> nat" where
  "trailing_space s = (case find (\<lambda>p. suffix p s) utf8_spaces of None \<Rightarrow> 0 | Some p \<Rightarrow> length p)"

lemma leading_space_bound: "leading_space s \<noteq> 0 \<Longrightarrow> s \<noteq> []"
  by (cases s) (auto simp: leading_space_def utf8_spaces_def split: option.splits)

lemma trailing_space_bound: "trailing_space s \<noteq> 0 \<Longrightarrow> s \<noteq> []"
  by (cases s) (auto simp: trailing_space_def utf8_spaces_def split: option.splits)

function trim_left :: "string \<Rightarrow> string" where
  "trim_left s = (if leading_space s = 0 then s else trim_left (drop (leading_space s) s))"
  by pat_completeness auto
termination
  by (relation "measure length") (use leading_space_bound in \<open>fastforce+\<close>)

function trim_right :: "string \<Rightarrow> string" where
  "trim_right s =
     (if trailing_space s = 0 then s else trim_right (take (length s - trailing_space s) s))"
  by pat_completeness auto
termination
  by (relation "measure length") (use trailing_space_bound in \<open>fastforce+\<close>)

declare trim_left.simps [simp del] trim_right.simps [simp del]

definition TrimSpace :: "string \<Rightarrow> string" where
  "TrimSpace s = trim_right (trim_left s)"

text \<open>\<open>strings.Fields\<close>: the maximal runs of bytes between white space.\<close>

function fields_from :: "string \<Rightarrow> string \<Rightarrow> string list" where
  "fields_from acc [] = (if acc = [] then [] else [rev acc])"
| "fields_from acc (c # cs) =
     (if leading_space (c # cs) = 0 then fields_from (c # acc) cs
      else (if acc = [] then [] else [rev acc]) @
           fields_from [] (drop (leading_space (c # cs)) (c # cs)))"
  by pat_completeness auto
termination
  by (relation "measure (\<lambda>(_, s). length s)") auto

definition Fields :: "string \<Rightarrow> string list" where
  "Fields s = fields_from [] s"

lemma trim_left_idem [simp]: "leading_space (trim_left s) = 0"
  by (induction s rule: trim_left.induct) (subst trim_left.simps, simp)

lemma trim_right_idem [simp]: "trailing_space (trim_right s) = 0"
  by (induction s rule: trim_right.induct) (subst trim_right.simps, simp)

lemma trim_left_suffix: "suffix (trim_left s) s"
proof (induction s rule: trim_left.induct)
  case (1 s)
  show ?case
  proof (cases "leading_space s = 0")
    case True
    then show ?thesis by (simp add: trim_left.simps [of s])
  next
    case False
    with 1 have "suffix (trim_left (drop (leading_space s) s)) (drop (leading_space s) s)" by simp
    then have "suffix (trim_left (drop (leading_space s) s)) s"
      using suffix_drop suffix_order.order_trans by blast
    with False show ?thesis by (simp add: trim_left.simps [of s])
  qed
qed

lemma trim_right_prefix: "prefix (trim_right s) s"
proof (induction s rule: trim_right.induct)
  case (1 s)
  show ?case
  proof (cases "trailing_space s = 0")
    case True
    then show ?thesis by (simp add: trim_right.simps [of s])
  next
    case False
    let ?t = "take (length s - trailing_space s) s"
    from False 1 have "prefix (trim_right ?t) ?t" by simp
    then have "prefix (trim_right ?t) s"
      using take_is_prefix prefix_order.order_trans by blast
    with False show ?thesis by (simp add: trim_right.simps [of s])
  qed
qed

lemma TrimSpace_sublist: "sublist (TrimSpace s) s"
  unfolding TrimSpace_def
  by (meson prefix_imp_sublist suffix_imp_sublist sublist_order.order_trans trim_left_suffix
      trim_right_prefix)

lemma TrimSpace_Nil [simp]: "TrimSpace [] = []"
  using TrimSpace_sublist [of "[]"] by simp

lemma TrimSpace_nonempty: "TrimSpace s \<noteq> [] \<Longrightarrow> s \<noteq> []"
  by auto

lemma find_None_all: "find P xs = None \<longleftrightarrow> (\<forall>x \<in> set xs. \<not> P x)"
  by (auto simp: find_None_iff)

lemma Nil_notin_spaces: "[] \<notin> set utf8_spaces"
  by (simp add: utf8_spaces_def)

lemma leading_space_0: "leading_space s = 0 \<longleftrightarrow> (\<forall>p \<in> set utf8_spaces. \<not> prefix p s)"
proof (cases "find (\<lambda>p. prefix p s) utf8_spaces")
  case None
  then have "\<forall>p \<in> set utf8_spaces. \<not> prefix p s" by (simp add: find_None_all)
  with None show ?thesis by (simp add: leading_space_def)
next
  case (Some p)
  then have "p \<in> set utf8_spaces" and "prefix p s"
    by (auto simp: find_Some_iff)
  moreover from this have "p \<noteq> []" using Nil_notin_spaces by auto
  ultimately show ?thesis using Some by (auto simp: leading_space_def)
qed

text \<open>A string made of white space only is blank: trimming leaves nothing.\<close>

lemma trim_left_prefix_space:
  assumes "leading_space s \<noteq> 0"
  obtains p where "p \<in> set utf8_spaces" and "s = p @ drop (leading_space s) s"
proof -
  from assms obtain p where p: "find (\<lambda>p. prefix p s) utf8_spaces = Some p"
    by (auto simp: leading_space_def split: option.splits)
  then have "p \<in> set utf8_spaces" and "prefix p s" by (auto simp: find_Some_iff)
  then show ?thesis using that [of p] p
    by (auto simp: leading_space_def prefix_def)
qed

lemma trim_left_parts: "\<exists>ps. set ps \<subseteq> set utf8_spaces \<and> s = concat ps @ trim_left s"
proof (induction s rule: trim_left.induct)
  case (1 s)
  show ?case
  proof (cases "leading_space s = 0")
    case True
    then show ?thesis by (intro exI [of _ "[]"]) (simp add: trim_left.simps [of s])
  next
    case False
    then obtain p where p: "p \<in> set utf8_spaces" "s = p @ drop (leading_space s) s"
      by (rule trim_left_prefix_space)
    from "1.IH" [OF False] obtain ps where
      "set ps \<subseteq> set utf8_spaces" and
      "drop (leading_space s) s = concat ps @ trim_left (drop (leading_space s) s)" by blast
    with p False show ?thesis
      by (intro exI [of _ "p # ps"]) (simp add: trim_left.simps [of s])
  qed
qed

section \<open>Splitting, joining, case\<close>

text \<open>\<open>strings.Split\<close> on a one-byte separator.\<close>

fun Split :: "char \<Rightarrow> string \<Rightarrow> string list" where
  "Split c [] = [[]]"
| "Split c (x # xs) =
     (if x = c then [] # Split c xs
      else (case Split c xs of [] \<Rightarrow> [[x]] | p # ps \<Rightarrow> (x # p) # ps))"

fun Join :: "string \<Rightarrow> string list \<Rightarrow> string" where
  "Join sep [] = []"
| "Join sep [x] = x"
| "Join sep (x # y # ys) = x @ sep @ Join sep (y # ys)"

lemma Split_nonempty [simp]: "Split c s \<noteq> []"
  by (induction s) (auto split: list.splits)

lemma Split_no_sep: "c \<notin> set s \<Longrightarrow> Split c s = [s]"
  by (induction s) auto

lemma Split_append: "c \<notin> set a \<Longrightarrow> Split c (a @ c # b) = a # Split c b"
  by (induction a) auto

lemma Join_Cons: "ys \<noteq> [] \<Longrightarrow> Join sep (x # ys) = x @ sep @ Join sep ys"
  by (cases ys) auto

lemma Join_Cons_head: "Join sep ((c # x) # ys) = c # Join sep (x # ys)"
  by (cases ys) auto

lemma Join_Split: "Join [c] (Split c s) = s"
  by (induction s) (auto simp: Join_Cons Join_Cons_head split: list.splits)

lemma Split_parts_no_sep: "p \<in> set (Split c s) \<Longrightarrow> c \<notin> set p"
  by (induction s arbitrary: p) (auto split: list.splits if_splits)

text \<open>
  \<open>strings.ToUpper\<close>.  The program only compares its result with ASCII words, so what
  matters is which inputs map to ASCII letters: the ASCII letters, and the two runes
  U+0131 and U+017F, whose upper case forms are \<open>I\<close> and \<open>S\<close>.  Every other rune beyond
  ASCII keeps a non-ASCII upper case form and is left as it is here.
\<close>

abbreviation byte :: "char \<Rightarrow> nat" where
  "byte c \<equiv> of_char c"

definition upper_byte :: "char \<Rightarrow> char" where
  "upper_byte c = (if 97 \<le> byte c \<and> byte c \<le> 122 then char_of (byte c - 32) else c)"

fun ToUpper :: "string \<Rightarrow> string" where
  "ToUpper [] = []"
| "ToUpper [c] = [upper_byte c]"
| "ToUpper (c # d # cs) =
     (if c = CHR 0xC4 \<and> d = CHR 0xB1 then CHR ''I'' # ToUpper cs
      else if c = CHR 0xC5 \<and> d = CHR 0xBF then CHR ''S'' # ToUpper cs
      else upper_byte c # ToUpper (d # cs))"

text \<open>\<open>strings.EqualFold\<close> against an ASCII word without the letters \<open>k\<close> and \<open>s\<close> (the
  only ones with non-ASCII case variants): ASCII folding is exact there.\<close>

definition EqualFold_ascii :: "string \<Rightarrow> string \<Rightarrow> bool" where
  "EqualFold_ascii s t \<longleftrightarrow> map upper_byte s = map upper_byte t"

section \<open>Decimal integers\<close>

definition is_digit :: "char \<Rightarrow> bool" where
  "is_digit c \<longleftrightarrow> 48 \<le> byte c \<and> byte c \<le> 57"

definition digit :: "nat \<Rightarrow> char" where
  "digit n = char_of (48 + n)"

definition dec_value :: "string \<Rightarrow> nat" where
  "dec_value s = foldl (\<lambda>n c. 10 * n + (byte c - 48)) 0 s"

text \<open>The rendering of a natural number by \<open>%d\<close>.\<close>

fun show_nat :: "nat \<Rightarrow> string" where
  "show_nat n = (if n < 10 then [digit n] else show_nat (n div 10) @ [digit (n mod 10)])"

declare show_nat.simps [simp del]

text \<open>\<open>strconv.Atoi\<close> on a 64-bit platform: an optional sign, at least one digit, nothing
  else, and a value that fits an \<open>int64\<close>.\<close>

definition Atoi :: "string \<Rightarrow> int option" where
  "Atoi s =
     (let (neg, ds) = (case s of [] \<Rightarrow> (False, [])
                       | c # cs \<Rightarrow> if c = CHR ''-'' then (True, cs)
                                    else if c = CHR ''+'' then (False, cs) else (False, s));
          v = (if neg then - int (dec_value ds) else int (dec_value ds))
      in if ds \<noteq> [] \<and> list_all is_digit ds \<and> - (2 ^ 63) \<le> v \<and> v < 2 ^ 63 then Some v else None)"

lemma byte_digit [simp]: "n < 10 \<Longrightarrow> byte (digit n) = 48 + n"
  by (simp add: digit_def)

lemma is_digit_digit [simp]: "n < 10 \<Longrightarrow> is_digit (digit n)"
  by (simp add: is_digit_def)

lemma show_nat_nonempty [simp]: "show_nat n \<noteq> []"
  by (subst show_nat.simps) simp

lemma show_nat_digits: "list_all is_digit (show_nat n)"
proof (induction n rule: show_nat.induct)
  case (1 n)
  then show ?case by (subst show_nat.simps) simp
qed

lemma dec_value_snoc: "dec_value (s @ [c]) = 10 * dec_value s + (byte c - 48)"
  by (simp add: dec_value_def)

lemma dec_value_show_nat [simp]: "dec_value (show_nat n) = n"
proof (induction n rule: show_nat.induct)
  case (1 n)
  show ?case
  proof (cases "n < 10")
    case True
    then show ?thesis by (subst show_nat.simps) (simp add: dec_value_def)
  next
    case False
    with 1 show ?thesis by (subst show_nat.simps) (simp add: dec_value_snoc)
  qed
qed

lemma is_digit_not_sign: "is_digit c \<Longrightarrow> c \<noteq> CHR ''-'' \<and> c \<noteq> CHR ''+''"
  by (auto simp: is_digit_def)

lemma Atoi_show_nat: "int n < 2 ^ 63 \<Longrightarrow> Atoi (show_nat n) = Some (int n)"
proof -
  assume n: "int n < 2 ^ 63"
  obtain c cs where s: "show_nat n = c # cs" by (cases "show_nat n") auto
  with show_nat_digits [of n] have "is_digit c" by simp
  then have "c \<noteq> CHR ''-''" "c \<noteq> CHR ''+''" using is_digit_not_sign by auto
  then have "Atoi (show_nat n) = (if list_all is_digit (show_nat n) \<and> - (2 ^ 63) \<le> int n \<and> int n < 2 ^ 63
      then Some (int n) else None)"
    using s dec_value_show_nat [of n] by (simp add: Atoi_def)
  with n show_nat_digits show ?thesis by simp
qed

lemma Atoi_bounds: "Atoi s = Some v \<Longrightarrow> - (2 ^ 63) \<le> v \<and> v < 2 ^ 63"
  by (auto simp: Atoi_def Let_def split: if_splits prod.splits)

text \<open>The same functions on integers, which evaluate in binary.\<close>

definition dec_int :: "string \<Rightarrow> int" where
  "dec_int s = foldl (\<lambda>n c. 10 * n + (of_char c - 48)) 0 s"

function show_dec :: "int \<Rightarrow> string" where
  "show_dec n =
     (if n < 10 then [char_of (48 + n)] else show_dec (n div 10) @ [char_of (48 + n mod 10)])"
  by pat_completeness auto
termination
  by (relation "measure nat") auto

declare show_dec.simps [simp del]

lemma dec_int_digits: "list_all is_digit s \<Longrightarrow> dec_int s = int (dec_value s)"
proof (induction s rule: rev_induct)
  case (snoc c s)
  then have "48 \<le> byte c" by (simp add: is_digit_def)
  then have "int (byte c - 48) = of_char c - 48" by (simp add: of_nat_diff of_nat_of_char)
  with snoc show ?case by (simp add: dec_int_def dec_value_def)
qed (simp add: dec_int_def dec_value_def)

lemma show_dec_nat: "show_dec (int n) = show_nat n"
proof (induction n rule: show_nat.induct)
  case (1 n)
  have "48 + int n = int (48 + n)" "48 + int n mod 10 = int (48 + n mod 10)"
    by (simp_all add: zmod_int)
  then have c: "char_of (48 + int n) = digit n" "char_of (48 + int n mod 10) = digit (n mod 10)"
    by (simp_all only: digit_def char_of_nat)
  have "int n div 10 = int (n div 10)" by (simp add: zdiv_int)
  with 1 c show ?case by (simp add: show_dec.simps [of "int n"] show_nat.simps [of n])
qed

lemma Atoi_code [code]:
  "Atoi s =
     (let (neg, ds) = (case s of [] \<Rightarrow> (False, [])
                       | c # cs \<Rightarrow> if c = CHR ''-'' then (True, cs)
                                    else if c = CHR ''+'' then (False, cs) else (False, s))
      in if ds \<noteq> [] \<and> list_all is_digit ds then
           (let v = (if neg then - dec_int ds else dec_int ds)
            in if - (2 ^ 63) \<le> v \<and> v < 2 ^ 63 then Some v else None)
         else None)"
  by (auto simp: Atoi_def Let_def dec_int_digits split: prod.splits)

end
