(* ===== verification/NetIP.thy ===== *)
theory NetIP
  imports GoStrings
begin

text \<open>
  The parts of Go's \<open>net\<close> and \<open>net/netip\<close> packages that \<open>requestIPAddress\<close>
  (\<open>handler.go\<close>) and \<open>inetValue\<close> (\<open>repository.go\<close>) use: \<open>net.SplitHostPort\<close>,
  \<open>netip.ParseAddr\<close> and \<open>Addr.String\<close>.  An address is four bytes, or eight 16-bit
  groups with a zone (empty for none).
\<close>

datatype netip_Addr = V4 "nat list" | V6 "nat list" string

section \<open>Parsing\<close>

text \<open>One field of a dotted address: digits only, no leading zero, at most 255.\<close>

definition parse_octet :: "string \<Rightarrow> nat option" where
  "parse_octet f =
     (if f \<noteq> [] \<and> list_all is_digit f \<and> (length f = 1 \<or> hd f \<noteq> CHR ''0'') \<and> dec_value f \<le> 255
      then Some (dec_value f) else None)"

fun parse_all :: "('a \<Rightarrow> 'b option) \<Rightarrow> 'a list \<Rightarrow> 'b list option" where
  "parse_all p [] = Some []"
| "parse_all p (x # xs) =
     (case p x of None \<Rightarrow> None
      | Some y \<Rightarrow> (case parse_all p xs of None \<Rightarrow> None | Some ys \<Rightarrow> Some (y # ys)))"

definition parse_v4 :: "string \<Rightarrow> nat list option" where
  "parse_v4 s =
     (let fs = Split CHR ''.'' s in
      if length fs = 4 then parse_all parse_octet fs else None)"

definition hex_value :: "char \<Rightarrow> nat option" where
  "hex_value c =
     (if 48 \<le> byte c \<and> byte c \<le> 57 then Some (byte c - 48)
      else if 97 \<le> byte c \<and> byte c \<le> 102 then Some (byte c - 87)
      else if 65 \<le> byte c \<and> byte c \<le> 70 then Some (byte c - 55)
      else None)"

text \<open>The longest prefix of hexadecimal digits, with its value.\<close>

fun hex_prefix :: "nat \<Rightarrow> string \<Rightarrow> nat \<times> nat \<times> string" where
  "hex_prefix acc [] = (0, acc, [])"
| "hex_prefix acc (c # cs) =
     (case hex_value c of
        None \<Rightarrow> (0, acc, c # cs)
      | Some d \<Rightarrow> (case hex_prefix (16 * acc + d) cs of (n, v, r) \<Rightarrow> (Suc n, v, r)))"

text \<open>
  The loop over the groups: \<open>gs\<close> are the groups read so far, \<open>ell\<close> the place of the
  ellipsis.  \<open>fuel\<close> bounds the groups still to be read; eight are enough, since the
  code's loop runs while fewer than sixteen bytes are filled.
\<close>

fun v6_groups :: "nat \<Rightarrow> nat list \<Rightarrow> nat option \<Rightarrow> string \<Rightarrow> (nat list \<times> nat option) option" where
  "v6_groups 0 gs ell s = (if s = [] then Some (gs, ell) else None)"
| "v6_groups (Suc fuel) gs ell s =
     (case hex_prefix 0 s of
        (off, acc, r) \<Rightarrow>
          if off = 0 \<or> 4 < off then None
          else if r \<noteq> [] \<and> hd r = CHR ''.''
          then (if ell = None \<and> length gs \<noteq> 6 \<or> 6 < length gs then None
                else (case parse_v4 s of
                        Some [a, b, c, d] \<Rightarrow> Some (gs @ [256 * a + b, 256 * c + d], ell)
                      | _ \<Rightarrow> None))
          else
            (let gs' = gs @ [acc] in
             case r of
               [] \<Rightarrow> Some (gs', ell)
             | c # r' \<Rightarrow>
                 if c \<noteq> CHR '':'' \<or> r' = [] then None
                 else if hd r' = CHR '':''
                 then (if ell \<noteq> None then None
                       else if tl r' = [] then Some (gs', Some (length gs'))
                       else v6_groups fuel gs' (Some (length gs')) (tl r'))
                 else v6_groups fuel gs' ell r'))"

definition v6_expand :: "nat list \<Rightarrow> nat option \<Rightarrow> nat list option" where
  "v6_expand gs ell =
     (case ell of
        None \<Rightarrow> if length gs = 8 then Some gs else None
      | Some k \<Rightarrow> if length gs < 8
                  then Some (take k gs @ replicate (8 - length gs) 0 @ drop k gs) else None)"

definition parse_v6 :: "string \<Rightarrow> netip_Addr option" where
  "parse_v6 inp =
     (let s = takeWhile (\<lambda>c. c \<noteq> CHR ''%'') inp;
          z = dropWhile (\<lambda>c. c \<noteq> CHR ''%'') inp;
          zone = drop 1 z
      in if z \<noteq> [] \<and> zone = [] then None
         else
           (let lead = (2 \<le> length s \<and> take 2 s = ''::'');
                body = (if lead then drop 2 s else s)
            in if lead \<and> body = [] then Some (V6 (replicate 8 0) zone)
               else (case v6_groups 8 [] (if lead then Some 0 else None) body of
                       None \<Rightarrow> None
                     | Some (gs, ell) \<Rightarrow>
                         (case v6_expand gs ell of
                            None \<Rightarrow> None
                          | Some gs' \<Rightarrow> Some (V6 gs' zone)))))"

definition ParseAddr :: "string \<Rightarrow> netip_Addr option" where
  "ParseAddr s =
     (case find (\<lambda>c. c = CHR ''.'' \<or> c = CHR '':'' \<or> c = CHR ''%'') s of
        None \<Rightarrow> None
      | Some c \<Rightarrow>
          if c = CHR ''.'' then map_option V4 (parse_v4 s)
          else if c = CHR '':'' then parse_v6 s
          else None)"

section \<open>Rendering\<close>

definition show_v4 :: "nat list \<Rightarrow> string" where
  "show_v4 bs = Join ''.'' (map show_nat bs)"

fun show_hex :: "nat \<Rightarrow> string" where
  "show_hex n =
     (if n < 16 then [if n < 10 then char_of (48 + n) else char_of (87 + n)]
      else show_hex (n div 16) @
           [if n mod 16 < 10 then char_of (48 + n mod 16) else char_of (87 + n mod 16)])"

declare show_hex.simps [simp del]

text \<open>The first longest run of at least two zero groups.\<close>

definition zero_run :: "nat list \<Rightarrow> nat \<Rightarrow> nat" where
  "zero_run gs i = length (takeWhile (\<lambda>g. g = 0) (drop i gs))"

definition longest_zeros :: "nat list \<Rightarrow> nat \<times> nat" where
  "longest_zeros gs =
     foldl (\<lambda>(start, len) i.
        if 2 \<le> zero_run gs i \<and> len < zero_run gs i then (i, zero_run gs i) else (start, len))
       (8, 0) [0..<8]"

definition show_v6_groups :: "nat list \<Rightarrow> string" where
  "show_v6_groups gs =
     (case longest_zeros gs of
        (start, len) \<Rightarrow>
          if len = 0 then Join '':'' (map show_hex gs)
          else Join '':'' (map show_hex (take start gs)) @ ''::'' @
               Join '':'' (map show_hex (drop (start + len) gs)))"

definition show_zone :: "string \<Rightarrow> string" where
  "show_zone z = (if z = [] then [] else ''%'' @ z)"

fun Addr_String :: "netip_Addr \<Rightarrow> string" where
  "Addr_String (V4 bs) = show_v4 bs"
| "Addr_String (V6 gs zone) =
     (if take 6 gs = [0, 0, 0, 0, 0, 65535] \<and> length gs = 8
      then ''::ffff:'' @ show_v4 [gs ! 6 div 256, gs ! 6 mod 256, gs ! 7 div 256, gs ! 7 mod 256] @
           show_zone zone
      else show_v6_groups gs @ show_zone zone)"

section \<open>Round trip for IPv4\<close>

lemma parse_octet_show: "n \<le> 255 \<Longrightarrow> parse_octet (show_nat n) = Some n"
proof -
  assume n: "n \<le> 255"
  have "length (show_nat n) = 1 \<or> hd (show_nat n) \<noteq> CHR ''0''"
  proof (induction n rule: show_nat.induct)
    case (1 n)
    show ?case
    proof (cases "n < 10")
      case True
      then show ?thesis by (simp add: show_nat.simps [of n])
    next
      case False
      show ?thesis
      proof (cases "n div 10 < 10")
        case True
        have "byte (digit (n div 10)) = 48 + n div 10" using True by simp
        moreover have "0 < n div 10" using False by (simp add: div_greater_zero_iff)
        ultimately have "digit (n div 10) \<noteq> CHR ''0''" by auto
        with False True show ?thesis by (simp add: show_nat.simps [of n] show_nat.simps [of "n div 10"])
      next
        case big: False
        with 1 False have "hd (show_nat (n div 10)) \<noteq> CHR ''0''"
          by (auto simp: show_nat.simps [of "n div 10"])
        with False show ?thesis by (simp add: show_nat.simps [of n] hd_append)
      qed
    qed
  qed
  with n show_nat_digits [of n] show ?thesis by (simp add: parse_octet_def)
qed

lemma is_digit_not_dot: "is_digit c \<Longrightarrow> c \<noteq> CHR ''.''"
  by (auto simp: is_digit_def)

lemma show_nat_no_dot: "CHR ''.'' \<notin> set (show_nat n)"
  using show_nat_digits [of n] is_digit_not_dot by (auto simp: list_all_iff)

lemma parse_v4_show:
  assumes "length bs = 4" and "\<forall>b \<in> set bs. b \<le> 255"
  shows "parse_v4 (show_v4 bs) = Some bs"
proof -
  from assms(1) obtain a b c d where bs: "bs = [a, b, c, d]"
    by (auto simp: numeral_eq_Suc length_Suc_conv)
  have "Split CHR ''.'' (show_v4 bs) = map show_nat bs"
    using bs by (simp add: show_v4_def Split_append show_nat_no_dot Split_no_sep)
  with bs assms(2) show ?thesis by (simp add: parse_v4_def parse_octet_show)
qed

lemma find_append: "find P (xs @ ys) = (case find P xs of None \<Rightarrow> find P ys | Some x \<Rightarrow> Some x)"
  by (induction xs) auto

lemma ParseAddr_show_v4:
  assumes "length bs = 4" and "\<forall>b \<in> set bs. b \<le> 255"
  shows "ParseAddr (Addr_String (V4 bs)) = Some (V4 bs)"
proof -
  from assms(1) obtain a b c d where bs: "bs = [a, b, c, d]"
    by (auto simp: numeral_eq_Suc length_Suc_conv)
  let ?P = "\<lambda>c. c = CHR ''.'' \<or> c = CHR '':'' \<or> c = CHR ''%''"
  have "\<forall>x \<in> set (show_nat a). \<not> ?P x"
    using show_nat_digits [of a] by (auto simp: list_all_iff is_digit_def)
  then have "find ?P (show_nat a) = None" by (simp add: find_None_all)
  then have "find ?P (show_v4 bs) = Some CHR ''.''"
    using bs by (simp add: show_v4_def find_append)
  with assms show ?thesis by (simp add: ParseAddr_def parse_v4_show)
qed

section \<open>Host and port\<close>

text \<open>
  \<open>net.SplitHostPort\<close>: the last colon separates the port; a host in brackets may hold
  colons, any other host may not, and no stray bracket is left on either side.  The
  program uses the host only.
\<close>

definition last_colon :: "string \<Rightarrow> nat option" where
  "last_colon s =
     (case dropWhile (\<lambda>c. c \<noteq> CHR '':'') (rev s) of [] \<Rightarrow> None | _ # r \<Rightarrow> Some (length r))"

definition SplitHostPort :: "string \<Rightarrow> (string \<times> string) option" where
  "SplitHostPort hp =
     (case last_colon hp of
        None \<Rightarrow> None
      | Some i \<Rightarrow>
          if hp \<noteq> [] \<and> hd hp = CHR ''[''
          then (let e = length (takeWhile (\<lambda>c. c \<noteq> CHR '']'') hp) in
                if e = length hp then None
                else if e + 1 = length hp then None
                else if e + 1 \<noteq> i then None
                else (let host = take (e - 1) (drop 1 hp); port = drop (i + 1) hp in
                      if CHR ''['' \<in> set (drop 1 hp) \<or> CHR '']'' \<in> set (drop (e + 1) hp) then None
                      else Some (host, port)))
          else (let host = take i hp; port = drop (i + 1) hp in
                if CHR '':'' \<in> set host then None
                else if CHR ''['' \<in> set hp \<or> CHR '']'' \<in> set hp then None
                else Some (host, port)))"

end
