(* ===== verification/Errors.thy ===== *)
theory Errors
  imports GoStrings
begin

text \<open>
  The error values of package \<open>orders\<close> (\<open>errors.go\<close>, \<open>json.go\<close>, \<open>validation.go\<close>)
  and of the database driver.  A Go error is a chain built by \<open>fmt.Errorf("%w...")\<close>;
  the program wraps at most once, so an error is a sentinel, a sentinel with the text
  that follows it, a list of field errors, a server error (\<open>pgconn.PgError\<close>: code,
  constraint and text), or any other driver, network or context error.
\<close>

section \<open>Error values\<close>

datatype sentinel =
    ErrUnknownStatus
  | ErrInvalidTransition
  | ErrOrderNotFound
  | ErrIdempotencyConflict
  | ErrInvalidActorType
  | ErrTotalCentsOverflow
  | ErrRequestBodyTooLarge
  | ErrMalformedJSON
  | ErrUnknownJSONField
  | PgxErrNoRows

record FieldError =
  FieldError_Field :: string
  FieldError_Message :: string

type_synonym ValidationErrors = "FieldError list"

datatype go_error =
    Sentinel sentinel
  | Wrapped sentinel string
  | Validation ValidationErrors
  | PgError string string string
  | OtherError string

text \<open>\<open>errors.Is(err, target)\<close> for the sentinels: the error itself or the one it wraps.\<close>

fun errors_Is :: "go_error \<Rightarrow> sentinel \<Rightarrow> bool" where
  "errors_Is (Sentinel s) t \<longleftrightarrow> s = t"
| "errors_Is (Wrapped s _) t \<longleftrightarrow> s = t"
| "errors_Is _ _ \<longleftrightarrow> False"

text \<open>\<open>IsValidationError\<close> is \<open>errors.As\<close> with a \<open>ValidationErrors\<close> target.\<close>

fun IsValidationError :: "go_error \<Rightarrow> bool" where
  "IsValidationError (Validation _) \<longleftrightarrow> True"
| "IsValidationError _ \<longleftrightarrow> False"

section \<open>Error texts\<close>

fun sentinel_text :: "sentinel \<Rightarrow> string" where
  "sentinel_text ErrUnknownStatus = ''unknown order status''"
| "sentinel_text ErrInvalidTransition = ''invalid order status transition''"
| "sentinel_text ErrOrderNotFound = ''order not found''"
| "sentinel_text ErrIdempotencyConflict = ''idempotency conflict''"
| "sentinel_text ErrInvalidActorType = ''invalid actor type''"
| "sentinel_text ErrTotalCentsOverflow = ''total cents overflow''"
| "sentinel_text ErrRequestBodyTooLarge = ''request body too large''"
| "sentinel_text ErrMalformedJSON = ''malformed json''"
| "sentinel_text ErrUnknownJSONField = ''unknown json field''"
| "sentinel_text PgxErrNoRows = ''no rows in result set''"

definition ValidationErrors_Error :: "ValidationErrors \<Rightarrow> string" where
  "ValidationErrors_Error ve =
     Join ''; '' (map (\<lambda>fe. FieldError_Field fe @ '': '' @ FieldError_Message fe) ve)"

definition HasErrors :: "ValidationErrors \<Rightarrow> bool" where
  "HasErrors ve \<longleftrightarrow> length ve > 0"

fun error_text :: "go_error \<Rightarrow> string" where
  "error_text (Sentinel s) = sentinel_text s"
| "error_text (Wrapped s t) = sentinel_text s @ t"
| "error_text (Validation ve) = ValidationErrors_Error ve"
| "error_text (PgError _ _ t) = t"
| "error_text (OtherError t) = t"

text \<open>The \<open>%q\<close> verb on ASCII text; bytes beyond ASCII stay as they are, as Go keeps
  printable runes.\<close>

definition hex_digit :: "nat \<Rightarrow> char" where
  "hex_digit n = (if n < 10 then char_of (48 + n) else char_of (87 + n))"

fun quote_byte :: "char \<Rightarrow> string" where
  "quote_byte c =
     (if c = CHR 0x22 then [CHR 0x5C, CHR 0x22]
      else if c = CHR 0x5C then [CHR 0x5C, CHR 0x5C]
      else if c = CHR 0x07 then [CHR 0x5C, CHR ''a'']
      else if c = CHR 0x08 then [CHR 0x5C, CHR ''b'']
      else if c = CHR 0x0C then [CHR 0x5C, CHR ''f'']
      else if c = CHR 0x0A then [CHR 0x5C, CHR ''n'']
      else if c = CHR 0x0D then [CHR 0x5C, CHR ''r'']
      else if c = CHR 0x09 then [CHR 0x5C, CHR ''t'']
      else if c = CHR 0x0B then [CHR 0x5C, CHR ''v'']
      else if byte c < 32 \<or> byte c = 127
      then [CHR 0x5C, CHR ''x'', hex_digit (byte c div 16), hex_digit (byte c mod 16)]
      else [c])"

definition go_quote :: "string \<Rightarrow> string" where
  "go_quote s = [CHR 0x22] @ concat (map quote_byte s) @ [CHR 0x22]"

lemma errors_Is_unique: "errors_Is e s \<Longrightarrow> errors_Is e t \<Longrightarrow> s = t"
  by (cases e) auto

lemma IsValidationError_not_Is: "IsValidationError e \<Longrightarrow> \<not> errors_Is e s"
  by (cases e) auto

lemma HasErrors_iff [simp]: "HasErrors ve \<longleftrightarrow> ve \<noteq> []"
  by (simp add: HasErrors_def)

end
