(* ===== verification/StateMachine.thy ===== *)
theory StateMachine
  imports Errors
begin

text \<open>
  \<open>internal/orders/state_machine.go\<close>: the order statuses and the allowed transitions.
  \<open>OrderStatus\<close> is a Go string type, so any string can occur where a status is expected;
  the two package-level maps decide which strings are statuses and which moves are legal.

  The second half gives the abstract life cycle, a five-element datatype with an
  inductive move relation, and shows that the string tables implement exactly that.
\<close>

section \<open>The code's tables\<close>

type_synonym OrderStatus = string

definition StatusPending :: OrderStatus where "StatusPending = ''PENDING''"
definition StatusProcessing :: OrderStatus where "StatusProcessing = ''PROCESSING''"
definition StatusShipped :: OrderStatus where "StatusShipped = ''SHIPPED''"
definition StatusDelivered :: OrderStatus where "StatusDelivered = ''DELIVERED''"
definition StatusCancelled :: OrderStatus where "StatusCancelled = ''CANCELLED''"

lemmas status_defs = StatusPending_def StatusProcessing_def StatusShipped_def
  StatusDelivered_def StatusCancelled_def

definition validStatuses :: "OrderStatus \<rightharpoonup> unit" where
  "validStatuses =
     [StatusPending \<mapsto> (), StatusProcessing \<mapsto> (), StatusShipped \<mapsto> (),
      StatusDelivered \<mapsto> (), StatusCancelled \<mapsto> ()]"

definition allowedTransitions :: "OrderStatus \<rightharpoonup> (OrderStatus \<rightharpoonup> unit)" where
  "allowedTransitions =
     [StatusPending \<mapsto> [StatusProcessing \<mapsto> (), StatusCancelled \<mapsto> ()],
      StatusProcessing \<mapsto> [StatusShipped \<mapsto> ()],
      StatusShipped \<mapsto> [StatusDelivered \<mapsto> ()]]"

definition IsValidStatus :: "OrderStatus \<Rightarrow> bool" where
  "IsValidStatus status = (case validStatuses status of None \<Rightarrow> False | Some _ \<Rightarrow> True)"

definition CanTransition :: "OrderStatus \<Rightarrow> OrderStatus \<Rightarrow> bool" where
  "CanTransition from to =
     (if \<not> IsValidStatus from \<or> \<not> IsValidStatus to then False
      else (case allowedTransitions from of
              None \<Rightarrow> False
            | Some nextStatuses \<Rightarrow> (case nextStatuses to of None \<Rightarrow> False | Some _ \<Rightarrow> True)))"

definition ValidateTransition :: "OrderStatus \<Rightarrow> OrderStatus \<Rightarrow> go_error + unit" where
  "ValidateTransition from to =
     (if \<not> IsValidStatus from then Inl (Wrapped ErrUnknownStatus ('': '' @ go_quote from))
      else if \<not> IsValidStatus to then Inl (Wrapped ErrUnknownStatus ('': '' @ go_quote to))
      else if \<not> CanTransition from to
      then Inl (Wrapped ErrInvalidTransition ('': '' @ from @ '' -> '' @ to))
      else Inr ())"

text \<open>\<open>service.go\<close>: the status an order must be in for a target to be reached.  The
  default branch returns the error of \<open>ValidateTransition(PENDING, target)\<close>; for the
  targets it is reached with that is never nil, which \<open>expectedStatus_default\<close> shows.\<close>

definition expectedStatusForTarget :: "OrderStatus \<Rightarrow> go_error + OrderStatus" where
  "expectedStatusForTarget target =
     (if target = StatusProcessing then Inr StatusPending
      else if target = StatusShipped then Inr StatusProcessing
      else if target = StatusDelivered then Inr StatusShipped
      else if target = StatusCancelled then Inr StatusPending
      else (case ValidateTransition StatusPending target of
              Inl e \<Rightarrow> Inl e
            | Inr _ \<Rightarrow> Inr []))"

section \<open>Evaluation of the tables\<close>

lemma status_distinct [simp, status_simps]:
  "StatusPending \<noteq> StatusProcessing" "StatusPending \<noteq> StatusShipped"
  "StatusPending \<noteq> StatusDelivered" "StatusPending \<noteq> StatusCancelled"
  "StatusProcessing \<noteq> StatusPending" "StatusProcessing \<noteq> StatusShipped"
  "StatusProcessing \<noteq> StatusDelivered" "StatusProcessing \<noteq> StatusCancelled"
  "StatusShipped \<noteq> StatusPending" "StatusShipped \<noteq> StatusProcessing"
  "StatusShipped \<noteq> StatusDelivered" "StatusShipped \<noteq> StatusCancelled"
  "StatusDelivered \<noteq> StatusPending" "StatusDelivered \<noteq> StatusProcessing"
  "StatusDelivered \<noteq> StatusShipped" "StatusDelivered \<noteq> StatusCancelled"
  "StatusCancelled \<noteq> StatusPending" "StatusCancelled \<noteq> StatusProcessing"
  "StatusCancelled \<noteq> StatusShipped" "StatusCancelled \<noteq> StatusDelivered"
  by (simp_all add: status_defs)

lemma status_nonempty [simp, status_simps]:
  "StatusPending \<noteq> []" "StatusProcessing \<noteq> []" "StatusShipped \<noteq> []"
  "StatusDelivered \<noteq> []" "StatusCancelled \<noteq> []"
  by (simp_all add: status_defs)

lemma IsValidStatus_iff:
  "IsValidStatus s \<longleftrightarrow>
     s = StatusPending \<or> s = StatusProcessing \<or> s = StatusShipped \<or> s = StatusDelivered
     \<or> s = StatusCancelled"
  by (auto simp: IsValidStatus_def validStatuses_def)

lemma IsValidStatus_consts [simp, status_simps]:
  "IsValidStatus StatusPending" "IsValidStatus StatusProcessing" "IsValidStatus StatusShipped"
  "IsValidStatus StatusDelivered" "IsValidStatus StatusCancelled"
  by (simp_all add: IsValidStatus_iff)

lemma CanTransition_iff:
  "CanTransition f t \<longleftrightarrow>
     f = StatusPending \<and> t = StatusProcessing \<or> f = StatusPending \<and> t = StatusCancelled
     \<or> f = StatusProcessing \<and> t = StatusShipped \<or> f = StatusShipped \<and> t = StatusDelivered"
  by (auto simp: CanTransition_def allowedTransitions_def split: if_splits option.splits)

lemma CanTransition_valid: "CanTransition f t \<Longrightarrow> IsValidStatus f \<and> IsValidStatus t"
  by (auto simp: CanTransition_iff)

lemma CanTransition_consts [simp, status_simps]:
  "CanTransition StatusPending StatusProcessing" "CanTransition StatusPending StatusCancelled"
  "CanTransition StatusProcessing StatusShipped" "CanTransition StatusShipped StatusDelivered"
  by (simp_all add: CanTransition_iff)

lemma CanTransition_irrefl [simp]: "\<not> CanTransition s s"
  by (auto simp: CanTransition_iff)

lemma ValidateTransition_Inr: "ValidateTransition f t = Inr u \<longleftrightarrow> CanTransition f t"
  by (auto simp: ValidateTransition_def dest: CanTransition_valid)

lemma ValidateTransition_cases:
  obtains (unknown) s where "ValidateTransition f t = Inl (Wrapped ErrUnknownStatus s)"
      and "\<not> (IsValidStatus f \<and> IsValidStatus t)"
    | (illegal) s where "ValidateTransition f t = Inl (Wrapped ErrInvalidTransition s)"
      and "IsValidStatus f" and "IsValidStatus t" and "\<not> CanTransition f t"
    | (legal) "ValidateTransition f t = Inr ()" and "CanTransition f t"
  using that
  by (cases "IsValidStatus f"; cases "IsValidStatus t"; cases "CanTransition f t")
    (simp_all add: ValidateTransition_def)

lemma expectedStatus_Inr:
  "expectedStatusForTarget t = Inr f \<longleftrightarrow> CanTransition f t"
  by (auto simp: expectedStatusForTarget_def CanTransition_iff ValidateTransition_Inr
      split: sum.splits dest: ValidateTransition_Inr [THEN iffD1])

lemma expectedStatus_default:
  assumes "t \<noteq> StatusProcessing" "t \<noteq> StatusShipped" "t \<noteq> StatusDelivered" "t \<noteq> StatusCancelled"
  shows "\<exists>e. ValidateTransition StatusPending t = Inl e \<and> expectedStatusForTarget t = Inl e"
  using assms
  by (cases "StatusPending" t rule: ValidateTransition_cases)
    (auto simp: expectedStatusForTarget_def CanTransition_iff)

section \<open>The abstract life cycle\<close>

datatype lifecycle = Pending | Processing | Shipped | Delivered | Cancelled

fun status_name :: "lifecycle \<Rightarrow> OrderStatus" where
  "status_name Pending = StatusPending"
| "status_name Processing = StatusProcessing"
| "status_name Shipped = StatusShipped"
| "status_name Delivered = StatusDelivered"
| "status_name Cancelled = StatusCancelled"

inductive moves :: "lifecycle \<Rightarrow> lifecycle \<Rightarrow> bool" where
  pick: "moves Pending Processing"
| cancel: "moves Pending Cancelled"
| ship: "moves Processing Shipped"
| deliver: "moves Shipped Delivered"

code_pred moves .

inductive_cases moves_fromE: "moves s t"
inductive_simps moves_simps [simp]:
  "moves Pending t" "moves Processing t" "moves Shipped t" "moves Delivered t" "moves Cancelled t"

text \<open>Statuses ordered by progress: a linear order that every move increases.\<close>

fun stage :: "lifecycle \<Rightarrow> nat" where
  "stage Pending = 0"
| "stage Processing = 1"
| "stage Shipped = 2"
| "stage Delivered = 3"
| "stage Cancelled = 4"

instantiation lifecycle :: linorder
begin
definition less_eq_lifecycle :: "lifecycle \<Rightarrow> lifecycle \<Rightarrow> bool" where
  "less_eq_lifecycle s t \<longleftrightarrow> stage s \<le> stage t"
definition less_lifecycle :: "lifecycle \<Rightarrow> lifecycle \<Rightarrow> bool" where
  "less_lifecycle s t \<longleftrightarrow> stage s < stage t"
instance
proof
  fix s t :: lifecycle
  show "s \<le> t \<Longrightarrow> t \<le> s \<Longrightarrow> s = t"
    by (cases s; cases t) (simp_all add: less_eq_lifecycle_def)
qed (auto simp: less_eq_lifecycle_def less_lifecycle_def)
end

lemma status_name_inj [simp]: "status_name s = status_name t \<longleftrightarrow> s = t"
  by (cases s; cases t) simp_all

lemma IsValidStatus_name: "IsValidStatus x \<longleftrightarrow> (\<exists>s. x = status_name s)"
proof
  assume "IsValidStatus x"
  then show "\<exists>s. x = status_name s"
    unfolding IsValidStatus_iff by (metis status_name.simps)
next
  assume "\<exists>s. x = status_name s"
  then obtain s where "x = status_name s" ..
  then show "IsValidStatus x" by (cases s) auto
qed

lemma CanTransition_names: "CanTransition (status_name s) (status_name t) \<longleftrightarrow> moves s t"
  by (cases s; cases t) (simp_all add: CanTransition_iff)

lemma moves_less: "moves s t \<Longrightarrow> s < t"
  by (auto elim!: moves_fromE simp: less_lifecycle_def)

lemma moves_rtrancl_le: "moves\<^sup>*\<^sup>* s t \<Longrightarrow> s \<le> t"
  by (induction rule: rtranclp_induct) (auto dest: moves_less)

lemma moves_functional_source:
  "moves s t \<Longrightarrow> moves s' t \<Longrightarrow> s = s'"
  by (auto elim!: moves_fromE)

section \<open>Properties\<close>

text \<open>C14: The transition tables implement the abstract life cycle: a move is accepted exactly
  between the names of two stages joined by a legal move, an unknown status is reported
  exactly when one of the two strings names no stage, and an illegal transition otherwise.\<close>

theorem transitions_implement_lifecycle:
  "(ValidateTransition f t = Inr () \<longleftrightarrow> (\<exists>a b. f = status_name a \<and> t = status_name b \<and> moves a b)) \<and>
   ((\<exists>x. ValidateTransition f t = Inl (Wrapped ErrUnknownStatus x)) \<longleftrightarrow>
      (\<nexists>a b. f = status_name a \<and> t = status_name b)) \<and>
   ((\<exists>x. ValidateTransition f t = Inl (Wrapped ErrInvalidTransition x)) \<longleftrightarrow>
      (\<exists>a b. f = status_name a \<and> t = status_name b \<and> \<not> moves a b))"
proof (cases rule: ValidateTransition_cases [of f t])
  case (unknown s)
  then show ?thesis by (auto simp: IsValidStatus_name)
next
  case (illegal s)
  then obtain a b where "f = status_name a" "t = status_name b" by (auto simp: IsValidStatus_name)
  with illegal show ?thesis by (auto simp: CanTransition_names)
next
  case legal
  then obtain a b where "f = status_name a" "t = status_name b"
    using CanTransition_valid IsValidStatus_name by metis
  with legal show ?thesis by (auto simp: CanTransition_names)
qed

text \<open>C15: The status a privileged update expects is the only predecessor of its target, and
  \<open>PENDING\<close>, which has none, is no valid target.\<close>

theorem expected_status_is_predecessor:
  "(expectedStatusForTarget (status_name b) = Inr f \<longleftrightarrow> (\<exists>!a. moves a b) \<and> (\<exists>a. f = status_name a \<and> moves a b)) \<and>
   (\<exists>e. expectedStatusForTarget StatusPending = Inl e)"
proof -
  have "expectedStatusForTarget (status_name b) = Inr f \<longleftrightarrow> (\<exists>a. f = status_name a \<and> moves a b)"
    using CanTransition_valid [of f "status_name b"] CanTransition_names
    by (auto simp: expectedStatus_Inr IsValidStatus_name)
  moreover have "(\<exists>a. f = status_name a \<and> moves a b) \<Longrightarrow> (\<exists>!a. moves a b)"
    using moves_functional_source by blast
  moreover have "\<exists>e. expectedStatusForTarget StatusPending = Inl e"
    using expectedStatus_default [of StatusPending] by auto
  ultimately show ?thesis by blast
qed

end
