(* ===== verification/Database.thy ===== *)
theory Database
  imports NetIP StateMachine
begin

text \<open>
  Package \<open>db\<close>: the tables of \<open>db/migrations/000001_init_oms_schema.up.sql\<close>, the Go
  structs of \<open>internal/db/models.go\<close>, and the SQL statements of
  \<open>internal/db/orders.sql.go\<close> as functions on the tables.

  PostgreSQL itself is outside the repository.  The SQL text is not: each statement is
  translated with its \<open>WHERE\<close>, \<open>ORDER BY\<close>, \<open>LIMIT\<close> and \<open>RETURNING\<close> clauses and with the
  constraints of the migration, which fail with the server's error code and constraint
  name.  Everything the server, the network and other sessions may do is read from an
  environment \<open>env\<close> that the model never constrains: whether a driver call fails, the
  clock, random UUIDs, the rows other sessions have locked, and what they commit between
  two calls.
\<close>

section \<open>Rows and tables\<close>

record orders_row =
  o_id :: uuid
  o_customer_id :: uuid
  o_status :: string
  o_idempotency_key :: string
  o_total_cents :: int64
  o_currency :: string
  o_created_at :: time
  o_updated_at :: time

record order_items_row =
  i_id :: uuid
  i_order_id :: uuid
  i_product_id :: uuid
  i_sku :: string
  i_quantity :: int32
  i_unit_price_cents :: int64
  i_created_at :: time

record order_events_row =
  v_id :: uuid
  v_order_id :: uuid
  v_actor_type :: string
  v_actor_id :: "uuid option"
  v_from_status :: "string option"
  v_to_status :: "string option"
  v_action :: string
  v_reason :: "string option"
  v_ip_address :: "netip_Addr option"
  v_created_at :: time

text \<open>Rows are kept in insertion order, which is commit order.\<close>

record tables =
  orders :: "orders_row list"
  order_items :: "order_items_row list"
  order_events :: "order_events_row list"

definition empty_tables :: tables where
  "empty_tables = \<lparr>orders = [], order_items = [], order_events = []\<rparr>"

section \<open>Go structs\<close>

text \<open>A \<open>pgtype\<close> value is an option: \<open>Valid = false\<close> is \<open>None\<close>, SQL's \<open>NULL\<close>.\<close>

type_synonym pgUUID = "uuid option"
type_synonym pgText = "string option"
type_synonym pgTimestamptz = "time option"

record Order =
  Order_ID :: pgUUID
  Order_CustomerID :: pgUUID
  Order_Status :: string
  Order_IdempotencyKey :: string
  Order_TotalCents :: int64
  Order_Currency :: string
  Order_CreatedAt :: pgTimestamptz
  Order_UpdatedAt :: pgTimestamptz

record OrderItem =
  OrderItem_ID :: pgUUID
  OrderItem_OrderID :: pgUUID
  OrderItem_ProductID :: pgUUID
  OrderItem_Sku :: string
  OrderItem_Quantity :: int32
  OrderItem_UnitPriceCents :: int64
  OrderItem_CreatedAt :: pgTimestamptz

record OrderEvent =
  OrderEvent_ID :: pgUUID
  OrderEvent_OrderID :: pgUUID
  OrderEvent_ActorType :: string
  OrderEvent_ActorID :: pgUUID
  OrderEvent_FromStatus :: pgText
  OrderEvent_ToStatus :: pgText
  OrderEvent_Action :: string
  OrderEvent_Reason :: pgText
  OrderEvent_IpAddress :: "netip_Addr option"
  OrderEvent_CreatedAt :: pgTimestamptz

text \<open>\<open>row.Scan(&i.ID, ...)\<close> for the three row types.\<close>

definition scan_order :: "orders_row \<Rightarrow> Order" where
  "scan_order r =
     \<lparr>Order_ID = Some (o_id r), Order_CustomerID = Some (o_customer_id r),
      Order_Status = o_status r, Order_IdempotencyKey = o_idempotency_key r,
      Order_TotalCents = o_total_cents r, Order_Currency = o_currency r,
      Order_CreatedAt = Some (o_created_at r), Order_UpdatedAt = Some (o_updated_at r)\<rparr>"

definition scan_item :: "order_items_row \<Rightarrow> OrderItem" where
  "scan_item r =
     \<lparr>OrderItem_ID = Some (i_id r), OrderItem_OrderID = Some (i_order_id r),
      OrderItem_ProductID = Some (i_product_id r), OrderItem_Sku = i_sku r,
      OrderItem_Quantity = i_quantity r, OrderItem_UnitPriceCents = i_unit_price_cents r,
      OrderItem_CreatedAt = Some (i_created_at r)\<rparr>"

definition scan_event :: "order_events_row \<Rightarrow> OrderEvent" where
  "scan_event r =
     \<lparr>OrderEvent_ID = Some (v_id r), OrderEvent_OrderID = Some (v_order_id r),
      OrderEvent_ActorType = v_actor_type r, OrderEvent_ActorID = v_actor_id r,
      OrderEvent_FromStatus = v_from_status r, OrderEvent_ToStatus = v_to_status r,
      OrderEvent_Action = v_action r, OrderEvent_Reason = v_reason r,
      OrderEvent_IpAddress = v_ip_address r, OrderEvent_CreatedAt = Some (v_created_at r)\<rparr>"

section \<open>The keyset order\<close>

text \<open>\<open>ORDER BY created_at, id\<close>: the lexicographic order on pairs.\<close>

datatype keyset = Keyset time uuid

instantiation keyset :: linorder
begin
fun less_eq_keyset :: "keyset \<Rightarrow> keyset \<Rightarrow> bool" where
  "Keyset t u \<le> Keyset t' u' \<longleftrightarrow> t < t' \<or> t = t' \<and> u \<le> u'"
fun less_keyset :: "keyset \<Rightarrow> keyset \<Rightarrow> bool" where
  "Keyset t u < Keyset t' u' \<longleftrightarrow> t < t' \<or> t = t' \<and> u < u'"
instance
proof
  fix x y z :: keyset
  show "x < y \<longleftrightarrow> x \<le> y \<and> \<not> y \<le> x" by (cases x; cases y) auto
  show "x \<le> x" by (cases x) simp
  show "x \<le> y \<Longrightarrow> y \<le> z \<Longrightarrow> x \<le> z" by (cases x; cases y; cases z) auto
  show "x \<le> y \<Longrightarrow> y \<le> x \<Longrightarrow> x = y" by (cases x; cases y) auto
  show "x \<le> y \<or> y \<le> x" by (cases x; cases y) auto
qed
end

definition order_key :: "orders_row \<Rightarrow> keyset" where
  "order_key r = Keyset (o_created_at r) (o_id r)"

definition item_key :: "order_items_row \<Rightarrow> keyset" where
  "item_key r = Keyset (i_created_at r) (i_id r)"

definition event_key :: "order_events_row \<Rightarrow> keyset" where
  "event_key r = Keyset (v_created_at r) (v_id r)"

section \<open>The environment and driver calls\<close>

text \<open>
  \<open>Fails\<close>: the call returns an error and has no effect.  \<open>Lost\<close>: the server has done
  the work, the client sees an error; this matters for \<open>COMMIT\<close> only.
\<close>

datatype fault = NoFault | Fails string | Lost string

text \<open>Each field is indexed by the number of environment calls made so far; the clock
  counts microseconds, the resolution of \<open>timestamptz\<close>.\<close>

record env =
  env_fault :: "nat \<Rightarrow> fault"
  env_now :: "nat \<Rightarrow> int"
  env_uuid :: "nat \<Rightarrow> uuid"
  env_locked :: "nat \<Rightarrow> uuid \<Rightarrow> bool"
  env_others :: "nat \<Rightarrow> tables \<Rightarrow> tables"

record world =
  w_db :: tables
  w_tick :: nat
  w_env :: env

type_synonym 'a dbop = "(world, go_error, 'a) op"

definition now_at :: "env \<Rightarrow> nat \<Rightarrow> time" where
  "now_at E n = 1000 * env_now E n"

text \<open>\<open>db.DBTX\<close>: a statement runs on the pool, as a transaction of its own, or in an
  open transaction, whose \<open>now()\<close> is its start.\<close>

datatype DBTX = Pool | Tx time

type_synonym 'a stmt = "time \<Rightarrow> tables \<Rightarrow> go_error + ('a \<times> tables)"

definition begin_session :: "world \<Rightarrow> world" where
  "begin_session w = w\<lparr>w_db := env_others (w_env w) (w_tick w) (w_db w)\<rparr>"

definition tick :: "world \<Rightarrow> world" where
  "tick w = w\<lparr>w_tick := Suc (w_tick w)\<rparr>"

definition run_stmt :: "time \<Rightarrow> 'a stmt \<Rightarrow> 'a dbop" where
  "run_stmt now stmt w =
     (case env_fault (w_env w) (w_tick w) of
        NoFault \<Rightarrow> (case stmt now (w_db w) of
                      Inl e \<Rightarrow> (Inl e, tick w)
                    | Inr (x, d) \<Rightarrow> (Inr x, (tick w)\<lparr>w_db := d\<rparr>))
      | Fails t \<Rightarrow> (Inl (OtherError t), tick w)
      | Lost t \<Rightarrow> (Inl (OtherError t), tick w))"

definition db_call :: "DBTX \<Rightarrow> 'a stmt \<Rightarrow> 'a dbop" where
  "db_call conn stmt w =
     (case conn of
        Pool \<Rightarrow> run_stmt (now_at (w_env w) (w_tick w)) stmt (begin_session w)
      | Tx now \<Rightarrow> run_stmt now stmt w)"

text \<open>\<open>uuid.New()\<close> takes the next random UUID of the environment; it cannot fail.\<close>

definition draw_uuid :: "world \<Rightarrow> uuid \<times> world" where
  "draw_uuid w = (env_uuid (w_env w) (w_tick w), tick w)"

definition uuid_New :: "uuid dbop" where
  "uuid_New = drawE draw_uuid"

section \<open>Constraints\<close>

definition check_violation :: "string \<Rightarrow> go_error" where
  "check_violation c = PgError ''23514'' c ''violates check constraint''"

definition unique_violation :: "string \<Rightarrow> go_error" where
  "unique_violation c = PgError ''23505'' c ''duplicate key value violates unique constraint''"

definition fk_violation :: "string \<Rightarrow> go_error" where
  "fk_violation c = PgError ''23503'' c ''violates foreign key constraint''"

definition null_byte_error :: go_error where
  "null_byte_error = PgError ''22021'' [] ''invalid byte sequence for encoding UTF8: 0x00''"

definition too_long_error :: go_error where
  "too_long_error = PgError ''22001'' [] ''value too long for type character(3)''"

text \<open>A \<open>text\<close> parameter may not hold a zero byte.\<close>

definition pg_text :: "string \<Rightarrow> bool" where
  "pg_text s \<longleftrightarrow> CHR 0x00 \<notin> set s"

definition pg_null_text :: "string option \<Rightarrow> bool" where
  "pg_null_text x = (case x of None \<Rightarrow> True | Some s \<Rightarrow> pg_text s)"

text \<open>Assignment to \<open>CHAR(3)\<close>: padded with blanks; excess characters must be blanks.\<close>

definition pg_char3 :: "string \<Rightarrow> string option" where
  "pg_char3 s =
     (if length s \<le> 3 then Some (s @ replicate (3 - length s) CHR '' '')
      else if list_all (\<lambda>c. c = CHR '' '') (drop 3 s) then Some (take 3 s) else None)"

definition not_null_violation :: "string \<Rightarrow> go_error" where
  "not_null_violation c = PgError ''23502'' c ''violates not-null constraint''"

text \<open>The \<open>CHECK\<close> clauses of the migration.\<close>

definition orders_status_check :: "string \<Rightarrow> bool" where
  "orders_status_check s \<longleftrightarrow>
     s \<in> {''PENDING'', ''PROCESSING'', ''SHIPPED'', ''DELIVERED'', ''CANCELLED''}"

definition order_events_actor_type_check :: "string \<Rightarrow> bool" where
  "order_events_actor_type_check s \<longleftrightarrow> s \<in> {''CUSTOMER'', ''ADMIN'', ''SYSTEM''}"

lemma orders_status_check_iff [simp, table_simps]: "orders_status_check s \<longleftrightarrow> IsValidStatus s"
  by (auto simp: orders_status_check_def IsValidStatus_iff status_defs)

definition insert_order_row :: "orders_row \<Rightarrow> tables \<Rightarrow> go_error + tables" where
  "insert_order_row r d =
     (if \<not> orders_status_check (o_status r) then Inl (check_violation ''orders_status_check'')
      else if sint (o_total_cents r) < 0 then Inl (check_violation ''orders_total_cents_check'')
      else if o_id r \<in> o_id ` set (orders d) then Inl (unique_violation ''orders_pkey'')
      else if (o_customer_id r, o_idempotency_key r) \<in>
              (\<lambda>x. (o_customer_id x, o_idempotency_key x)) ` set (orders d)
      then Inl (unique_violation ''orders_customer_id_idempotency_key_key'')
      else Inr (d\<lparr>orders := orders d @ [r]\<rparr>))"

definition insert_item_row :: "order_items_row \<Rightarrow> tables \<Rightarrow> go_error + tables" where
  "insert_item_row r d =
     (if \<not> 0 < sint (i_quantity r) then Inl (check_violation ''order_items_quantity_check'')
      else if sint (i_unit_price_cents r) < 0
      then Inl (check_violation ''order_items_unit_price_cents_check'')
      else if i_id r \<in> i_id ` set (order_items d) then Inl (unique_violation ''order_items_pkey'')
      else if i_order_id r \<notin> o_id ` set (orders d)
      then Inl (fk_violation ''order_items_order_id_fkey'')
      else Inr (d\<lparr>order_items := order_items d @ [r]\<rparr>))"

definition insert_event_row :: "order_events_row \<Rightarrow> tables \<Rightarrow> go_error + tables" where
  "insert_event_row r d =
     (if \<not> order_events_actor_type_check (v_actor_type r)
      then Inl (check_violation ''order_events_actor_type_check'')
      else if v_id r \<in> v_id ` set (order_events d) then Inl (unique_violation ''order_events_pkey'')
      else if v_order_id r \<notin> o_id ` set (orders d)
      then Inl (fk_violation ''order_events_order_id_fkey'')
      else Inr (d\<lparr>order_events := order_events d @ [r]\<rparr>))"

text \<open>\<open>UPDATE orders SET status = s, updated_at = now() WHERE P RETURNING ...\<close>\<close>

definition set_status :: "string \<Rightarrow> time \<Rightarrow> orders_row \<Rightarrow> orders_row" where
  "set_status s now r = r\<lparr>o_status := s, o_updated_at := now\<rparr>"

definition update_orders ::
    "(orders_row \<Rightarrow> bool) \<Rightarrow> string \<Rightarrow> time \<Rightarrow> tables \<Rightarrow> orders_row list \<times> tables" where
  "update_orders P s now d =
     (map (set_status s now) (filter P (orders d)),
      d\<lparr>orders := map (\<lambda>r. if P r then set_status s now r else r) (orders d)\<rparr>)"

text \<open>\<open>:one\<close> statements scan the first row; \<open>pgx.ErrNoRows\<close> if there is none.\<close>

definition one_row :: "orders_row list \<times> tables \<Rightarrow> go_error + (Order \<times> tables)" where
  "one_row rd =
     (case rd of
        ([], _) \<Rightarrow> Inl (Sentinel PgxErrNoRows)
      | (r # _, d) \<Rightarrow> Inr (scan_order r, d))"

definition pgUUID_eq :: "uuid \<Rightarrow> pgUUID \<Rightarrow> bool" where
  "pgUUID_eq u p \<longleftrightarrow> p = Some u"

end
