(* ===== verification/Queries.thy ===== *)
theory Queries
  imports Database
begin

text \<open>
  The eleven generated queries of \<open>internal/db/orders.sql.go\<close>.  Each one is a statement
  (its SQL text as a function of \<open>now()\<close> and the tables) run by \<open>db_call\<close> on a
  connection.  Literals in the SQL text (\<open>'PENDING'\<close>, ...) are written with the status
  constants of the same value.
\<close>

section \<open>Parameters\<close>

record CancelPendingOrderParams =
  CancelP_ID :: pgUUID
  CancelP_CustomerID :: pgUUID

record CreateOrderParams =
  CreateP_ID :: pgUUID
  CreateP_CustomerID :: pgUUID
  CreateP_Status :: string
  CreateP_IdempotencyKey :: string
  CreateP_TotalCents :: int64
  CreateP_Currency :: string

record CreateOrderEventParams =
  EventP_ID :: pgUUID
  EventP_OrderID :: pgUUID
  EventP_ActorType :: string
  EventP_ActorID :: pgUUID
  EventP_FromStatus :: pgText
  EventP_ToStatus :: pgText
  EventP_Action :: string
  EventP_Reason :: pgText
  EventP_IpAddress :: "netip_Addr option"

record CreateOrderItemParams =
  ItemP_ID :: pgUUID
  ItemP_OrderID :: pgUUID
  ItemP_ProductID :: pgUUID
  ItemP_Sku :: string
  ItemP_Quantity :: int32
  ItemP_UnitPriceCents :: int64

record GetOrderByIDAndCustomerIDParams =
  GetP_ID :: pgUUID
  GetP_CustomerID :: pgUUID

record ListOrdersByCustomerIDParams =
  ListP_CustomerID :: pgUUID
  ListP_Limit :: int32
  ListP_CursorCreatedAt :: pgTimestamptz
  ListP_CursorID :: pgUUID

record ListOrdersByCustomerIDAndStatusParams =
  ListSP_CustomerID :: pgUUID
  ListSP_Status :: string
  ListSP_Limit :: int32
  ListSP_CursorCreatedAt :: pgTimestamptz
  ListSP_CursorID :: pgUUID

record UpdateOrderStatusIfCurrentStatusMatchesParams =
  UpdateP_ID :: pgUUID
  UpdateP_Status :: string
  UpdateP_Status_2 :: string

section \<open>Writing statements\<close>

definition Queries_CancelPendingOrder :: "DBTX \<Rightarrow> CancelPendingOrderParams \<Rightarrow> Order dbop" where
  "Queries_CancelPendingOrder conn arg =
     db_call conn (\<lambda>now d.
       one_row (update_orders
         (\<lambda>r. pgUUID_eq (o_id r) (CancelP_ID arg) \<and>
              pgUUID_eq (o_customer_id r) (CancelP_CustomerID arg) \<and>
              o_status r = StatusPending)
         StatusCancelled now d))"

definition create_order_stmt :: "CreateOrderParams \<Rightarrow> Order stmt" where
  "create_order_stmt arg now d =
     (case (CreateP_ID arg, CreateP_CustomerID arg, pg_char3 (CreateP_Currency arg)) of
        (None, _, _) \<Rightarrow> Inl (not_null_violation ''id'')
      | (_, None, _) \<Rightarrow> Inl (not_null_violation ''customer_id'')
      | (_, _, None) \<Rightarrow> Inl too_long_error
      | (Some oid, Some cid, Some cur) \<Rightarrow>
          if \<not> (pg_text (CreateP_Status arg) \<and> pg_text (CreateP_IdempotencyKey arg) \<and>
                  pg_text (CreateP_Currency arg))
          then Inl null_byte_error
          else
            (let r = \<lparr>o_id = oid, o_customer_id = cid, o_status = CreateP_Status arg,
                      o_idempotency_key = CreateP_IdempotencyKey arg,
                      o_total_cents = CreateP_TotalCents arg, o_currency = cur,
                      o_created_at = now, o_updated_at = now\<rparr>
             in (case insert_order_row r d of
                   Inl e \<Rightarrow> Inl e
                 | Inr d' \<Rightarrow> Inr (scan_order r, d'))))"

definition Queries_CreateOrder :: "DBTX \<Rightarrow> CreateOrderParams \<Rightarrow> Order dbop" where
  "Queries_CreateOrder conn arg = db_call conn (create_order_stmt arg)"

definition create_event_stmt :: "CreateOrderEventParams \<Rightarrow> OrderEvent stmt" where
  "create_event_stmt arg now d =
     (case (EventP_ID arg, EventP_OrderID arg) of
        (None, _) \<Rightarrow> Inl (not_null_violation ''id'')
      | (_, None) \<Rightarrow> Inl (not_null_violation ''order_id'')
      | (Some vid, Some oid) \<Rightarrow>
          if \<not> (pg_text (EventP_ActorType arg) \<and> pg_null_text (EventP_FromStatus arg) \<and>
                  pg_null_text (EventP_ToStatus arg) \<and> pg_text (EventP_Action arg) \<and>
                  pg_null_text (EventP_Reason arg))
          then Inl null_byte_error
          else
            (let r = \<lparr>v_id = vid, v_order_id = oid, v_actor_type = EventP_ActorType arg,
                      v_actor_id = EventP_ActorID arg, v_from_status = EventP_FromStatus arg,
                      v_to_status = EventP_ToStatus arg, v_action = EventP_Action arg,
                      v_reason = EventP_Reason arg, v_ip_address = EventP_IpAddress arg,
                      v_created_at = now\<rparr>
             in (case insert_event_row r d of
                   Inl e \<Rightarrow> Inl e
                 | Inr d' \<Rightarrow> Inr (scan_event r, d'))))"

definition Queries_CreateOrderEvent :: "DBTX \<Rightarrow> CreateOrderEventParams \<Rightarrow> OrderEvent dbop" where
  "Queries_CreateOrderEvent conn arg = db_call conn (create_event_stmt arg)"

definition create_item_stmt :: "CreateOrderItemParams \<Rightarrow> OrderItem stmt" where
  "create_item_stmt arg now d =
     (case (ItemP_ID arg, ItemP_OrderID arg, ItemP_ProductID arg) of
        (None, _, _) \<Rightarrow> Inl (not_null_violation ''id'')
      | (_, None, _) \<Rightarrow> Inl (not_null_violation ''order_id'')
      | (_, _, None) \<Rightarrow> Inl (not_null_violation ''product_id'')
      | (Some iid, Some oid, Some pid) \<Rightarrow>
          if \<not> pg_text (ItemP_Sku arg) then Inl null_byte_error
          else
            (let r = \<lparr>i_id = iid, i_order_id = oid, i_product_id = pid, i_sku = ItemP_Sku arg,
                      i_quantity = ItemP_Quantity arg,
                      i_unit_price_cents = ItemP_UnitPriceCents arg, i_created_at = now\<rparr>
             in (case insert_item_row r d of
                   Inl e \<Rightarrow> Inl e
                 | Inr d' \<Rightarrow> Inr (scan_item r, d'))))"

definition Queries_CreateOrderItem :: "DBTX \<Rightarrow> CreateOrderItemParams \<Rightarrow> OrderItem dbop" where
  "Queries_CreateOrderItem conn arg = db_call conn (create_item_stmt arg)"

text \<open>The row check of the migration applies to updated rows as well.\<close>

definition Queries_UpdateOrderStatusIfCurrentStatusMatches ::
    "DBTX \<Rightarrow> UpdateOrderStatusIfCurrentStatusMatchesParams \<Rightarrow> Order dbop" where
  "Queries_UpdateOrderStatusIfCurrentStatusMatches conn arg =
     db_call conn (\<lambda>now d.
       let P = (\<lambda>r. pgUUID_eq (o_id r) (UpdateP_ID arg) \<and> o_status r = UpdateP_Status arg) in
       if \<not> (pg_text (UpdateP_Status arg) \<and> pg_text (UpdateP_Status_2 arg))
       then Inl null_byte_error
       else if list_ex P (orders d) \<and> \<not> orders_status_check (UpdateP_Status_2 arg)
       then Inl (check_violation ''orders_status_check'')
       else one_row (update_orders P (UpdateP_Status_2 arg) now d))"

text \<open>\<open>FOR UPDATE SKIP LOCKED\<close>: locked rows are passed over before the limit counts.  The
  rows come back in table order; SQL promises no order here and the code needs none.\<close>

definition picked_orders :: "(uuid \<Rightarrow> bool) \<Rightarrow> nat \<Rightarrow> tables \<Rightarrow> uuid list" where
  "picked_orders locked n d =
     map o_id (take n (sort_key order_key
       (filter (\<lambda>r. o_status r = StatusPending \<and> \<not> locked (o_id r)) (orders d))))"

definition negative_limit_error :: go_error where
  "negative_limit_error = PgError ''2201W'' [] ''LIMIT must not be negative''"

definition pick_and_move_stmt :: "(uuid \<Rightarrow> bool) \<Rightarrow> int32 \<Rightarrow> Order list stmt" where
  "pick_and_move_stmt locked limit now d =
     (if sint limit < 0 then Inl negative_limit_error
      else
        (let ids = picked_orders locked (nat (sint limit)) d;
             (rows, d') = update_orders (\<lambda>r. o_id r \<in> set ids) StatusProcessing now d
         in Inr (map scan_order rows, d')))"

definition Queries_WorkerPickAndMovePendingOrdersToProcessing :: "DBTX \<Rightarrow> int32 \<Rightarrow> Order list dbop" where
  "Queries_WorkerPickAndMovePendingOrdersToProcessing conn limit w =
     db_call conn (pick_and_move_stmt (env_locked (w_env w) (w_tick w)) limit) w"

section \<open>Reading statements\<close>

definition Queries_GetOrderByIDAndCustomerID :: "DBTX \<Rightarrow> GetOrderByIDAndCustomerIDParams \<Rightarrow> Order dbop" where
  "Queries_GetOrderByIDAndCustomerID conn arg =
     db_call conn (\<lambda>now d.
       one_row (take 1 (filter (\<lambda>r. pgUUID_eq (o_id r) (GetP_ID arg) \<and>
                                    pgUUID_eq (o_customer_id r) (GetP_CustomerID arg))
                          (orders d)), d))"

definition Queries_GetOrderEventsByOrderID :: "DBTX \<Rightarrow> pgUUID \<Rightarrow> OrderEvent list dbop" where
  "Queries_GetOrderEventsByOrderID conn orderID =
     db_call conn (\<lambda>now d.
       Inr (map scan_event (rev (sort_key event_key
              (filter (\<lambda>r. pgUUID_eq (v_order_id r) orderID) (order_events d)))), d))"

definition Queries_GetOrderItemsByOrderID :: "DBTX \<Rightarrow> pgUUID \<Rightarrow> OrderItem list dbop" where
  "Queries_GetOrderItemsByOrderID conn orderID =
     db_call conn (\<lambda>now d.
       Inr (map scan_item (sort_key item_key
              (filter (\<lambda>r. pgUUID_eq (i_order_id r) orderID) (order_items d))), d))"

text \<open>The cursor condition; a \<open>timestamptz\<close> parameter carries whole microseconds.\<close>

definition pg_micros :: "time \<Rightarrow> time" where
  "pg_micros t = t div 1000 * 1000"

definition after_cursor :: "pgTimestamptz \<Rightarrow> pgUUID \<Rightarrow> orders_row \<Rightarrow> bool" where
  "after_cursor createdAt cid r =
     (case createdAt of
        None \<Rightarrow> True
      | Some t \<Rightarrow>
          o_created_at r < pg_micros t \<or>
          (o_created_at r = pg_micros t \<and> (case cid of None \<Rightarrow> False | Some u \<Rightarrow> o_id r < u)))"

definition list_page :: "(orders_row \<Rightarrow> bool) \<Rightarrow> int32 \<Rightarrow> Order list stmt" where
  "list_page P limit now d =
     (if sint limit < 0 then Inl negative_limit_error
      else Inr (map scan_order (take (nat (sint limit)) (rev (sort_key order_key (filter P (orders d))))), d))"

definition Queries_ListOrdersByCustomerID :: "DBTX \<Rightarrow> ListOrdersByCustomerIDParams \<Rightarrow> Order list dbop" where
  "Queries_ListOrdersByCustomerID conn arg =
     db_call conn (list_page
       (\<lambda>r. pgUUID_eq (o_customer_id r) (ListP_CustomerID arg) \<and>
            after_cursor (ListP_CursorCreatedAt arg) (ListP_CursorID arg) r)
       (ListP_Limit arg))"

definition Queries_ListOrdersByCustomerIDAndStatus ::
    "DBTX \<Rightarrow> ListOrdersByCustomerIDAndStatusParams \<Rightarrow> Order list dbop" where
  "Queries_ListOrdersByCustomerIDAndStatus conn arg =
     db_call conn (\<lambda>now d.
       if \<not> pg_text (ListSP_Status arg) then Inl null_byte_error
       else list_page
              (\<lambda>r. pgUUID_eq (o_customer_id r) (ListSP_CustomerID arg) \<and>
                   o_status r = ListSP_Status arg \<and>
                   after_cursor (ListSP_CursorCreatedAt arg) (ListSP_CursorID arg) r)
              (ListSP_Limit arg) now d)"

end
