(* ===== verification/Validation.thy ===== *)
theory Validation
  imports StateMachine
begin

text \<open>
  \<open>internal/orders/validation.go\<close>: the request bodies and their validation, with every
  field error in the order the code appends it, and the total computed by
  \<open>calculateTotalCents\<close> of \<open>service.go\<close> in 64-bit wrap-around arithmetic.
\<close>

section \<open>Requests\<close>

record CreateOrderItemRequest =
  Item_ProductID :: string
  Item_SKU :: string
  Item_Quantity :: int32
  Item_UnitPriceCents :: int64

record CreateOrderRequest =
  Req_IdempotencyKey :: string
  Req_Currency :: string
  Req_Items :: "CreateOrderItemRequest list"

record UpdateOrderStatusRequest =
  UpdReq_Status :: OrderStatus

section \<open>Validation\<close>

definition field_error :: "string \<Rightarrow> string \<Rightarrow> FieldError" where
  "field_error f m = \<lparr>FieldError_Field = f, FieldError_Message = m\<rparr>"

definition currencyCodePattern_MatchString :: "string \<Rightarrow> bool" where
  "currencyCodePattern_MatchString s \<longleftrightarrow>
     length s = 3 \<and> list_all (\<lambda>c. 65 \<le> byte c \<and> byte c \<le> 90) s"

definition item_errors :: "nat \<Rightarrow> CreateOrderItemRequest \<Rightarrow> ValidationErrors" where
  "item_errors i item =
     (let prefix = ''items['' @ show_nat i @ '']'' in
      (if TrimSpace (Item_ProductID item) = []
       then [field_error (prefix @ ''.product_id'') ''is required''] else []) @
      (if TrimSpace (Item_SKU item) = []
       then [field_error (prefix @ ''.sku'') ''is required''] else []) @
      (if sint (Item_Quantity item) \<le> 0
       then [field_error (prefix @ ''.quantity'') ''must be greater than 0''] else []) @
      (if sint (Item_UnitPriceCents item) < 0
       then [field_error (prefix @ ''.unit_price_cents'') ''must be greater than or equal to 0'']
       else []))"

fun items_errors :: "nat \<Rightarrow> CreateOrderItemRequest list \<Rightarrow> ValidationErrors" where
  "items_errors i [] = []"
| "items_errors i (item # items) = item_errors i item @ items_errors (Suc i) items"

definition ValidateCreateOrderRequest :: "CreateOrderRequest \<Rightarrow> go_error + unit" where
  "ValidateCreateOrderRequest req =
     (let validationErrs =
        (if TrimSpace (Req_IdempotencyKey req) = []
         then [field_error ''idempotency_key'' ''is required''] else []) @
        (if \<not> currencyCodePattern_MatchString (Req_Currency req)
         then [field_error ''currency'' ''must be a 3-letter uppercase code''] else []) @
        (if length (Req_Items req) = 0
         then [field_error ''items'' ''must contain at least one item''] else []) @
        items_errors 0 (Req_Items req)
      in if HasErrors validationErrs then Inl (Validation validationErrs) else Inr ())"

definition ValidateUpdateOrderStatusRequest :: "UpdateOrderStatusRequest \<Rightarrow> go_error + unit" where
  "ValidateUpdateOrderStatusRequest req =
     (let validationErrs =
        (if UpdReq_Status req = [] then [field_error ''status'' ''is required'']
         else if \<not> IsValidStatus (UpdReq_Status req)
         then [field_error ''status'' ''must be a valid OMS status''] else [])
      in if HasErrors validationErrs then Inl (Validation validationErrs) else Inr ())"

text \<open>What a valid request is, stated directly.\<close>

definition item_ok :: "CreateOrderItemRequest \<Rightarrow> bool" where
  "item_ok item \<longleftrightarrow>
     TrimSpace (Item_ProductID item) \<noteq> [] \<and> TrimSpace (Item_SKU item) \<noteq> [] \<and>
     0 < sint (Item_Quantity item) \<and> 0 \<le> sint (Item_UnitPriceCents item)"

definition request_ok :: "CreateOrderRequest \<Rightarrow> bool" where
  "request_ok req \<longleftrightarrow>
     TrimSpace (Req_IdempotencyKey req) \<noteq> [] \<and> currencyCodePattern_MatchString (Req_Currency req) \<and>
     Req_Items req \<noteq> [] \<and> list_all item_ok (Req_Items req)"

lemma item_errors_Nil: "item_errors i item = [] \<longleftrightarrow> item_ok item"
  by (auto simp: item_errors_def item_ok_def Let_def)

lemma items_errors_Nil: "items_errors i items = [] \<longleftrightarrow> list_all item_ok items"
  by (induction items arbitrary: i) (auto simp: item_errors_Nil)

lemma ValidateCreateOrderRequest_Inr:
  "ValidateCreateOrderRequest req = Inr u \<longleftrightarrow> request_ok req"
  by (auto simp: ValidateCreateOrderRequest_def request_ok_def Let_def items_errors_Nil)

lemma ValidateCreateOrderRequest_cases:
  obtains (invalid) ve where "ValidateCreateOrderRequest req = Inl (Validation ve)"
      and "ve \<noteq> []" and "\<not> request_ok req"
    | (valid) "ValidateCreateOrderRequest req = Inr ()" and "request_ok req"
proof (cases "ValidateCreateOrderRequest req")
  case (Inl e)
  then obtain ve where "e = Validation ve" "ve \<noteq> []"
    by (auto simp: ValidateCreateOrderRequest_def Let_def split: if_splits)
  moreover from Inl have "\<not> request_ok req" by (metis Inl_Inr_False ValidateCreateOrderRequest_Inr)
  ultimately show ?thesis using Inl by (auto intro: invalid)
next
  case (Inr u)
  then show ?thesis using ValidateCreateOrderRequest_Inr by (auto intro: valid)
qed

lemma ValidateCreateOrderRequest_Inl:
  "ValidateCreateOrderRequest req = Inl e \<Longrightarrow> IsValidationError e"
  by (auto simp: ValidateCreateOrderRequest_def Let_def split: if_splits)

text \<open>Where an item is invalid, the error list names it by its index.\<close>

lemma items_errors_mem:
  "fe \<in> set (items_errors k items) \<longleftrightarrow>
     (\<exists>i < length items. fe \<in> set (item_errors (k + i) (items ! i)))"
proof (induction items arbitrary: k)
  case Nil
  then show ?case by simp
next
  case (Cons item items)
  have "(\<exists>i < length (item # items). fe \<in> set (item_errors (k + i) ((item # items) ! i))) \<longleftrightarrow>
     fe \<in> set (item_errors k item) \<or>
     (\<exists>i < length items. fe \<in> set (item_errors (Suc k + i) (items ! i)))"
    by (auto simp: less_Suc_eq_0_disj)
  with Cons [of "Suc k"] show ?case by simp
qed

lemma ValidateUpdateOrderStatusRequest_Inr:
  "ValidateUpdateOrderStatusRequest req = Inr u \<longleftrightarrow> IsValidStatus (UpdReq_Status req)"
  by (auto simp: ValidateUpdateOrderStatusRequest_def Let_def IsValidStatus_iff)

section \<open>The order total\<close>

text \<open>Go's \<open>int64\<close> division truncates towards zero; \<open>maxInt64\<close> is \<open>^uint64(0) >> 1\<close>.\<close>

definition int64_div :: "int64 \<Rightarrow> int64 \<Rightarrow> int64" where
  "int64_div a b = word_of_int (sgn (sint a) * sgn (sint b) * (\<bar>sint a\<bar> div \<bar>sint b\<bar>))"

definition maxInt64 :: int64 where
  "maxInt64 = drop_bit 1 (- 1)"

definition multiplyCents :: "int64 \<Rightarrow> int64 \<Rightarrow> go_error + int64" where
  "multiplyCents price quantity =
     (if price = 0 \<or> quantity = 0 then Inr 0
      else if sint price > 0 \<and> sint quantity > 0 \<and> sint price > sint (int64_div maxInt64 quantity)
      then Inl (Sentinel ErrTotalCentsOverflow)
      else Inr (price * quantity))"

fun sum_cents :: "int64 \<Rightarrow> CreateOrderItemRequest list \<Rightarrow> go_error + int64" where
  "sum_cents tot [] = Inr tot"
| "sum_cents tot (item # items) =
     (case multiplyCents (Item_UnitPriceCents item) (scast (Item_Quantity item)) of
        Inl e \<Rightarrow> Inl e
      | Inr lineTotal \<Rightarrow>
          (let nextTotal = tot + lineTotal in
           if (sint lineTotal > 0 \<and> sint nextTotal < sint tot) \<or>
              (sint lineTotal < 0 \<and> sint nextTotal > sint tot)
           then Inl (Sentinel ErrTotalCentsOverflow)
           else sum_cents nextTotal items))"

definition calculateTotalCents :: "CreateOrderItemRequest list \<Rightarrow> go_error + int64" where
  "calculateTotalCents items = sum_cents 0 items"

text \<open>The total in exact arithmetic.\<close>

definition exact_total :: "CreateOrderItemRequest list \<Rightarrow> int" where
  "exact_total items = (\<Sum>item \<leftarrow> items. sint (Item_UnitPriceCents item) * sint (Item_Quantity item))"

lemma sint_int64_bounds: "- (2 ^ 63) \<le> sint (x :: int64)" "sint (x :: int64) < 2 ^ 63"
  using sint_ge [of x] sint_lt [of x] by simp_all

lemma sint_int64_of_int: "- (2 ^ 63) \<le> i \<Longrightarrow> i < 2 ^ 63 \<Longrightarrow> sint (word_of_int i :: int64) = i"
  by (simp add: signed_take_bit_int_eq_self sint_sbintrunc')

lemma sint_maxInt64: "sint maxInt64 = 2 ^ 63 - 1"
  by (simp add: maxInt64_def mask_eq_exp_minus_1)

lemma sint_scast_int32: "sint (scast (q :: int32) :: int64) = sint q"
  by (simp add: sint_up_scast is_up)

lemma word_of_int_sint_mult: "word_of_int (sint (a :: int64) * sint b) = a * b"
  by simp

lemma word_of_int_sint_add: "word_of_int (sint (a :: int64) + sint b) = a + b"
  by simp

lemma int_div_less_iff:
  fixes m n q :: int
  assumes "0 < q"
  shows "m div q < n \<longleftrightarrow> m < n * q"
proof
  assume "m div q < n"
  then have "(m div q + 1) * q \<le> n * q" using assms by (intro mult_right_mono) simp_all
  moreover have "m < (m div q + 1) * q"
    using assms pos_mod_bound [OF assms, of m] div_mult_mod_eq [of m q]
    by (simp only: distrib_right)
  ultimately show "m < n * q" by linarith
next
  assume m: "m < n * q"
  show "m div q < n"
  proof (rule ccontr)
    assume "\<not> m div q < n"
    then have "n * q \<le> m div q * q" using assms by (intro mult_right_mono) simp_all
    also have "\<dots> \<le> m"
      using assms pos_mod_sign [of q m] div_mult_mod_eq [of m q] by linarith
    finally show False using m by simp
  qed
qed

lemma int64_div_max:
  assumes "0 < sint q"
  shows "sint (int64_div maxInt64 q) = (2 ^ 63 - 1) div sint q"
proof -
  have "0 \<le> (2 ^ 63 - 1 :: int) div sint q"
    using assms by (simp add: pos_imp_zdiv_nonneg_iff)
  moreover have "(2 ^ 63 - 1 :: int) div sint q \<le> 2 ^ 63 - 1"
    using int_div_le_self [of "2 ^ 63 - 1" "sint q"] by simp
  ultimately have "sint (word_of_int ((2 ^ 63 - 1) div sint q) :: int64) = (2 ^ 63 - 1) div sint q"
    by (intro sint_int64_of_int) linarith+
  with assms show ?thesis by (simp add: int64_div_def sint_maxInt64)
qed

lemma multiplyCents_exact:
  assumes "0 \<le> sint p" and "0 < sint q"
  shows "multiplyCents p q =
     (if sint p * sint q < 2 ^ 63 then Inr (p * q) else Inl (Sentinel ErrTotalCentsOverflow))"
proof (cases "p = 0")
  case True
  then show ?thesis by (simp add: multiplyCents_def)
next
  case False
  with assms(1) have p: "0 < sint p" by (metis order_le_less signed_0 signed_word_eqI)
  have "q \<noteq> 0" using assms(2) by auto
  have "(2 ^ 63 - 1) div sint q < sint p \<longleftrightarrow> 2 ^ 63 - 1 < sint p * sint q"
    using assms(2) by (rule int_div_less_iff)
  with p False \<open>q \<noteq> 0\<close> assms(2) show ?thesis
    by (simp add: multiplyCents_def int64_div_max)
qed

lemma sint_product:
  assumes "0 \<le> sint p" "0 < sint q" "sint p * sint q < 2 ^ 63"
  shows "sint (p * q :: int64) = sint p * sint q"
proof -
  have "0 \<le> sint p * sint q" using assms(1,2) by simp
  then have "- (2 ^ 63) \<le> sint p * sint q" by simp
  from sint_int64_of_int [OF this assms(3)] show ?thesis by simp
qed

lemma sint_sum:
  assumes "0 \<le> sint a" "0 \<le> sint b"
  shows "sint (a + b :: int64) =
    (if sint a + sint b < 2 ^ 63 then sint a + sint b else sint a + sint b - 2 ^ 64)"
proof (cases "sint a + sint b < 2 ^ 63")
  case True
  with assms show ?thesis using sint_int64_of_int [of "sint a + sint b"] by simp
next
  case False
  have "word_of_int (sint a + sint b - 2 ^ 64) = (word_of_int (sint a + sint b) :: int64)"
    by (simp add: word_of_int_eq_iff take_bit_eq_mod)
  then have "a + b = word_of_int (sint a + sint b - 2 ^ 64)" by simp
  moreover have "- (2 ^ 63) \<le> sint a + sint b - 2 ^ 64"
    using False by simp
  moreover have "sint a + sint b - 2 ^ 64 < 2 ^ 63"
    using sint_int64_bounds(2) [of a] sint_int64_bounds(2) [of b] by simp
  ultimately show ?thesis using False sint_int64_of_int by presburger
qed

lemma exact_total_nonneg: "list_all item_ok items \<Longrightarrow> 0 \<le> exact_total items"
  unfolding exact_total_def
  by (induction items) (auto simp: item_ok_def intro!: add_nonneg_nonneg mult_nonneg_nonneg)

lemma exact_total_Cons:
  "exact_total (item # items) =
     sint (Item_UnitPriceCents item) * sint (Item_Quantity item) + exact_total items"
  by (simp add: exact_total_def)

lemma sum_cents_exact:
  "0 \<le> sint tot \<Longrightarrow> list_all item_ok items \<Longrightarrow>
     sum_cents tot items =
       (if sint tot + exact_total items < 2 ^ 63
        then Inr (word_of_int (sint tot + exact_total items))
        else Inl (Sentinel ErrTotalCentsOverflow))"
proof (induction items arbitrary: tot)
  case Nil
  then show ?case using sint_int64_bounds [of tot] by (simp add: exact_total_def)
next
  case (Cons item items)
  let ?p = "Item_UnitPriceCents item" and ?q = "scast (Item_Quantity item) :: int64"
  from Cons.prems have pq: "0 \<le> sint ?p" "0 < sint ?q" and ok: "list_all item_ok items"
    by (simp_all add: item_ok_def [of item] sint_scast_int32)
  then have rest: "0 \<le> exact_total items" by (simp add: exact_total_nonneg)
  have tot: "exact_total (item # items) = sint ?p * sint ?q + exact_total items"
    by (simp add: exact_total_Cons sint_scast_int32)
  show ?case
  proof (cases "sint ?p * sint ?q < 2 ^ 63")
    case False
    with pq rest tot Cons.prems(1) show ?thesis by (simp add: multiplyCents_exact)
  next
    case True
    let ?l = "?p * ?q"
    have l: "sint ?l = sint ?p * sint ?q" "0 \<le> sint ?l"
      using True pq by (simp_all only: sint_product) simp
    show ?thesis
    proof (cases "sint tot + sint ?l < 2 ^ 63")
      case fits: True
      have s: "sint (tot + ?l) = sint tot + sint ?l" using Cons.prems(1) l(2) fits by (simp only: sint_sum if_True)
      with Cons.prems(1) l(2) have "0 \<le> sint (tot + ?l)" by simp
      from Cons.IH [OF this ok] s l True pq tot Cons.prems(1)
      show ?thesis by (simp only: sum_cents.simps multiplyCents_exact if_True sum.case Let_def) (simp add: add.assoc)
    next
      case False
      have s: "sint (tot + ?l) = sint tot + sint ?l - 2 ^ 64" using Cons.prems(1) l(2) False by (simp only: sint_sum if_False)
      have ov: "0 < sint ?l" "sint (tot + ?l) < sint tot"
        using s False sint_int64_bounds [of tot] sint_int64_bounds [of ?l] by simp_all
      have big: "\<not> sint tot + exact_total (item # items) < 2 ^ 63" using tot rest False l(1) by linarith
      show ?thesis
        by (simp only: sum_cents.simps multiplyCents_exact [OF pq] True ov big
            if_True if_False sum.case Let_def simp_thms)
    qed
  qed
qed

lemma calculateTotalCents_exact:
  "list_all item_ok items \<Longrightarrow>
     calculateTotalCents items =
       (if exact_total items < 2 ^ 63 then Inr (word_of_int (exact_total items))
        else Inl (Sentinel ErrTotalCentsOverflow))"
  by (simp add: calculateTotalCents_def sum_cents_exact)

lemma calculateTotalCents_sint:
  assumes "list_all item_ok items" and "calculateTotalCents items = Inr t"
  shows "sint t = exact_total items"
  using assms exact_total_nonneg [of items] sint_int64_of_int [of "exact_total items"]
  by (auto simp: calculateTotalCents_exact split: if_splits)

lemma calculateTotalCents_errors:
  "calculateTotalCents items = Inl e \<Longrightarrow> e = Sentinel ErrTotalCentsOverflow"
proof -
  have "sum_cents tot items = Inl e \<Longrightarrow> e = Sentinel ErrTotalCentsOverflow" for tot
    by (induction items arbitrary: tot)
      (auto simp: multiplyCents_def Let_def split: if_splits sum.splits)
  then show "calculateTotalCents items = Inl e \<Longrightarrow> e = Sentinel ErrTotalCentsOverflow"
    by (simp add: calculateTotalCents_def)
qed

section \<open>Properties\<close>

text \<open>C16: For items with positive quantities and no negative price the total is computed in
  exact arithmetic: either the code returns the true sum, or that sum does not fit an
  \<open>int64\<close> and the code reports the overflow; no intermediate result wraps unnoticed.\<close>

theorem total_exact_or_overflow:
  assumes "list_all item_ok items"
  shows "(if exact_total items < 2 ^ 63
     then \<exists>t. calculateTotalCents items = Inr t \<and> sint t = exact_total items
     else calculateTotalCents items = Inl (Sentinel ErrTotalCentsOverflow))"
  using calculateTotalCents_exact [OF assms] calculateTotalCents_sint [OF assms] by simp

definition big_item :: CreateOrderItemRequest where
  "big_item = \<lparr>Item_ProductID = ''p'', Item_SKU = ''s'', Item_Quantity = 2, Item_UnitPriceCents = 2 ^ 62\<rparr>"

lemma TrimSpace_letters: "TrimSpace ''p'' = ''p''" "TrimSpace ''s'' = ''s''"
  by code_simp+

lemma big_item_ok: "list_all item_ok [big_item]"
  by (simp add: item_ok_def big_item_def TrimSpace_letters)

lemma total_exact_or_overflow_witness:
  "calculateTotalCents [big_item] = Inl (Sentinel ErrTotalCentsOverflow)"
  using total_exact_or_overflow [OF big_item_ok] by (simp add: exact_total_def big_item_def)

lemma show_nat_inj [simp]: "show_nat m = show_nat n \<longleftrightarrow> m = n"
  by (metis dec_value_show_nat)

lemma show_nat_bracket: "CHR '']'' \<notin> set (show_nat n)"
  using show_nat_digits [of n] by (auto simp: list_all_iff is_digit_def)

lemma append_until:
  "c \<notin> set xs \<Longrightarrow> c \<notin> set ys \<Longrightarrow> xs @ c # us = ys @ c # vs \<longleftrightarrow> xs = ys \<and> us = vs"
proof (induction xs arbitrary: ys)
  case Nil
  then show ?case by (cases ys) auto
next
  case (Cons x xs)
  then show ?case by (cases ys) auto
qed

definition quantity_error :: "nat \<Rightarrow> FieldError" where
  "quantity_error i = field_error (''items['' @ show_nat i @ ''].quantity'') ''must be greater than 0''"

lemma quantity_error_item:
  "quantity_error i \<in> set (item_errors k item) \<longleftrightarrow> i = k \<and> sint (Item_Quantity item) \<le> 0"
  using append_until [OF show_nat_bracket show_nat_bracket, of i _ k]
  by (auto simp: quantity_error_def item_errors_def Let_def field_error_def)

text \<open>C17: A create request is accepted exactly when it is valid; when it is rejected, the
  report blames the quantity of item \<open>i\<close> exactly when that item's quantity is not positive,
  under the item's own index.\<close>

theorem validation_blames_items:
  "(ValidateCreateOrderRequest req = Inr () \<longleftrightarrow> request_ok req) \<and>
   ((\<exists>ve. ValidateCreateOrderRequest req = Inl (Validation ve) \<and> quantity_error i \<in> set ve) \<longleftrightarrow>
      i < length (Req_Items req) \<and> sint (Item_Quantity (Req_Items req ! i)) \<le> 0)"
proof -
  have "quantity_error i \<in> set (items_errors 0 (Req_Items req)) \<longleftrightarrow>
      i < length (Req_Items req) \<and> sint (Item_Quantity (Req_Items req ! i)) \<le> 0"
    by (auto simp: items_errors_mem quantity_error_item)
  moreover have "\<not> request_ok req"
    if "i < length (Req_Items req)" "sint (Item_Quantity (Req_Items req ! i)) \<le> 0"
    using that by (auto simp: request_ok_def list_all_length item_ok_def)
  ultimately show ?thesis using ValidateCreateOrderRequest_Inr [of req "()"]
    by (auto simp: ValidateCreateOrderRequest_def Let_def quantity_error_def field_error_def split: if_splits)
qed

end
