(* ===== verification/Repository.thy ===== *)
theory Repository
  imports Queries Validation
begin

text \<open>
  \<open>internal/orders/repository.go\<close>: the repository's commands, its conversions to driver
  types, \<open>withTx\<close>, and its eight operations.  Each write is one transaction: the order
  change and its audit event commit together or not at all.
\<close>

section \<open>Commands\<close>

definition actorTypeCustomer :: string where "actorTypeCustomer = ''CUSTOMER''"
definition actorTypeSystem :: string where "actorTypeSystem = ''SYSTEM''"
definition actionCreated :: string where "actionCreated = ''CREATED''"
definition actionCancelled :: string where "actionCancelled = ''CANCELLED''"
definition actionStatusUpdated :: string where "actionStatusUpdated = ''STATUS_UPDATED''"
definition actionWorkerMovedToProcessing :: string where
  "actionWorkerMovedToProcessing = ''WORKER_MOVED_TO_PROCESSING''"

lemmas action_defs = actorTypeCustomer_def actorTypeSystem_def actionCreated_def
  actionCancelled_def actionStatusUpdated_def actionWorkerMovedToProcessing_def

record CreateOrderItemInput =
  ItemIn_ID :: uuid
  ItemIn_ProductID :: uuid
  ItemIn_SKU :: string
  ItemIn_Quantity :: int32
  ItemIn_UnitPriceCents :: int64

record CreateOrderCommand =
  CreateCmd_OrderID :: uuid
  CreateCmd_CustomerID :: uuid
  CreateCmd_IdempotencyKey :: string
  CreateCmd_TotalCents :: int64
  CreateCmd_Currency :: string
  CreateCmd_Items :: "CreateOrderItemInput list"
  CreateCmd_ActorID :: "uuid option"
  CreateCmd_Reason :: "string option"
  CreateCmd_IPAddress :: "string option"

record CreateOrderResult =
  CreateRes_Order :: Order
  CreateRes_Items :: "OrderItem list"

record CancelOrderCommand =
  CancelCmd_OrderID :: uuid
  CancelCmd_CustomerID :: uuid
  CancelCmd_ActorID :: "uuid option"
  CancelCmd_Reason :: "string option"
  CancelCmd_IPAddress :: "string option"

record UpdateOrderStatusCommand =
  UpdateCmd_OrderID :: uuid
  UpdateCmd_ExpectedStatus :: OrderStatus
  UpdateCmd_NewStatus :: OrderStatus
  UpdateCmd_ActorType :: string
  UpdateCmd_ActorID :: "uuid option"
  UpdateCmd_Reason :: "string option"
  UpdateCmd_IPAddress :: "string option"

record ProcessPendingOrdersBatchCommand =
  BatchCmd_Limit :: int32
  BatchCmd_ActorID :: "uuid option"
  BatchCmd_Reason :: "string option"
  BatchCmd_IPAddress :: "string option"

record ListOrdersCommand =
  ListCmd_CustomerID :: uuid
  ListCmd_Limit :: int32
  ListCmd_Status :: "OrderStatus option"
  ListCmd_CursorCreatedAt :: "time option"
  ListCmd_CursorID :: "uuid option"

section \<open>Conversions\<close>

definition toPgUUID :: "uuid \<Rightarrow> pgUUID" where
  "toPgUUID u = Some u"

definition toPgNullUUID :: "uuid option \<Rightarrow> pgUUID" where
  "toPgNullUUID x = (case x of None \<Rightarrow> None | Some u \<Rightarrow> toPgUUID u)"

definition toPgTimestamptz :: "time option \<Rightarrow> pgTimestamptz" where
  "toPgTimestamptz x = (case x of None \<Rightarrow> None | Some t \<Rightarrow> Some t)"

definition nullUUID :: "uuid option \<Rightarrow> pgUUID" where
  "nullUUID x = (case x of None \<Rightarrow> None | Some u \<Rightarrow> toPgUUID u)"

definition nullStatus :: "OrderStatus \<Rightarrow> pgText" where
  "nullStatus s = (if s = [] then None else Some s)"

definition nullString :: "string option \<Rightarrow> pgText" where
  "nullString x = (case x of None \<Rightarrow> None | Some v \<Rightarrow> Some v)"

definition inetValue :: "string option \<Rightarrow> netip_Addr option" where
  "inetValue x = (case x of None \<Rightarrow> None | Some v \<Rightarrow> if v = [] then None else ParseAddr v)"

lemma conversions [simp]:
  "toPgUUID u = Some u" "toPgNullUUID x = x" "toPgTimestamptz y = y" "nullUUID x = x"
  "nullString z = z"
  by (auto simp: toPgUUID_def toPgNullUUID_def toPgTimestamptz_def nullUUID_def nullString_def
      split: option.splits)

lemma nullStatus_simps [simp]: "nullStatus [] = None" "s \<noteq> [] \<Longrightarrow> nullStatus s = Some s"
  by (simp_all add: nullStatus_def)

section \<open>Transactions\<close>

definition BeginTx :: "DBTX dbop" where
  "BeginTx w =
     (case env_fault (w_env w) (w_tick w) of
        NoFault \<Rightarrow> (Inr (Tx (now_at (w_env w) (w_tick w))), tick (begin_session w))
      | Fails t \<Rightarrow> (Inl (OtherError t), tick (begin_session w))
      | Lost t \<Rightarrow> (Inl (OtherError t), tick (begin_session w)))"

definition RollbackTx :: "tables \<Rightarrow> world \<Rightarrow> world" where
  "RollbackTx snapshot w = w\<lparr>w_db := snapshot\<rparr>"

text \<open>A failed commit rolls back on the server unless the answer was lost on the way.\<close>

definition CommitTx :: "tables \<Rightarrow> unit dbop" where
  "CommitTx snapshot w =
     (case env_fault (w_env w) (w_tick w) of
        NoFault \<Rightarrow> (Inr (), tick w)
      | Fails t \<Rightarrow> (Inl (OtherError t), RollbackTx snapshot (tick w))
      | Lost t \<Rightarrow> (Inl (OtherError t), tick w))"

text \<open>
  The deferred \<open>Rollback\<close> runs on every path that has not committed; after a failed
  \<open>Commit\<close> the transaction is closed already and it does nothing more.  The closure's
  captured result variable is the value \<open>fn\<close> returns.
\<close>

definition withTx :: "(DBTX \<Rightarrow> 'a dbop) \<Rightarrow> 'a dbop" where
  "withTx fn w =
     (case BeginTx w of
        (Inl e, w1) \<Rightarrow> (Inl e, w1)
      | (Inr conn, w1) \<Rightarrow>
          (let snapshot = w_db w1 in
           case fn conn w1 of
             (Inl e, w2) \<Rightarrow> (Inl e, RollbackTx snapshot w2)
           | (Inr x, w2) \<Rightarrow>
               (case CommitTx snapshot w2 of
                  (Inl e, w3) \<Rightarrow> (Inl e, w3)
                | (Inr _, w3) \<Rightarrow> (Inr x, w3))))"

section \<open>Reading operations\<close>

definition Repository_GetOrderByIDAndCustomerID :: "uuid \<Rightarrow> uuid \<Rightarrow> Order dbop" where
  "Repository_GetOrderByIDAndCustomerID orderID customerID =
     Queries_GetOrderByIDAndCustomerID Pool
       \<lparr>GetP_ID = toPgUUID orderID, GetP_CustomerID = toPgUUID customerID\<rparr>"

definition Repository_ListOrders :: "ListOrdersCommand \<Rightarrow> Order list dbop" where
  "Repository_ListOrders cmd =
     (if ListCmd_Status cmd = None \<or> ListCmd_Status cmd = Some []
      then Queries_ListOrdersByCustomerID Pool
             \<lparr>ListP_CustomerID = toPgUUID (ListCmd_CustomerID cmd), ListP_Limit = ListCmd_Limit cmd,
              ListP_CursorCreatedAt = toPgTimestamptz (ListCmd_CursorCreatedAt cmd),
              ListP_CursorID = toPgNullUUID (ListCmd_CursorID cmd)\<rparr>
      else Queries_ListOrdersByCustomerIDAndStatus Pool
             \<lparr>ListSP_CustomerID = toPgUUID (ListCmd_CustomerID cmd),
              ListSP_Status = the (ListCmd_Status cmd), ListSP_Limit = ListCmd_Limit cmd,
              ListSP_CursorCreatedAt = toPgTimestamptz (ListCmd_CursorCreatedAt cmd),
              ListSP_CursorID = toPgNullUUID (ListCmd_CursorID cmd)\<rparr>)"

definition Repository_GetOrderItemsByOrderID :: "uuid \<Rightarrow> OrderItem list dbop" where
  "Repository_GetOrderItemsByOrderID orderID =
     Queries_GetOrderItemsByOrderID Pool (toPgUUID orderID)"

definition Repository_GetOrderEventsByOrderID :: "uuid \<Rightarrow> OrderEvent list dbop" where
  "Repository_GetOrderEventsByOrderID orderID =
     Queries_GetOrderEventsByOrderID Pool (toPgUUID orderID)"

section \<open>Writing operations\<close>

definition create_items :: "DBTX \<Rightarrow> pgUUID \<Rightarrow> CreateOrderItemInput list \<Rightarrow> OrderItem list dbop" where
  "create_items queries orderID =
     mapE (\<lambda>item. Queries_CreateOrderItem queries
       \<lparr>ItemP_ID = toPgUUID (ItemIn_ID item), ItemP_OrderID = orderID,
        ItemP_ProductID = toPgUUID (ItemIn_ProductID item), ItemP_Sku = ItemIn_SKU item,
        ItemP_Quantity = ItemIn_Quantity item,
        ItemP_UnitPriceCents = ItemIn_UnitPriceCents item\<rparr>)"

definition create_tx :: "CreateOrderCommand \<Rightarrow> DBTX \<Rightarrow> CreateOrderResult dbop" where
  "create_tx cmd queries =
     bindE (Queries_CreateOrder queries
       \<lparr>CreateP_ID = toPgUUID (CreateCmd_OrderID cmd),
        CreateP_CustomerID = toPgUUID (CreateCmd_CustomerID cmd),
        CreateP_Status = StatusPending, CreateP_IdempotencyKey = CreateCmd_IdempotencyKey cmd,
        CreateP_TotalCents = CreateCmd_TotalCents cmd, CreateP_Currency = CreateCmd_Currency cmd\<rparr>)
     (\<lambda>createdOrder.
     bindE (create_items queries (Order_ID createdOrder) (CreateCmd_Items cmd))
     (\<lambda>createdItems.
     bindE uuid_New
     (\<lambda>eventID.
     bindE (Queries_CreateOrderEvent queries
       \<lparr>EventP_ID = toPgUUID eventID, EventP_OrderID = Order_ID createdOrder,
        EventP_ActorType = actorTypeCustomer, EventP_ActorID = nullUUID (CreateCmd_ActorID cmd),
        EventP_FromStatus = nullStatus [], EventP_ToStatus = nullStatus StatusPending,
        EventP_Action = actionCreated, EventP_Reason = nullString (CreateCmd_Reason cmd),
        EventP_IpAddress = inetValue (CreateCmd_IPAddress cmd)\<rparr>)
     (\<lambda>_. returnE \<lparr>CreateRes_Order = createdOrder, CreateRes_Items = createdItems\<rparr>))))"

definition Repository_CreateOrderWithItemsAndAudit ::
    "CreateOrderCommand \<Rightarrow> CreateOrderResult dbop" where
  "Repository_CreateOrderWithItemsAndAudit cmd = withTx (create_tx cmd)"

definition cancel_tx :: "CancelOrderCommand \<Rightarrow> DBTX \<Rightarrow> Order dbop" where
  "cancel_tx cmd queries =
     bindE (Queries_CancelPendingOrder queries
       \<lparr>CancelP_ID = toPgUUID (CancelCmd_OrderID cmd),
        CancelP_CustomerID = toPgUUID (CancelCmd_CustomerID cmd)\<rparr>)
     (\<lambda>cancelledOrder.
     bindE uuid_New
     (\<lambda>eventID.
     bindE (Queries_CreateOrderEvent queries
       \<lparr>EventP_ID = toPgUUID eventID, EventP_OrderID = Order_ID cancelledOrder,
        EventP_ActorType = actorTypeCustomer, EventP_ActorID = nullUUID (CancelCmd_ActorID cmd),
        EventP_FromStatus = nullStatus StatusPending, EventP_ToStatus = nullStatus StatusCancelled,
        EventP_Action = actionCancelled, EventP_Reason = nullString (CancelCmd_Reason cmd),
        EventP_IpAddress = inetValue (CancelCmd_IPAddress cmd)\<rparr>)
     (\<lambda>_. returnE cancelledOrder)))"

definition Repository_CancelOrderWithAudit :: "CancelOrderCommand \<Rightarrow> Order dbop" where
  "Repository_CancelOrderWithAudit cmd = withTx (cancel_tx cmd)"

definition update_tx :: "UpdateOrderStatusCommand \<Rightarrow> DBTX \<Rightarrow> Order dbop" where
  "update_tx cmd queries =
     bindE (Queries_UpdateOrderStatusIfCurrentStatusMatches queries
       \<lparr>UpdateP_ID = toPgUUID (UpdateCmd_OrderID cmd),
        UpdateP_Status = UpdateCmd_ExpectedStatus cmd, UpdateP_Status_2 = UpdateCmd_NewStatus cmd\<rparr>)
     (\<lambda>order.
     bindE uuid_New
     (\<lambda>eventID.
     bindE (Queries_CreateOrderEvent queries
       \<lparr>EventP_ID = toPgUUID eventID, EventP_OrderID = Order_ID order,
        EventP_ActorType = UpdateCmd_ActorType cmd, EventP_ActorID = nullUUID (UpdateCmd_ActorID cmd),
        EventP_FromStatus = nullStatus (UpdateCmd_ExpectedStatus cmd),
        EventP_ToStatus = nullStatus (UpdateCmd_NewStatus cmd),
        EventP_Action = actionStatusUpdated, EventP_Reason = nullString (UpdateCmd_Reason cmd),
        EventP_IpAddress = inetValue (UpdateCmd_IPAddress cmd)\<rparr>)
     (\<lambda>_. returnE order)))"

definition Repository_UpdateOrderStatusWithAudit :: "UpdateOrderStatusCommand \<Rightarrow> Order dbop" where
  "Repository_UpdateOrderStatusWithAudit cmd = withTx (update_tx cmd)"

definition batch_event ::
    "ProcessPendingOrdersBatchCommand \<Rightarrow> DBTX \<Rightarrow> Order \<Rightarrow> OrderEvent dbop" where
  "batch_event cmd queries order =
     bindE uuid_New
     (\<lambda>eventID.
     Queries_CreateOrderEvent queries
       \<lparr>EventP_ID = toPgUUID eventID, EventP_OrderID = Order_ID order,
        EventP_ActorType = actorTypeSystem, EventP_ActorID = nullUUID (BatchCmd_ActorID cmd),
        EventP_FromStatus = nullStatus StatusPending, EventP_ToStatus = nullStatus StatusProcessing,
        EventP_Action = actionWorkerMovedToProcessing,
        EventP_Reason = nullString (BatchCmd_Reason cmd),
        EventP_IpAddress = inetValue (BatchCmd_IPAddress cmd)\<rparr>)"

definition batch_tx :: "ProcessPendingOrdersBatchCommand \<Rightarrow> DBTX \<Rightarrow> Order list dbop" where
  "batch_tx cmd queries =
     bindE (Queries_WorkerPickAndMovePendingOrdersToProcessing queries (BatchCmd_Limit cmd))
     (\<lambda>ordersToProcess.
     bindE (mapE (batch_event cmd queries) ordersToProcess)
     (\<lambda>_. returnE ordersToProcess))"

definition Repository_ProcessPendingOrdersBatchWithAudit ::
    "ProcessPendingOrdersBatchCommand \<Rightarrow> Order list dbop" where
  "Repository_ProcessPendingOrdersBatchWithAudit cmd = withTx (batch_tx cmd)"

end
