(* ===== verification/Service.thy ===== *)
theory Service
  imports Repository
begin

text \<open>
  \<open>internal/orders/service.go\<close>.  The Go service holds a \<open>serviceRepository\<close> interface
  value; here that is a record of the eight operations over an abstract state, and every
  method of the service takes the service record it is called on.  \<open>uuid.Parse\<close> comes
  from a third-party package and is an argument.
\<close>

section \<open>The interface and the inputs\<close>

definition ActorTypeCustomer :: string where "ActorTypeCustomer = ''CUSTOMER''"
definition ActorTypeAdmin :: string where "ActorTypeAdmin = ''ADMIN''"
definition ActorTypeSystem :: string where "ActorTypeSystem = ''SYSTEM''"
definition idempotencyConstraintName :: string where
  "idempotencyConstraintName = ''orders_customer_id_idempotency_key_key''"
definition uniqueViolationCode :: string where "uniqueViolationCode = ''23505''"

record 's serviceRepository =
  repo_CreateOrderWithItemsAndAudit :: "CreateOrderCommand \<Rightarrow> ('s, go_error, CreateOrderResult) op"
  repo_GetOrderByIDAndCustomerID :: "uuid \<Rightarrow> uuid \<Rightarrow> ('s, go_error, Order) op"
  repo_GetOrderItemsByOrderID :: "uuid \<Rightarrow> ('s, go_error, OrderItem list) op"
  repo_GetOrderEventsByOrderID :: "uuid \<Rightarrow> ('s, go_error, OrderEvent list) op"
  repo_ListOrders :: "ListOrdersCommand \<Rightarrow> ('s, go_error, Order list) op"
  repo_CancelOrderWithAudit :: "CancelOrderCommand \<Rightarrow> ('s, go_error, Order) op"
  repo_UpdateOrderStatusWithAudit :: "UpdateOrderStatusCommand \<Rightarrow> ('s, go_error, Order) op"
  repo_ProcessPendingOrdersBatchWithAudit ::
    "ProcessPendingOrdersBatchCommand \<Rightarrow> ('s, go_error, Order list) op"

record 's Service =
  svc_repo :: "'s serviceRepository"
  svc_newUUID :: "'s \<Rightarrow> uuid \<times> 's"

record OrderDetails =
  Details_Order :: Order
  Details_Items :: "OrderItem list"

record CreateOrderInput =
  CreateIn_CustomerID :: uuid
  CreateIn_IdempotencyKey :: string
  CreateIn_Currency :: string
  CreateIn_Items :: "CreateOrderItemRequest list"
  CreateIn_ActorID :: "uuid option"
  CreateIn_Reason :: "string option"
  CreateIn_IPAddress :: "string option"

record ListOrdersInput =
  ListIn_CustomerID :: uuid
  ListIn_Limit :: int32
  ListIn_Status :: "OrderStatus option"
  ListIn_CursorCreatedAt :: "time option"
  ListIn_CursorID :: "uuid option"

record CancelOrderInput =
  CancelIn_OrderID :: uuid
  CancelIn_CustomerID :: uuid
  CancelIn_ActorID :: "uuid option"
  CancelIn_Reason :: "string option"
  CancelIn_IPAddress :: "string option"

record UpdateOrderStatusInput =
  UpdateIn_OrderID :: uuid
  UpdateIn_ExpectedStatus :: OrderStatus
  UpdateIn_NewStatus :: OrderStatus
  UpdateIn_ActorType :: string
  UpdateIn_ActorID :: "uuid option"
  UpdateIn_Reason :: "string option"
  UpdateIn_IPAddress :: "string option"

record ProcessPendingOrdersBatchInput =
  BatchIn_Limit :: int32
  BatchIn_ActorID :: "uuid option"
  BatchIn_Reason :: "string option"
  BatchIn_IPAddress :: "string option"

section \<open>Helpers\<close>

definition isIdempotencyConflictError :: "go_error \<Rightarrow> bool" where
  "isIdempotencyConflictError err =
     (case err of
        PgError code constraint _ \<Rightarrow>
          code = uniqueViolationCode \<and> constraint = idempotencyConstraintName
      | _ \<Rightarrow> False)"

definition isAllowedActorType :: "string \<Rightarrow> string list \<Rightarrow> bool" where
  "isAllowedActorType actorType allowed \<longleftrightarrow> list_ex (\<lambda>candidate. actorType = candidate) allowed"

text \<open>\<open>uuid.UUID(order.ID.Bytes)\<close>: an invalid \<open>pgtype.UUID\<close> has zero bytes.\<close>

definition uuid_bytes :: "pgUUID \<Rightarrow> uuid" where
  "uuid_bytes p = (case p of None \<Rightarrow> 0 | Some u \<Rightarrow> u)"

section \<open>Methods\<close>

fun command_items ::
    "(string \<Rightarrow> uuid option) \<Rightarrow> 's Service \<Rightarrow> nat \<Rightarrow> CreateOrderItemRequest list \<Rightarrow>
     ('s, go_error, CreateOrderItemInput list) op" where
  "command_items uuid_Parse s index [] = returnE []"
| "command_items uuid_Parse s index (item # items) =
     (case uuid_Parse (Item_ProductID item) of
        None \<Rightarrow> failE (Validation [field_error (''items['' @ show_nat index @ ''].product_id'')
                                     ''must be a valid UUID''])
      | Some productID \<Rightarrow>
          bindE (drawE (svc_newUUID s))
          (\<lambda>itemID.
          bindE (command_items uuid_Parse s (Suc index) items)
          (\<lambda>rest. returnE
            (\<lparr>ItemIn_ID = itemID, ItemIn_ProductID = productID, ItemIn_SKU = Item_SKU item,
              ItemIn_Quantity = Item_Quantity item,
              ItemIn_UnitPriceCents = Item_UnitPriceCents item\<rparr> # rest))))"

definition Service_CreateOrder ::
    "(string \<Rightarrow> uuid option) \<Rightarrow> 's Service \<Rightarrow> CreateOrderInput \<Rightarrow>
     ('s, go_error, CreateOrderResult) op" where
  "Service_CreateOrder uuid_Parse s input =
     bindE (liftE (ValidateCreateOrderRequest
       \<lparr>Req_IdempotencyKey = CreateIn_IdempotencyKey input,
        Req_Currency = CreateIn_Currency input, Req_Items = CreateIn_Items input\<rparr>))
     (\<lambda>_.
     bindE (liftE (calculateTotalCents (CreateIn_Items input)))
     (\<lambda>totalCents.
     bindE (command_items uuid_Parse s 0 (CreateIn_Items input))
     (\<lambda>cmdItems.
     bindE (drawE (svc_newUUID s))
     (\<lambda>orderID.
     onErrE (repo_CreateOrderWithItemsAndAudit (svc_repo s)
       \<lparr>CreateCmd_OrderID = orderID, CreateCmd_CustomerID = CreateIn_CustomerID input,
        CreateCmd_IdempotencyKey = CreateIn_IdempotencyKey input,
        CreateCmd_TotalCents = totalCents, CreateCmd_Currency = CreateIn_Currency input,
        CreateCmd_Items = cmdItems, CreateCmd_ActorID = CreateIn_ActorID input,
        CreateCmd_Reason = CreateIn_Reason input, CreateCmd_IPAddress = CreateIn_IPAddress input\<rparr>)
     (\<lambda>err. if isIdempotencyConflictError err then failE (Sentinel ErrIdempotencyConflict)
            else failE err)))))"

definition Service_GetOrder :: "'s Service \<Rightarrow> uuid \<Rightarrow> uuid \<Rightarrow> ('s, go_error, OrderDetails) op" where
  "Service_GetOrder s orderID customerID =
     bindE (onErrE (repo_GetOrderByIDAndCustomerID (svc_repo s) orderID customerID)
       (\<lambda>err. if errors_Is err PgxErrNoRows then failE (Sentinel ErrOrderNotFound) else failE err))
     (\<lambda>order.
     bindE (repo_GetOrderItemsByOrderID (svc_repo s) orderID)
     (\<lambda>items. returnE \<lparr>Details_Order = order, Details_Items = items\<rparr>))"

definition Service_ListOrders :: "'s Service \<Rightarrow> ListOrdersInput \<Rightarrow> ('s, go_error, Order list) op" where
  "Service_ListOrders s input =
     repo_ListOrders (svc_repo s)
       \<lparr>ListCmd_CustomerID = ListIn_CustomerID input, ListCmd_Limit = ListIn_Limit input,
        ListCmd_Status = ListIn_Status input, ListCmd_CursorCreatedAt = ListIn_CursorCreatedAt input,
        ListCmd_CursorID = ListIn_CursorID input\<rparr>"

definition hydrateOrderDetails ::
    "'s Service \<Rightarrow> Order list \<Rightarrow> ('s, go_error, OrderDetails list) op" where
  "hydrateOrderDetails s ordersList =
     mapE (\<lambda>order.
       bindE (repo_GetOrderItemsByOrderID (svc_repo s) (uuid_bytes (Order_ID order)))
       (\<lambda>items. returnE \<lparr>Details_Order = order, Details_Items = items\<rparr>)) ordersList"

definition Service_ListOrderDetails ::
    "'s Service \<Rightarrow> ListOrdersInput \<Rightarrow> ('s, go_error, OrderDetails list) op" where
  "Service_ListOrderDetails s input =
     bindE (Service_ListOrders s input) (\<lambda>ordersList. hydrateOrderDetails s ordersList)"

definition Service_CancelOrder :: "'s Service \<Rightarrow> CancelOrderInput \<Rightarrow> ('s, go_error, Order) op" where
  "Service_CancelOrder s input =
     bindE (onErrE (repo_GetOrderByIDAndCustomerID (svc_repo s)
                      (CancelIn_OrderID input) (CancelIn_CustomerID input))
       (\<lambda>err. if errors_Is err PgxErrNoRows then failE (Sentinel ErrOrderNotFound) else failE err))
     (\<lambda>order.
     bindE (liftE (ValidateTransition (Order_Status order) StatusCancelled))
     (\<lambda>_.
     repo_CancelOrderWithAudit (svc_repo s)
       \<lparr>CancelCmd_OrderID = CancelIn_OrderID input, CancelCmd_CustomerID = CancelIn_CustomerID input,
        CancelCmd_ActorID = CancelIn_ActorID input, CancelCmd_Reason = CancelIn_Reason input,
        CancelCmd_IPAddress = CancelIn_IPAddress input\<rparr>))"

text \<open>The order a write returned, with its items.\<close>

definition with_items :: "'s Service \<Rightarrow> Order \<Rightarrow> ('s, go_error, OrderDetails) op" where
  "with_items s order =
     bindE (repo_GetOrderItemsByOrderID (svc_repo s) (uuid_bytes (Order_ID order)))
     (\<lambda>items. returnE \<lparr>Details_Order = order, Details_Items = items\<rparr>)"

definition Service_CancelOrderDetails ::
    "'s Service \<Rightarrow> CancelOrderInput \<Rightarrow> ('s, go_error, OrderDetails) op" where
  "Service_CancelOrderDetails s input =
     bindE (Service_CancelOrder s input) (\<lambda>order. with_items s order)"

text \<open>The result of \<open>resolveStatusUpdateNoRows\<close> is always an error.\<close>

definition resolveStatusUpdateNoRows :: "'s Service \<Rightarrow> uuid \<Rightarrow> ('s, go_error, 'a) op" where
  "resolveStatusUpdateNoRows s orderID =
     bindE (repo_GetOrderEventsByOrderID (svc_repo s) orderID)
     (\<lambda>events. if length events = 0 then failE (Sentinel ErrOrderNotFound)
               else failE (Sentinel ErrInvalidTransition))"

definition Service_UpdateOrderStatus ::
    "'s Service \<Rightarrow> UpdateOrderStatusInput \<Rightarrow> ('s, go_error, Order) op" where
  "Service_UpdateOrderStatus s input =
     (if \<not> isAllowedActorType (UpdateIn_ActorType input) [ActorTypeAdmin, ActorTypeSystem]
      then failE (Sentinel ErrInvalidActorType)
      else
        bindE (liftE (ValidateTransition (UpdateIn_ExpectedStatus input) (UpdateIn_NewStatus input)))
        (\<lambda>_.
        onErrE (repo_UpdateOrderStatusWithAudit (svc_repo s)
          \<lparr>UpdateCmd_OrderID = UpdateIn_OrderID input,
           UpdateCmd_ExpectedStatus = UpdateIn_ExpectedStatus input,
           UpdateCmd_NewStatus = UpdateIn_NewStatus input,
           UpdateCmd_ActorType = UpdateIn_ActorType input, UpdateCmd_ActorID = UpdateIn_ActorID input,
           UpdateCmd_Reason = UpdateIn_Reason input, UpdateCmd_IPAddress = UpdateIn_IPAddress input\<rparr>)
        (\<lambda>err. if errors_Is err PgxErrNoRows
               then resolveStatusUpdateNoRows s (UpdateIn_OrderID input) else failE err)))"

definition Service_UpdateOrderStatusDetails ::
    "'s Service \<Rightarrow> UpdateOrderStatusInput \<Rightarrow> ('s, go_error, OrderDetails) op" where
  "Service_UpdateOrderStatusDetails s input =
     bindE (Service_UpdateOrderStatus s input) (\<lambda>order. with_items s order)"

definition Service_UpdateOrderStatusByTarget ::
    "'s Service \<Rightarrow> uuid \<Rightarrow> OrderStatus \<Rightarrow> string \<Rightarrow> uuid option \<Rightarrow> string option \<Rightarrow> string option \<Rightarrow>
     ('s, go_error, OrderDetails) op" where
  "Service_UpdateOrderStatusByTarget s orderID newStatus actorType actorID reason ipAddress =
     bindE (liftE (expectedStatusForTarget newStatus))
     (\<lambda>expectedStatus.
     Service_UpdateOrderStatusDetails s
       \<lparr>UpdateIn_OrderID = orderID, UpdateIn_ExpectedStatus = expectedStatus,
        UpdateIn_NewStatus = newStatus, UpdateIn_ActorType = actorType, UpdateIn_ActorID = actorID,
        UpdateIn_Reason = reason, UpdateIn_IPAddress = ipAddress\<rparr>)"

definition Service_ProcessPendingOrdersBatch ::
    "'s Service \<Rightarrow> ProcessPendingOrdersBatchInput \<Rightarrow> ('s, go_error, Order list) op" where
  "Service_ProcessPendingOrdersBatch s input =
     bindE (liftE (ValidateTransition StatusPending StatusProcessing))
     (\<lambda>_.
     repo_ProcessPendingOrdersBatchWithAudit (svc_repo s)
       \<lparr>BatchCmd_Limit = BatchIn_Limit input, BatchCmd_ActorID = BatchIn_ActorID input,
        BatchCmd_Reason = BatchIn_Reason input, BatchCmd_IPAddress = BatchIn_IPAddress input\<rparr>)"

section \<open>The program's service\<close>

definition pgRepository :: "world serviceRepository" where
  "pgRepository =
     \<lparr>repo_CreateOrderWithItemsAndAudit = Repository_CreateOrderWithItemsAndAudit,
      repo_GetOrderByIDAndCustomerID = Repository_GetOrderByIDAndCustomerID,
      repo_GetOrderItemsByOrderID = Repository_GetOrderItemsByOrderID,
      repo_GetOrderEventsByOrderID = Repository_GetOrderEventsByOrderID,
      repo_ListOrders = Repository_ListOrders,
      repo_CancelOrderWithAudit = Repository_CancelOrderWithAudit,
      repo_UpdateOrderStatusWithAudit = Repository_UpdateOrderStatusWithAudit,
      repo_ProcessPendingOrdersBatchWithAudit = Repository_ProcessPendingOrdersBatchWithAudit\<rparr>"

definition NewService :: "world serviceRepository \<Rightarrow> world Service" where
  "NewService repo = \<lparr>svc_repo = repo, svc_newUUID = draw_uuid\<rparr>"

end
