(* ===== verification/Json.thy ===== *)
theory Json
  imports Validation
begin

text \<open>
  The part of Go's \<open>encoding/json\<close> that \<open>decodeJSONStrict\<close> (\<open>internal/orders/json.go\<close>) runs
  before a value reaches a struct: the byte scanner with the offsets of its syntax errors
  and its limit on nesting, string unquoting, and the errors an incomplete or malformed body
  gives.  Storing the values is in \<open>Decode\<close>.
\<close>

section \<open>Values and scanning\<close>

datatype json =
    JNull
  | JBool bool
  | JNumber string
  | JString string
  | JArray "json list"
  | JObject "(string \<times> json) list"

text \<open>A scan ends with a value and the unread bytes, at a byte that cannot continue the
  value (given with the bytes from it on), or at the end of the input.\<close>

datatype 'a scan = Scanned 'a string | BadByte string | Truncated | NoFuel

definition is_space :: "char \<Rightarrow> bool" where
  "is_space c \<longleftrightarrow> c = CHR 0x20 \<or> c = CHR 0x09 \<or> c = CHR 0x0D \<or> c = CHR 0x0A"

definition skip_space :: "string \<Rightarrow> string" where
  "skip_space s = dropWhile is_space s"

definition is_hex :: "char \<Rightarrow> bool" where
  "is_hex c \<longleftrightarrow> is_digit c \<or> 97 \<le> byte c \<and> byte c \<le> 102 \<or> 65 \<le> byte c \<and> byte c \<le> 70"

definition hex_val :: "char \<Rightarrow> nat" where
  "hex_val c =
     (if is_digit c then byte c - 48 else if 97 \<le> byte c then byte c - 87 else byte c - 55)"

text \<open>The scanner's states inside a string literal; the accumulated bytes are reversed.\<close>

datatype string_state = InString | AfterBackslash | InHex nat

fun scan_string :: "string \<Rightarrow> string_state \<Rightarrow> string \<Rightarrow> string scan" where
  "scan_string acc st [] = Truncated"
| "scan_string acc InString (c # cs) =
     (if c = CHR 0x22 then Scanned (rev acc) cs
      else if c = CHR 0x5C then scan_string (c # acc) AfterBackslash cs
      else if byte c < 32 then BadByte (c # cs)
      else scan_string (c # acc) InString cs)"
| "scan_string acc AfterBackslash (c # cs) =
     (if c = CHR ''u'' then scan_string (c # acc) (InHex 3) cs
      else if c \<in> set [CHR ''b'', CHR ''f'', CHR ''n'', CHR ''r'', CHR ''t'', CHR 0x5C, CHR ''/'', CHR 0x22]
      then scan_string (c # acc) InString cs
      else BadByte (c # cs))"
| "scan_string acc (InHex n) (c # cs) =
     (if \<not> is_hex c then BadByte (c # cs)
      else scan_string (c # acc) (if n = 0 then InString else InHex (n - 1)) cs)"

datatype number_state = Neg | Zero | Digits | Dot | DotDigits | Exp | ExpSign | ExpDigits

definition number_may_end :: "number_state \<Rightarrow> bool" where
  "number_may_end st \<longleftrightarrow> st \<in> set [Zero, Digits, DotDigits, ExpDigits]"

definition number_step :: "number_state \<Rightarrow> char \<Rightarrow> number_state option" where
  "number_step st c =
     (case st of
        Neg \<Rightarrow> if c = CHR ''0'' then Some Zero else if is_digit c then Some Digits else None
      | Zero \<Rightarrow> if c = CHR ''.'' then Some Dot
                else if c = CHR ''e'' \<or> c = CHR ''E'' then Some Exp else None
      | Digits \<Rightarrow> if is_digit c then Some Digits else if c = CHR ''.'' then Some Dot
                  else if c = CHR ''e'' \<or> c = CHR ''E'' then Some Exp else None
      | Dot \<Rightarrow> if is_digit c then Some DotDigits else None
      | DotDigits \<Rightarrow> if is_digit c then Some DotDigits
                     else if c = CHR ''e'' \<or> c = CHR ''E'' then Some Exp else None
      | Exp \<Rightarrow> if c = CHR ''+'' \<or> c = CHR ''-'' then Some ExpSign
               else if is_digit c then Some ExpDigits else None
      | ExpSign \<Rightarrow> if is_digit c then Some ExpDigits else None
      | ExpDigits \<Rightarrow> if is_digit c then Some ExpDigits else None)"

fun scan_number :: "string \<Rightarrow> number_state \<Rightarrow> string \<Rightarrow> string scan" where
  "scan_number acc st [] = (if number_may_end st then Scanned (rev acc) [] else Truncated)"
| "scan_number acc st (c # cs) =
     (case number_step st c of
        Some st' \<Rightarrow> scan_number (c # acc) st' cs
      | None \<Rightarrow> if number_may_end st then Scanned (rev acc) (c # cs) else BadByte (c # cs))"

fun scan_word :: "string \<Rightarrow> string \<Rightarrow> unit scan" where
  "scan_word [] cs = Scanned () cs"
| "scan_word (w # ws) [] = Truncated"
| "scan_word (w # ws) (c # cs) = (if c = w then scan_word ws cs else BadByte (c # cs))"

section \<open>Strings\<close>

text \<open>The UTF-8 encoding of a code point.\<close>

definition utf8_encode :: "nat \<Rightarrow> string" where
  "utf8_encode r =
     (if r < 128 then [char_of r]
      else if r < 2048 then [char_of (192 + r div 64), char_of (128 + r mod 64)]
      else if r < 65536
      then [char_of (224 + r div 4096), char_of (128 + r div 64 mod 64), char_of (128 + r mod 64)]
      else [char_of (240 + r div 262144), char_of (128 + r div 4096 mod 64),
            char_of (128 + r div 64 mod 64), char_of (128 + r mod 64)])"

text \<open>How many bytes the rune at the head of a byte string takes: \<open>None\<close> for an ill-formed
  encoding, which Go replaces by U+FFFD one byte at a time.\<close>

definition cont :: "char \<Rightarrow> bool" where
  "cont c \<longleftrightarrow> 128 \<le> byte c \<and> byte c \<le> 191"

fun rune_width :: "string \<Rightarrow> nat option" where
  "rune_width [] = None"
| "rune_width (c # cs) =
     (let b = byte c in
      if b < 128 then Some 1
      else case cs of
        [] \<Rightarrow> None
      | c1 # cs1 \<Rightarrow>
          if 194 \<le> b \<and> b \<le> 223 then (if cont c1 then Some 2 else None)
          else case cs1 of
            [] \<Rightarrow> None
          | c2 # cs2 \<Rightarrow>
              if 224 \<le> b \<and> b \<le> 239
              then (if cont c1 \<and> cont c2 \<and> (b = 224 \<longrightarrow> 160 \<le> byte c1) \<and> (b = 237 \<longrightarrow> byte c1 \<le> 159)
                    then Some 3 else None)
              else case cs2 of
                [] \<Rightarrow> None
              | c3 # _ \<Rightarrow>
                  if 240 \<le> b \<and> b \<le> 244 \<and> cont c1 \<and> cont c2 \<and> cont c3 \<and>
                     (b = 240 \<longrightarrow> 144 \<le> byte c1) \<and> (b = 244 \<longrightarrow> byte c1 \<le> 143)
                  then Some 4 else None)"

definition replacement :: string where
  "replacement = [CHR 0xEF, CHR 0xBF, CHR 0xBD]"

text \<open>\<open>getu4\<close>: the value of \<open>\uXXXX\<close> at the head, or none.\<close>

fun getu4 :: "string \<Rightarrow> nat option" where
  "getu4 (b # u # h1 # h2 # h3 # h4 # cs) =
     (if b = CHR 0x5C \<and> u = CHR ''u'' \<and> list_all is_hex [h1, h2, h3, h4]
      then Some (hex_val h1 * 4096 + hex_val h2 * 256 + hex_val h3 * 16 + hex_val h4) else None)"
| "getu4 _ = None"

definition unescape :: "char \<Rightarrow> char" where
  "unescape c =
     (if c = CHR ''b'' then CHR 0x08 else if c = CHR ''f'' then CHR 0x0C
      else if c = CHR ''n'' then CHR 0x0A else if c = CHR ''r'' then CHR 0x0D
      else if c = CHR ''t'' then CHR 0x09 else c)"

text \<open>\<open>unquote\<close> on the bytes between the quotes, which the scanner has checked.  Surrogate
  pairs join; a lone surrogate and an ill-formed byte become U+FFFD.\<close>

function unquote :: "string \<Rightarrow> string" where
  "unquote [] = []"
| "unquote (c # cs) =
     (if c = CHR 0x5C then
        (case getu4 (c # cs) of
           Some r \<Rightarrow>
             if 55296 \<le> r \<and> r < 57344 then
               (case getu4 (drop 5 cs) of
                  Some r1 \<Rightarrow>
                    if r < 56320 \<and> 56320 \<le> r1 \<and> r1 < 57344
                    then utf8_encode (65536 + (r - 55296) * 1024 + (r1 - 56320)) @ unquote (drop 11 cs)
                    else replacement @ unquote (drop 5 cs)
                | None \<Rightarrow> replacement @ unquote (drop 5 cs))
             else utf8_encode r @ unquote (drop 5 cs)
         | None \<Rightarrow> (case cs of [] \<Rightarrow> [] | e # ds \<Rightarrow> unescape e # unquote ds))
      else (case rune_width (c # cs) of
              None \<Rightarrow> replacement @ unquote cs
            | Some n \<Rightarrow> take n (c # cs) @ unquote (drop (n - 1) cs)))"
  by pat_completeness auto
termination
  by (relation "measure length") auto

section \<open>Parsing one value\<close>

definition maxNestingDepth :: nat where
  "maxNestingDepth = 10000"

text \<open>The fuel counts calls; \<open>parse_fuel\<close> below shows that the length of the input is
  enough.  The second argument is the number of arrays and objects already open.\<close>

definition bind_scan :: "'a scan \<Rightarrow> ('a \<Rightarrow> string \<Rightarrow> 'b scan) \<Rightarrow> 'b scan" where
  "bind_scan p f =
     (case p of Scanned v r \<Rightarrow> f v r | BadByte r \<Rightarrow> BadByte r | Truncated \<Rightarrow> Truncated | NoFuel \<Rightarrow> NoFuel)"

text \<open>Skip white space and look at the next byte.\<close>

definition next_byte :: "string \<Rightarrow> (char \<Rightarrow> string \<Rightarrow> 'a scan) \<Rightarrow> 'a scan" where
  "next_byte s f = (case skip_space s of [] \<Rightarrow> Truncated | c # cs \<Rightarrow> f c cs)"

fun parse_value :: "nat \<Rightarrow> nat \<Rightarrow> string \<Rightarrow> json scan"
  and parse_elements :: "nat \<Rightarrow> nat \<Rightarrow> string \<Rightarrow> json list scan"
  and parse_members :: "nat \<Rightarrow> nat \<Rightarrow> string \<Rightarrow> (string \<times> json) list scan" where
  "parse_value 0 d s = NoFuel"
| "parse_value (Suc n) d s =
     next_byte s (\<lambda>c cs.
       if c = CHR 0x7B then
         (if maxNestingDepth \<le> d then BadByte (c # cs)
          else next_byte cs (\<lambda>e es.
            if e = CHR 0x7D then Scanned (JObject []) es
            else bind_scan (parse_members n (Suc d) (e # es)) (\<lambda>ms r. Scanned (JObject ms) r)))
       else if c = CHR 0x5B then
         (if maxNestingDepth \<le> d then BadByte (c # cs)
          else next_byte cs (\<lambda>e es.
            if e = CHR 0x5D then Scanned (JArray []) es
            else bind_scan (parse_elements n (Suc d) (e # es)) (\<lambda>js r. Scanned (JArray js) r)))
       else if c = CHR 0x22 then
         bind_scan (scan_string [] InString cs) (\<lambda>raw r. Scanned (JString (unquote raw)) r)
       else if c = CHR ''-'' \<or> is_digit c then
         bind_scan (scan_number [c] (if c = CHR ''-'' then Neg else if c = CHR ''0'' then Zero else Digits) cs)
           (\<lambda>lit r. Scanned (JNumber lit) r)
       else if c = CHR ''t'' then bind_scan (scan_word ''rue'' cs) (\<lambda>_ r. Scanned (JBool True) r)
       else if c = CHR ''f'' then bind_scan (scan_word ''alse'' cs) (\<lambda>_ r. Scanned (JBool False) r)
       else if c = CHR ''n'' then bind_scan (scan_word ''ull'' cs) (\<lambda>_ r. Scanned JNull r)
       else BadByte (c # cs))"
| "parse_elements 0 d s = NoFuel"
| "parse_elements (Suc n) d s =
     bind_scan (parse_value n d s) (\<lambda>v r.
     next_byte r (\<lambda>e es.
       if e = CHR 0x5D then Scanned [v] es
       else if e = CHR '','' then bind_scan (parse_elements n d es) (\<lambda>vs r'. Scanned (v # vs) r')
       else BadByte (e # es)))"
| "parse_members 0 d s = NoFuel"
| "parse_members (Suc n) d s =
     next_byte s (\<lambda>q qs.
     if q \<noteq> CHR 0x22 then BadByte (q # qs)
     else
       bind_scan (scan_string [] InString qs) (\<lambda>raw r.
       next_byte r (\<lambda>k ks.
       if k \<noteq> CHR '':'' then BadByte (k # ks)
       else
         bind_scan (parse_value n d ks) (\<lambda>v r'.
         next_byte r' (\<lambda>e es.
         if e = CHR 0x7D then Scanned [(unquote raw, v)] es
         else if e = CHR '','' then
           bind_scan (parse_members n d es) (\<lambda>ms r''. Scanned ((unquote raw, v) # ms) r'')
         else BadByte (e # es))))))"

definition parse_json :: "string \<Rightarrow> json scan" where
  "parse_json s = parse_value (2 * length s + 1) 0 s"

subsection \<open>The fuel is enough\<close>

text \<open>A scan that ran to a verdict and, if it read a value, consumed some input.\<close>

definition shortens :: "'a scan \<Rightarrow> nat \<Rightarrow> bool" where
  "shortens p n \<longleftrightarrow> (case p of Scanned _ r \<Rightarrow> length r < n | NoFuel \<Rightarrow> False | _ \<Rightarrow> True)"

lemma shortens_simps [simp]:
  "shortens (Scanned v r) n \<longleftrightarrow> length r < n" "shortens (BadByte r) n"
  "shortens Truncated n" "\<not> shortens NoFuel n"
  by (simp_all add: shortens_def)

lemma shortens_mono: "shortens p m \<Longrightarrow> m \<le> n \<Longrightarrow> shortens p n"
  by (cases p) auto

lemma shortens_Suc: "shortens p n \<Longrightarrow> shortens p (Suc n)"
  by (erule shortens_mono) simp

lemma shortens_if:
  "(b \<Longrightarrow> shortens p n) \<Longrightarrow> (\<not> b \<Longrightarrow> shortens q n) \<Longrightarrow> shortens (if b then p else q) n"
  by simp

lemma shortens_bind:
  "shortens p m \<Longrightarrow> (\<And>v r. p = Scanned v r \<Longrightarrow> length r < m \<Longrightarrow> shortens (f v r) n) \<Longrightarrow>
     shortens (bind_scan p f) n"
  by (cases p) (auto simp: bind_scan_def)

lemma shortens_next:
  "(\<And>c cs. length cs < length s \<Longrightarrow> shortens (f c cs) n) \<Longrightarrow> shortens (next_byte s f) n"
proof (cases "skip_space s")
  case (Cons c cs)
  moreover have "length (skip_space s) \<le> length s" by (simp add: skip_space_def length_dropWhile_le)
  moreover assume "\<And>c cs. length cs < length s \<Longrightarrow> shortens (f c cs) n"
  ultimately show ?thesis by (simp add: next_byte_def)
qed (simp add: next_byte_def)

lemma shortens_string: "shortens (scan_string acc st cs) (Suc (length cs))"
proof (induction acc st cs rule: scan_string.induct)
  case (2 acc c cs)
  then show ?case unfolding scan_string.simps
    by (intro shortens_if) (simp_all add: shortens_Suc)
next
  case (3 acc c cs)
  show ?case unfolding scan_string.simps list.size add_0_right add_Suc_right
    by (intro shortens_if shortens_simps(2) shortens_Suc [of "scan_string _ _ _"] "3.IH"; assumption)
next
  case (4 acc n c cs)
  then show ?case unfolding scan_string.simps
    by (intro shortens_if) (simp_all add: shortens_Suc)
qed simp

lemma shortens_number: "shortens (scan_number acc st cs) (Suc (length cs))"
  by (induction acc st cs rule: scan_number.induct) (auto split: option.splits intro: shortens_Suc)

lemma shortens_word: "shortens (scan_word ws cs) (Suc (length cs))"
  by (induction ws cs rule: scan_word.induct) (auto intro: shortens_Suc)

lemma parse_shortens:
  "(2 * length s < n \<longrightarrow> shortens (parse_value n d s) (length s)) \<and>
   (2 * length s + 1 < n \<longrightarrow> shortens (parse_elements n d s) (length s)) \<and>
   (2 * length s + 1 < n \<longrightarrow> shortens (parse_members n d s) (length s))"
proof (induction n arbitrary: d s)
  case 0
  show ?case by simp
next
  case (Suc n)
  have v: "2 * length s < n \<Longrightarrow> shortens (parse_value n d s) (length s)"
    and e: "2 * length s + 1 < n \<Longrightarrow> shortens (parse_elements n d s) (length s)"
    and m: "2 * length s + 1 < n \<Longrightarrow> shortens (parse_members n d s) (length s)" for d s
    using Suc.IH by blast+
  note scans = shortens_bind [OF shortens_string] shortens_bind [OF shortens_number]
    shortens_bind [OF shortens_word] shortens_bind [OF v] shortens_bind [OF e] shortens_bind [OF m]
  have "shortens (parse_value (Suc n) d s) (length s)" if "2 * length s < Suc n"
    unfolding parse_value.simps using that
    by (intro shortens_next shortens_if scans) simp_all
  moreover have "shortens (parse_elements (Suc n) d s) (length s)" if "2 * length s + 1 < Suc n"
    unfolding parse_elements.simps using that
    by (intro shortens_next shortens_if scans) simp_all
  moreover have "shortens (parse_members (Suc n) d s) (length s)" if "2 * length s + 1 < Suc n"
    unfolding parse_members.simps using that
    by (intro shortens_next shortens_if scans) simp_all
  ultimately show ?case by blast
qed

lemma parse_json_verdict: "parse_json s \<noteq> NoFuel"
  using parse_shortens [of s "2 * length s + 1" 0] by (auto simp: parse_json_def)

end
