(* ===== verification/Decode.thy ===== *)
theory Decode
  imports Json
begin

text \<open>
  \<open>decodeJSONStrict\<close> (\<open>internal/orders/json.go\<close>; \<open>internal/platform/json.go\<close> exports the
  same code) and the two \<open>Decode...Request\<close> functions of \<open>validation.go\<close>, with the part
  of \<open>encoding/json\<close> that stores a value into the two request structs: exact then folded
  field names, \<open>null\<close> as a no-op, integer ranges, reuse of a slice's elements when a key is
  repeated, and unknown fields disallowed (\<open>strict\<close>).  The decoder keeps the first error it meets and
  the caller then drops the value, so stopping there gives the same result.
\<close>

section \<open>Reading the body\<close>

text \<open>What an \<open>io.Reader\<close> will deliver: some bytes, then \<open>io.EOF\<close> or an error.\<close>

record reader =
  rd_bytes :: string
  rd_error :: "string option"

text \<open>\<open>io.ReadAll(io.LimitReader(r, n))\<close>: the limit hides whatever comes after it.\<close>

definition read_limited :: "reader \<Rightarrow> int64 \<Rightarrow> string + string" where
  "read_limited r n =
     (if nat (sint n) \<le> length (rd_bytes r) then Inr (take (nat (sint n)) (rd_bytes r))
      else (case rd_error r of None \<Rightarrow> Inr (rd_bytes r) | Some t \<Rightarrow> Inl t))"

section \<open>Storing values into structs\<close>

text \<open>The errors of a \<open>Decode\<close>: \<open>io.EOF\<close>; a \<open>json.SyntaxError\<close> with its \<open>Offset\<close>;
  \<open>io.ErrUnexpectedEOF\<close>; a \<open>json.UnmarshalTypeError\<close>, with its \<open>Field\<close> or, when that is empty,
  with its \<open>Offset\<close>; any other error, with its text.\<close>

datatype decode_error =
    DecodeEOF
  | SyntaxError nat
  | UnexpectedEOF
  | FieldTypeError string
  | ValueTypeError nat
  | DecodeError string

definition type_error :: "string list \<Rightarrow> decode_error" where
  "type_error path = FieldTypeError (Join ''.'' path)"

definition unknownFieldPrefix :: string where
  "unknownFieldPrefix = ''json: unknown field ''"

definition unknown_field :: "string \<Rightarrow> decode_error" where
  "unknown_field key = DecodeError (unknownFieldPrefix @ go_quote key)"

text \<open>\<open>foldName\<close>: upper case for ASCII, and the two runes that fold to ASCII letters.\<close>

fun foldName :: "string \<Rightarrow> string" where
  "foldName [] = []"
| "foldName (c # cs) =
     (if c = CHR 0xC5 \<and> take 1 cs = [CHR 0xBF] then CHR ''S'' # foldName (drop 1 cs)
      else if c = CHR 0xE2 \<and> take 2 cs = [CHR 0x84, CHR 0xAA] then CHR ''K'' # foldName (drop 2 cs)
      else upper_byte c # foldName cs)"

text \<open>A struct type is a list of fields: the name of the tag and how its value is stored.\<close>

type_synonym 'a fields = "(string \<times> (string list \<Rightarrow> json \<Rightarrow> 'a \<Rightarrow> decode_error + 'a)) list"

definition find_field ::
    "'a fields \<Rightarrow> string \<Rightarrow> (string \<times> (string list \<Rightarrow> json \<Rightarrow> 'a \<Rightarrow> decode_error + 'a)) option" where
  "find_field fs key =
     (case find (\<lambda>f. fst f = key) fs of
        Some f \<Rightarrow> Some f
      | None \<Rightarrow> find (\<lambda>f. foldName (fst f) = foldName key) fs)"

fun store_members ::
    "bool \<Rightarrow> 'a fields \<Rightarrow> string list \<Rightarrow> (string \<times> json) list \<Rightarrow> 'a \<Rightarrow> decode_error + 'a" where
  "store_members strict fs path [] x = Inr x"
| "store_members strict fs path ((key, v) # ms) x =
     (case find_field fs key of
        None \<Rightarrow> if strict then Inl (unknown_field key) else store_members strict fs path ms x
      | Some (name, store) \<Rightarrow>
          (case store (path @ [name]) v x of
             Inl e \<Rightarrow> Inl e
           | Inr y \<Rightarrow> store_members strict fs path ms y))"

fun store_struct :: "bool \<Rightarrow> 'a fields \<Rightarrow> string list \<Rightarrow> json \<Rightarrow> 'a \<Rightarrow> decode_error + 'a" where
  "store_struct strict fs path (JObject ms) x = store_members strict fs path ms x"
| "store_struct strict fs path JNull x = Inr x"
| "store_struct strict fs path _ x = Inl (type_error path)"

fun store_string :: "string list \<Rightarrow> json \<Rightarrow> string \<Rightarrow> decode_error + string" where
  "store_string path (JString s) old = Inr s"
| "store_string path JNull old = Inr old"
| "store_string path _ old = Inl (type_error path)"

text \<open>\<open>strconv.ParseInt(literal, 10, 64)\<close> and \<open>OverflowInt\<close> for the field's width.\<close>

fun store_int :: "nat \<Rightarrow> string list \<Rightarrow> json \<Rightarrow> 'w::len word \<Rightarrow> decode_error + 'w word" where
  "store_int width path (JNumber lit) old =
     (case Atoi lit of
        Some v \<Rightarrow> if - (2 ^ (width - 1)) \<le> v \<and> v < 2 ^ (width - 1)
                  then Inr (word_of_int v) else Inl (type_error path)
      | None \<Rightarrow> Inl (type_error path))"
| "store_int width path JNull old = Inr old"
| "store_int width path _ old = Inl (type_error path)"

definition setting :: "('v \<Rightarrow> 'a) \<Rightarrow> decode_error + 'v \<Rightarrow> decode_error + 'a" where
  "setting f r = (case r of Inl e \<Rightarrow> Inl e | Inr v \<Rightarrow> Inr (f v))"

definition item_fields :: "CreateOrderItemRequest fields" where
  "item_fields =
     [(''product_id'', \<lambda>p v x. setting (\<lambda>s. x\<lparr>Item_ProductID := s\<rparr>) (store_string p v (Item_ProductID x))),
      (''sku'', \<lambda>p v x. setting (\<lambda>s. x\<lparr>Item_SKU := s\<rparr>) (store_string p v (Item_SKU x))),
      (''quantity'', \<lambda>p v x. setting (\<lambda>n. x\<lparr>Item_Quantity := n\<rparr>) (store_int 32 p v (Item_Quantity x))),
      (''unit_price_cents'',
         \<lambda>p v x. setting (\<lambda>n. x\<lparr>Item_UnitPriceCents := n\<rparr>) (store_int 64 p v (Item_UnitPriceCents x)))]"

definition zero_item :: CreateOrderItemRequest where
  "zero_item = \<lparr>Item_ProductID = [], Item_SKU = [], Item_Quantity = 0, Item_UnitPriceCents = 0\<rparr>"

text \<open>A slice with the elements of its backing array past its length: they come back into
  view, with their old contents, when a later value of the same key is longer.\<close>

record request_state =
  st_req :: CreateOrderRequest
  st_spare :: "CreateOrderItemRequest list"

fun store_elements ::
    "string list \<Rightarrow> json list \<Rightarrow> CreateOrderItemRequest list \<Rightarrow> decode_error + CreateOrderItemRequest list" where
  "store_elements path [] backing = Inr []"
| "store_elements path (j # js) backing =
     (case store_struct True item_fields path j (case backing of [] \<Rightarrow> zero_item | x # _ \<Rightarrow> x) of
        Inl e \<Rightarrow> Inl e
      | Inr y \<Rightarrow> setting (\<lambda>ys. y # ys) (store_elements path js (drop 1 backing)))"

fun store_items :: "string list \<Rightarrow> json \<Rightarrow> request_state \<Rightarrow> decode_error + request_state" where
  "store_items path (JArray js) st =
     setting (\<lambda>items.
        \<lparr>st_req = (st_req st)\<lparr>Req_Items := items\<rparr>,
         st_spare = (if js = [] then [] else drop (length js) (Req_Items (st_req st) @ st_spare st))\<rparr>)
       (store_elements path js (Req_Items (st_req st) @ st_spare st))"
| "store_items path JNull st = Inr \<lparr>st_req = (st_req st)\<lparr>Req_Items := []\<rparr>, st_spare = []\<rparr>"
| "store_items path _ st = Inl (type_error path)"

definition request_fields :: "request_state fields" where
  "request_fields =
     [(''idempotency_key'', \<lambda>p v st.
         setting (\<lambda>s. st\<lparr>st_req := (st_req st)\<lparr>Req_IdempotencyKey := s\<rparr>\<rparr>)
           (store_string p v (Req_IdempotencyKey (st_req st)))),
      (''currency'', \<lambda>p v st.
         setting (\<lambda>s. st\<lparr>st_req := (st_req st)\<lparr>Req_Currency := s\<rparr>\<rparr>)
           (store_string p v (Req_Currency (st_req st)))),
      (''items'', store_items)]"

definition status_fields :: "UpdateOrderStatusRequest fields" where
  "status_fields =
     [(''status'', \<lambda>p v x. setting (\<lambda>s. x\<lparr>UpdReq_Status := s\<rparr>) (store_string p v (UpdReq_Status x)))]"

section \<open>Strict decoding\<close>

text \<open>A body that is no object and not \<open>null\<close> has no field to name; the error gives the
  decoder's offset: after the bracket of an array, after a literal.\<close>

definition store_body :: "bool \<Rightarrow> 'a fields \<Rightarrow> string \<Rightarrow> string \<Rightarrow> json \<Rightarrow> 'a \<Rightarrow> decode_error + 'a" where
  "store_body strict fs payload rest v x =
     (case v of
        JObject ms \<Rightarrow> store_members strict fs [] ms x
      | JNull \<Rightarrow> Inr x
      | JArray _ \<Rightarrow> Inl (ValueTypeError (length payload - length (skip_space payload) + 1))
      | _ \<Rightarrow> Inl (ValueTypeError (length payload - length rest)))"

text \<open>\<open>decoder.Decode\<close> on a decoder of these bytes: what it stores, and the bytes after the value.\<close>

definition json_Decode :: "bool \<Rightarrow> 'a fields \<Rightarrow> string \<Rightarrow> 'a \<Rightarrow> decode_error + ('a \<times> string)" where
  "json_Decode strict fs payload dst =
     (case parse_json payload of
        Scanned v rest \<Rightarrow>
          (case store_body strict fs payload rest v dst of Inl e \<Rightarrow> Inl e | Inr x \<Rightarrow> Inr (x, rest))
      | BadByte rest \<Rightarrow> Inl (SyntaxError (length payload - length rest + 1))
      | _ \<Rightarrow> Inl (if skip_space payload = [] then DecodeEOF else UnexpectedEOF))"

definition normalizeJSONDecodeError :: "decode_error \<Rightarrow> go_error" where
  "normalizeJSONDecodeError err =
     (case err of
        DecodeEOF \<Rightarrow> Wrapped ErrMalformedJSON '': empty body''
      | SyntaxError n \<Rightarrow> Wrapped ErrMalformedJSON ('': syntax error at byte '' @ show_nat n)
      | UnexpectedEOF \<Rightarrow> Wrapped ErrMalformedJSON '': unexpected EOF''
      | FieldTypeError field \<Rightarrow> Wrapped ErrMalformedJSON ('': invalid value for field '' @ go_quote field)
      | ValueTypeError n \<Rightarrow> Wrapped ErrMalformedJSON ('': invalid value at byte '' @ show_nat n)
      | DecodeError t \<Rightarrow>
          if take (length unknownFieldPrefix) t = unknownFieldPrefix
          then Wrapped ErrUnknownJSONField ('' '' @ drop (length unknownFieldPrefix) t)
          else Wrapped ErrMalformedJSON ('': '' @ t))"

text \<open>The second \<open>Decode\<close> returns \<open>io.EOF\<close> exactly when only white space is left.\<close>

definition decodeJSONStrict :: "'a fields \<Rightarrow> reader \<Rightarrow> int64 \<Rightarrow> 'a \<Rightarrow> go_error + 'a" where
  "decodeJSONStrict fs r maxBytes dst =
     (case read_limited r (maxBytes + 1) of
        Inl t \<Rightarrow> Inl (OtherError (''read request body: '' @ t))
      | Inr payload \<Rightarrow>
          if int (length payload) > sint maxBytes then Inl (Sentinel ErrRequestBodyTooLarge)
          else
            (case json_Decode True fs payload dst of
               Inl err \<Rightarrow> Inl (normalizeJSONDecodeError err)
             | Inr (x, rest) \<Rightarrow>
                 if skip_space rest = [] then Inr x
                 else Inl (Wrapped ErrMalformedJSON '': multiple JSON values'')))"

text \<open>\<open>internal/platform/json.go\<close> exports the same function.\<close>

definition DecodeJSONStrict :: "'a fields \<Rightarrow> reader \<Rightarrow> int64 \<Rightarrow> 'a \<Rightarrow> go_error + 'a" where
  "DecodeJSONStrict = decodeJSONStrict"

definition DefaultRequestBodyLimit :: int64 where
  "DefaultRequestBodyLimit = push_bit 20 1"

definition zero_request :: CreateOrderRequest where
  "zero_request = \<lparr>Req_IdempotencyKey = [], Req_Currency = [], Req_Items = []\<rparr>"

definition DecodeCreateOrderRequest :: "reader \<Rightarrow> int64 \<Rightarrow> go_error + CreateOrderRequest" where
  "DecodeCreateOrderRequest body maxBytes =
     (case decodeJSONStrict request_fields body maxBytes \<lparr>st_req = zero_request, st_spare = []\<rparr> of
        Inl e \<Rightarrow> Inl e
      | Inr st \<Rightarrow>
          (case ValidateCreateOrderRequest (st_req st) of
             Inl e \<Rightarrow> Inl e
           | Inr _ \<Rightarrow> Inr (st_req st)))"

definition DecodeUpdateOrderStatusRequest :: "reader \<Rightarrow> int64 \<Rightarrow> go_error + UpdateOrderStatusRequest" where
  "DecodeUpdateOrderStatusRequest body maxBytes =
     (case decodeJSONStrict status_fields body maxBytes \<lparr>UpdReq_Status = []\<rparr> of
        Inl e \<Rightarrow> Inl e
      | Inr req \<Rightarrow>
          (case ValidateUpdateOrderStatusRequest req of
             Inl e \<Rightarrow> Inl e
           | Inr _ \<Rightarrow> Inr req))"

end
