(* ===== verification/GoTime.thy ===== *)
theory GoTime
  imports GoStrings "HOL-Library.Monad_Syntax"
begin

text \<open>
  The parts of Go's \<open>time\<close> package the program uses: \<open>t.UTC().Format(time.RFC3339Nano)\<close>
  and \<open>time.Parse(time.RFC3339Nano, s)\<close> of the list cursor (\<open>handler.go\<close>), and
  \<open>time.ParseDuration\<close> of \<open>config.go\<close>, with the overflow checks and the \<open>float64\<close>
  rounding of its fractions.  Instants and durations are nanoseconds.
\<close>

section \<open>The calendar\<close>

definition is_leap :: "int \<Rightarrow> bool" where
  "is_leap y \<longleftrightarrow> y mod 4 = 0 \<and> (y mod 100 \<noteq> 0 \<or> y mod 400 = 0)"

text \<open>Days from 1 January of year 0 to 1 January of year \<open>y\<close>.\<close>

definition days_before_year :: "int \<Rightarrow> int" where
  "days_before_year y = 365 * y + (y + 3) div 4 - (y + 99) div 100 + (y + 399) div 400"

definition days_before_month :: "bool \<Rightarrow> nat \<Rightarrow> int" where
  "days_before_month leap m =
     (if leap then [0, 31, 60, 91, 121, 152, 182, 213, 244, 274, 305, 335, 366] ! (m - 1)
      else [0, 31, 59, 90, 120, 151, 181, 212, 243, 273, 304, 334, 365] ! (m - 1))"

definition daysIn :: "nat \<Rightarrow> int \<Rightarrow> int" where
  "daysIn m y = days_before_month (is_leap y) (Suc m) - days_before_month (is_leap y) m"

definition unix_epoch_day :: int where
  "unix_epoch_day = 719528"

definition days_of_civil :: "int \<Rightarrow> nat \<Rightarrow> int \<Rightarrow> int" where
  "days_of_civil y m d =
     days_before_year y + days_before_month (is_leap y) m + (d - 1) - unix_epoch_day"

text \<open>The year of a day: the mean length of a year gives it up to one.\<close>

definition year_of_day :: "int \<Rightarrow> int" where
  "year_of_day d =
     (let y = d * 400 div 146097 in
      if d < days_before_year y then y - 1
      else if d < days_before_year (y + 1) then y else y + 1)"

definition month_of_yday :: "bool \<Rightarrow> int \<Rightarrow> nat" where
  "month_of_yday leap n = length (takeWhile (\<lambda>m. days_before_month leap m \<le> n)
       [1, 2, 3, 4, 5, 6, 7, 8, 9, 10, 11, 12])"

definition civil_of_days :: "int \<Rightarrow> int \<times> nat \<times> int" where
  "civil_of_days n =
     (let d = n + unix_epoch_day;
          y = year_of_day d;
          yd = d - days_before_year y;
          m = month_of_yday (is_leap y) yd
      in (y, m, yd - days_before_month (is_leap y) m + 1))"

lemma div_step:
  fixes y k :: int
  assumes "0 < k"
  shows "(y + 1 + (k - 1)) div k = (y + (k - 1)) div k + (if y mod k = 0 then 1 else 0)"
proof -
  have y: "y = k * (y div k) + y mod k" by simp
  have m: "0 \<le> y mod k" "y mod k < k" using assms by simp_all
  have "(y + (k - 1)) div k = (y mod k + (k - 1)) div k + y div k"
    using div_mult_self2 [of k "y mod k + (k - 1)" "y div k"] assms y by (simp add: algebra_simps)
  moreover have "(y mod k + (k - 1)) div k = (if y mod k = 0 then 0 else 1)"
  proof (cases "y mod k = 0")
    case True
    then show ?thesis using assms by simp
  next
    case False
    have "(y mod k + (k - 1)) div k = ((y mod k - 1) + k) div k" by (simp add: algebra_simps)
    also have "\<dots> = (y mod k - 1) div k + 1" using assms by (intro div_add_self2) simp
    finally have "(y mod k + (k - 1)) div k = (y mod k - 1) div k + 1" .
    moreover have "(y mod k - 1) div k = 0" using m False by (intro div_pos_pos_trivial) linarith+
    ultimately show ?thesis using False by simp
  qed
  moreover have "(y + k) div k = y div k + 1" using assms by (intro div_add_self2) simp
  moreover have "y + 1 + (k - 1) = y + k" by simp
  ultimately show ?thesis by simp
qed

lemma days_before_year_step:
  "days_before_year (y + 1) = days_before_year y + (if is_leap y then 366 else 365)"
proof -
  define p q r where "p = (y mod 4 = 0)" and "q = (y mod 100 = 0)" and "r = (y mod 400 = 0)"
  have "(y + 1 + 3) div 4 = (y + 3) div 4 + of_bool p"
    using div_step [of 4 y] by (simp add: p_def)
  moreover have "(y + 1 + 99) div 100 = (y + 99) div 100 + of_bool q"
    using div_step [of 100 y] by (simp add: q_def)
  moreover have "(y + 1 + 399) div 400 = (y + 399) div 400 + of_bool r"
    using div_step [of 400 y] by (simp add: r_def)
  ultimately have "days_before_year (y + 1) = days_before_year y + 365 + of_bool p - of_bool q + of_bool r"
    unfolding days_before_year_def by (simp only: distrib_left)
  moreover have "r \<longrightarrow> q" "q \<longrightarrow> p"
    using mod_mod_cancel [of 100 400 y] mod_mod_cancel [of 4 100 y] by (auto simp: p_def q_def r_def)
  ultimately show ?thesis
    unfolding is_leap_def p_def [symmetric] q_def [symmetric] r_def [symmetric]
    by (cases p; cases q; cases r) simp_all
qed

lemma ceil_div_bounds:
  fixes z k :: int
  assumes "0 < k"
  shows "z \<le> k * ((z + (k - 1)) div k)" "k * ((z + (k - 1)) div k) \<le> z + (k - 1)"
  using pos_mod_bound [OF assms, of "z + (k - 1)"] pos_mod_sign [OF assms, of "z + (k - 1)"]
    mult_div_mod_eq [of k "z + (k - 1)"] by linarith+

lemma year_of_day_bounds:
  "days_before_year (year_of_day d) \<le> d" "d < days_before_year (year_of_day d + 1)"
proof -
  define y where "y = d * 400 div 146097"
  have y: "146097 * y \<le> d * 400" "d * 400 < 146097 * y + 146097"
    using pos_mod_bound [of 146097 "d * 400"] pos_mod_sign [of 146097 "d * 400"]
      div_mult_mod_eq [of "d * 400" 146097] unfolding y_def by linarith+
  have bounds: "400 * days_before_year z \<le> 146097 * z + 699"
    "146097 * z - 396 \<le> 400 * days_before_year z" for z
  proof -
    define a b c where "a = (z + 3) div 4" and "b = (z + 99) div 100" and "c = (z + 399) div 400"
    with ceil_div_bounds [of 4 z] ceil_div_bounds [of 100 z] ceil_div_bounds [of 400 z]
    have "z \<le> 4 * a" "4 * a \<le> z + 3" "z \<le> 100 * b" "100 * b \<le> z + 99" "z \<le> 400 * c"
      "400 * c \<le> z + 399" by simp_all
    moreover have "days_before_year z = 365 * z + a - b + c"
      by (simp add: days_before_year_def a_def b_def c_def)
    ultimately show "400 * days_before_year z \<le> 146097 * z + 699"
      "146097 * z - 396 \<le> 400 * days_before_year z" by linarith+
  qed
  have "days_before_year (y - 1) \<le> d" "d < days_before_year (y + 2)"
    using y bounds(1) [of "y - 1"] bounds(2) [of "y + 2"] by (simp_all add: algebra_simps)
  then show "days_before_year (year_of_day d) \<le> d" "d < days_before_year (year_of_day d + 1)"
    unfolding year_of_day_def y_def [symmetric] Let_def by (auto simp: add.commute)
qed

lemma month_of_yday_bounds:
  assumes "0 \<le> n" and "n < (if leap then 366 else 365)"
  shows "1 \<le> month_of_yday leap n" "month_of_yday leap n \<le> 12"
    "days_before_month leap (month_of_yday leap n) \<le> n"
    "n < days_before_month leap (Suc (month_of_yday leap n))"
  using assms by (cases leap; auto simp: month_of_yday_def days_before_month_def)+

lemma civil_of_days_civil:
  assumes "civil_of_days n = (y, m, d)"
  shows "days_of_civil y m d = n" "1 \<le> m" "m \<le> 12" "1 \<le> d" "d \<le> daysIn m y"
proof -
  let ?d = "n + unix_epoch_day"
  let ?yd = "?d - days_before_year (year_of_day ?d)"
  have yd: "0 \<le> ?yd" "?yd < (if is_leap (year_of_day ?d) then 366 else 365)"
    using year_of_day_bounds [of ?d] days_before_year_step [of "year_of_day ?d"] by auto
  have eq: "y = year_of_day ?d" "m = month_of_yday (is_leap y) ?yd"
    "d = ?yd - days_before_month (is_leap y) m + 1"
    using assms by (auto simp: civil_of_days_def Let_def)
  from month_of_yday_bounds [OF yd] eq
  show "1 \<le> m" "m \<le> 12" "1 \<le> d" "d \<le> daysIn m y" by (auto simp: daysIn_def)
  from eq show "days_of_civil y m d = n" by (simp add: days_of_civil_def)
qed

section \<open>RFC 3339 with nanoseconds\<close>

definition pad :: "nat \<Rightarrow> int \<Rightarrow> string" where
  "pad w n = (let s = show_dec n in replicate (w - length s) CHR ''0'' @ s)"

definition show_year :: "int \<Rightarrow> string" where
  "show_year y = (if y < 0 then CHR ''-'' # pad 4 (- y) else pad 4 y)"

text \<open>The fraction \<open>.999999999\<close>: up to nine digits, trailing zeros and an empty fraction dropped.\<close>

definition drop_zeros :: "string \<Rightarrow> string" where
  "drop_zeros s = rev (dropWhile (\<lambda>c. c = CHR ''0'') (rev s))"

definition show_frac :: "int \<Rightarrow> string" where
  "show_frac ns = (if ns = 0 then [] else CHR ''.'' # drop_zeros (pad 9 ns))"

definition day_ns :: int where "day_ns = 86400 * 10 ^ 9"

text \<open>\<open>t.UTC().Format(time.RFC3339Nano)\<close>.\<close>

definition Format_RFC3339Nano :: "int \<Rightarrow> string" where
  "Format_RFC3339Nano t =
     (let (y, m, d) = civil_of_days (t div day_ns);
          ns = t mod day_ns;
          sec = ns div 10 ^ 9
      in show_year y @ ''-'' @ pad 2 (int m) @ ''-'' @ pad 2 d @ ''T'' @
         pad 2 (sec div 3600) @ '':'' @ pad 2 (sec div 60 mod 60) @ '':'' @ pad 2 (sec mod 60) @
         show_frac (ns mod 10 ^ 9) @ ''Z'')"

text \<open>The readers of \<open>time.Parse\<close>: a literal, one or two digits, a four-digit year, a fraction
  introduced by a period or a comma, and a zone.\<close>

fun skip :: "char \<Rightarrow> string \<Rightarrow> string option" where
  "skip c (x # xs) = (if x = c then Some xs else None)"
| "skip c [] = None"

fun getnum :: "bool \<Rightarrow> string \<Rightarrow> (int \<times> string) option" where
  "getnum fixed [] = None"
| "getnum fixed [c] = (if is_digit c \<and> \<not> fixed then Some (dec_int [c], []) else None)"
| "getnum fixed (c # d # cs) =
     (if \<not> is_digit c then None
      else if is_digit d then Some (dec_int [c, d], cs)
      else if fixed then None else Some (dec_int [c], d # cs))"

definition get_year :: "string \<Rightarrow> (int \<times> string) option" where
  "get_year s =
     (if 4 \<le> length s \<and> list_all is_digit (take 4 s) then Some (dec_int (take 4 s), drop 4 s) else None)"

definition get_frac :: "string \<Rightarrow> int \<times> string" where
  "get_frac s =
     (case s of
        c # d # cs \<Rightarrow>
          if (c = CHR ''.'' \<or> c = CHR '','') \<and> is_digit d
          then (let ds = takeWhile is_digit (d # cs);
                    used = take 9 ds
                in (dec_int used * 10 ^ (9 - length used), drop (length ds) (d # cs)))
          else (0, s)
      | _ \<Rightarrow> (0, s))"

text \<open>The offset in seconds.  \<open>time.Parse\<close> admits 24 hours and 60 minutes here.\<close>

definition get_zone :: "string \<Rightarrow> (int \<times> string) option" where
  "get_zone s =
     (case s of
        [] \<Rightarrow> None
      | c # cs \<Rightarrow>
          if c = CHR ''Z'' then Some (0, cs)
          else if length s < 6 \<or> s ! 3 \<noteq> CHR '':'' then None
          else (case (getnum True (take 2 cs), getnum True (take 2 (drop 3 cs))) of
                  (Some (h, _), Some (m, _)) \<Rightarrow>
                    if 24 < h \<or> 60 < m then None
                    else if c = CHR ''+'' then Some ((h * 60 + m) * 60, drop 6 s)
                    else if c = CHR ''-'' then Some (- ((h * 60 + m) * 60), drop 6 s)
                    else None
                | _ \<Rightarrow> None))"

definition guard :: "bool \<Rightarrow> unit option" where
  "guard b = (if b then Some () else None)"

definition Parse_RFC3339Nano :: "string \<Rightarrow> int option" where
  "Parse_RFC3339Nano s = do {
     (y, s) \<leftarrow> get_year s;
     s \<leftarrow> skip CHR ''-'' s;
     (m, s) \<leftarrow> getnum True s;
     _ \<leftarrow> guard (1 \<le> m \<and> m \<le> 12);
     s \<leftarrow> skip CHR ''-'' s;
     (d, s) \<leftarrow> getnum True s;
     s \<leftarrow> skip CHR ''T'' s;
     (hh, s) \<leftarrow> getnum False s;
     _ \<leftarrow> guard (hh < 24);
     s \<leftarrow> skip CHR '':'' s;
     (mm, s) \<leftarrow> getnum True s;
     _ \<leftarrow> guard (mm < 60);
     s \<leftarrow> skip CHR '':'' s;
     (ss, s) \<leftarrow> getnum True s;
     _ \<leftarrow> guard (ss < 60);
     let (ns, s) = get_frac s;
     (off, s) \<leftarrow> get_zone s;
     _ \<leftarrow> guard (s = [] \<and> 1 \<le> d \<and> d \<le> daysIn (nat m) y);
     Some (days_of_civil y (nat m) d * day_ns + (hh * 3600 + mm * 60 + ss - off) * 10 ^ 9 + ns)
   }"

section \<open>Durations\<close>

text \<open>\<open>float64\<close> arithmetic on positive values: a float is \<open>(m, e)\<close>, the number
  \<open>m * 2 ^ e\<close>; \<open>f64 n d\<close> rounds the fraction \<open>n / d\<close> to 53 bits, ties to even.\<close>

function bits :: "int \<Rightarrow> nat" where
  "bits n = (if n \<le> 0 then 0 else Suc (bits (n div 2)))"
  by pat_completeness auto
termination
  by (relation "measure nat") auto

declare bits.simps [simp del]

definition round_even :: "int \<Rightarrow> int \<Rightarrow> int" where
  "round_even n d =
     (let q = n div d; r = n mod d in
      if 2 * r < d \<or> 2 * r = d \<and> even q then q else q + 1)"

definition f64 :: "int \<Rightarrow> int \<Rightarrow> int \<times> int" where
  "f64 n d =
     (let k = int (bits n) - int (bits d) - 53;
          e = (if n * 2 ^ nat (- k) < d * 2 ^ nat k * 2 ^ 52 then k - 1
               else if n * 2 ^ nat (- k) \<ge> d * 2 ^ nat k * 2 ^ 53 then k + 1 else k)
      in (round_even (n * 2 ^ nat (- e)) (d * 2 ^ nat e), e))"

definition f64_mul :: "int \<times> int \<Rightarrow> int \<times> int \<Rightarrow> int \<times> int" where
  "f64_mul x y =
     (let (m, e) = f64 (fst x * fst y) 1 in (m, e + snd x + snd y))"

definition f64_trunc :: "int \<times> int \<Rightarrow> int" where
  "f64_trunc x = (if 0 \<le> snd x then fst x * 2 ^ nat (snd x) else fst x div 2 ^ nat (- snd x))"

text \<open>\<open>unitMap\<close>; the micro sign is U+00B5 or U+03BC.\<close>

definition unitMap :: "string \<Rightarrow> int option" where
  "unitMap u =
     (if u = ''ns'' then Some 1
      else if u \<in> set [''us'', [CHR 0xC2, CHR 0xB5, CHR ''s''], [CHR 0xCE, CHR 0xBC, CHR ''s'']]
      then Some (10 ^ 3)
      else if u = ''ms'' then Some (10 ^ 6)
      else if u = ''s'' then Some (10 ^ 9)
      else if u = ''m'' then Some (60 * 10 ^ 9)
      else if u = ''h'' then Some (3600 * 10 ^ 9)
      else None)"

text \<open>\<open>leadingFraction\<close>: digits past the precision of \<open>int64\<close> are read and ignored.\<close>

fun leadingFraction :: "bool \<Rightarrow> int \<Rightarrow> int \<Rightarrow> string \<Rightarrow> int \<times> int" where
  "leadingFraction over f scale [] = (f, scale)"
| "leadingFraction over f scale (c # cs) =
     (let y = f * 10 + (of_char c - 48) in
      if over \<or> (2 ^ 63 - 1) div 10 < f \<or> 2 ^ 63 < y then leadingFraction True f scale cs
      else leadingFraction False y (scale * 10) cs)"

text \<open>One \<open>number unit\<close> group, and the sum of the groups in \<open>uint64\<close>.\<close>

definition duration_group :: "string \<Rightarrow> (int \<times> string) option" where
  "duration_group s =
     (let ds = takeWhile is_digit s; s1 = dropWhile is_digit s;
          dot = (s1 \<noteq> [] \<and> hd s1 = CHR ''.'');
          s2 = (if dot then tl s1 else s1);
          fs = (if dot then takeWhile is_digit s2 else []);
          s3 = drop (length fs) s2;
          u = takeWhile (\<lambda>c. c \<noteq> CHR ''.'' \<and> \<not> is_digit c) s3
      in if ds = [] \<and> fs = [] \<or> 2 ^ 63 < dec_int ds \<or> u = [] then None
         else
           (case unitMap u of
              None \<Rightarrow> None
            | Some unit \<Rightarrow>
                (let (f, scale) = leadingFraction False 0 1 fs;
                     v = dec_int ds * unit +
                         (if 0 < f then f64_trunc (f64_mul (f64 f 1) (f64 unit scale)) else 0)
                 in if 2 ^ 63 div unit < dec_int ds \<or> 2 ^ 63 < v then None
                    else Some (v, drop (length u) s3))))"

lemma unit_shorter:
  assumes "takeWhile P xs \<noteq> []" and "length xs \<le> n"
  shows "length (drop (length (takeWhile P xs)) xs) < n"
proof -
  have "0 < length (takeWhile P xs)" "length (takeWhile P xs) \<le> length xs"
    using assms(1) length_takeWhile_le by auto
  then have "length xs - length (takeWhile P xs) < length xs" by linarith
  with assms(2) show ?thesis by (simp only: length_drop)
qed

lemma length_drop_le: "length (drop n xs) \<le> length xs"
  by simp

lemma duration_group_shorter:
  assumes "duration_group s = Some (v, r)"
  shows "length r < length s"
proof -
  have "length (tl (dropWhile is_digit s)) \<le> length s" "length (dropWhile is_digit s) \<le> length s"
    using length_dropWhile_le [of is_digit s] by simp_all
  with assms show ?thesis
    by (auto simp: duration_group_def Let_def simp del: length_drop drop_drop length_tl
        intro!: unit_shorter le_trans [OF length_drop_le] split: if_splits option.splits prod.splits)
qed

function duration_sum :: "int \<Rightarrow> string \<Rightarrow> int option" where
  "duration_sum d s =
     (if s = [] then Some d
      else (case duration_group s of
              None \<Rightarrow> None
            | Some (v, r) \<Rightarrow>
                (let d' = (d + v) mod 2 ^ 64 in
                 if 2 ^ 63 < d' then None else duration_sum d' r)))"
  by pat_completeness auto
termination
  by (relation "measure (\<lambda>(_, s). length s)") (auto dest: duration_group_shorter)

declare duration_sum.simps [simp del]

definition ParseDuration :: "string \<Rightarrow> int option" where
  "ParseDuration s =
     (let signed = (s \<noteq> [] \<and> (hd s = CHR ''-'' \<or> hd s = CHR ''+''));
          neg = (signed \<and> hd s = CHR ''-'');
          body = (if signed then tl s else s)
      in if body = ''0'' then Some 0
         else if body = [] then None
         else (case duration_sum 0 body of
                 None \<Rightarrow> None
               | Some d \<Rightarrow> if neg then Some (- d)
                           else if 2 ^ 63 - 1 < d then None else Some d))"

end
