(* ===== verification/Http.thy ===== *)
theory Http
  imports Decode NetIP GoTime
begin

text \<open>
  What the program uses of \<open>net/http\<close>, \<open>net/url\<close> and \<open>encoding/base64\<close>: headers, the
  query string, URLs, the opaque cursor's encoding, and responses.  A handler takes a
  request and the state and returns the response with the state it leaves.
\<close>

section \<open>Headers\<close>

text \<open>An \<open>http.Header\<close> as the server builds it: canonical names to their values.\<close>

type_synonym header = "string \<rightharpoonup> string list"

definition lower_byte :: "char \<Rightarrow> char" where
  "lower_byte c = (if 65 \<le> byte c \<and> byte c \<le> 90 then char_of (byte c + 32) else c)"

definition is_token_byte :: "char \<Rightarrow> bool" where
  "is_token_byte c \<longleftrightarrow>
     is_digit c \<or> 65 \<le> byte c \<and> byte c \<le> 90 \<or> 97 \<le> byte c \<and> byte c \<le> 122 \<or>
     c \<in> set ''!#$%&*+-.^_`|~'' \<or> c = CHR 0x27"

fun canonical :: "bool \<Rightarrow> string \<Rightarrow> string" where
  "canonical up [] = []"
| "canonical up (c # cs) = (if up then upper_byte c else lower_byte c) # canonical (c = CHR ''-'') cs"

definition CanonicalHeaderKey :: "string \<Rightarrow> string" where
  "CanonicalHeaderKey s = (if list_all is_token_byte s then canonical True s else s)"

definition Header_Get :: "header \<Rightarrow> string \<Rightarrow> string" where
  "Header_Get h key =
     (case h (CanonicalHeaderKey key) of Some (v # _) \<Rightarrow> v | _ \<Rightarrow> [])"

section \<open>Escapes\<close>

datatype escape_mode = EncodePath | EncodeQuery | EncodeHost | EncodeZone | EncodeFragment | EncodeUser

text \<open>\<open>shouldEscape\<close> for host and zone.\<close>

definition host_byte :: "char \<Rightarrow> bool" where
  "host_byte c \<longleftrightarrow>
     is_digit c \<or> 65 \<le> byte c \<and> byte c \<le> 90 \<or> 97 \<le> byte c \<and> byte c \<le> 122 \<or>
     c \<in> set ''-_.~!$&()*+,;=:[]<>'' \<or> c = CHR 0x27 \<or> c = CHR 0x22"

definition escape_ok :: "escape_mode \<Rightarrow> char \<Rightarrow> char \<Rightarrow> bool" where
  "escape_ok mode h l =
     (let v = hex_val h * 16 + hex_val l in
      is_hex h \<and> is_hex l \<and>
      (mode = EncodeHost \<longrightarrow> 8 \<le> hex_val h \<or> [h, l] = ''25'') \<and>
      (mode = EncodeZone \<longrightarrow> [h, l] = ''25'' \<or> v = 32 \<or> host_byte (char_of v)))"

fun unescape_url :: "escape_mode \<Rightarrow> string \<Rightarrow> string option" where
  "unescape_url mode [] = Some []"
| "unescape_url mode (c # cs) =
     (if c = CHR ''%'' then
        (case cs of
           h # l # ds \<Rightarrow>
             if escape_ok mode h l
             then map_option (\<lambda>r. char_of (hex_val h * 16 + hex_val l) # r) (unescape_url mode ds)
             else None
         | _ \<Rightarrow> None)
      else if (mode = EncodeHost \<or> mode = EncodeZone) \<and> byte c < 128 \<and> \<not> host_byte c then None
      else map_option
             (\<lambda>r. (if c = CHR ''+'' \<and> mode = EncodeQuery then CHR '' '' else c) # r)
             (unescape_url mode cs))"

section \<open>The query string\<close>

text \<open>\<open>strings.Cut\<close> on a one-byte separator.\<close>

definition cut :: "char \<Rightarrow> string \<Rightarrow> string \<times> string" where
  "cut c s = (takeWhile (\<lambda>x. x \<noteq> c) s, drop 1 (dropWhile (\<lambda>x. x \<noteq> c) s))"

text \<open>\<open>url.ParseQuery\<close>, as \<open>URL.Query\<close> uses it: malformed pairs are dropped, and a query of
  more than 10000 pairs (\<open>urlmaxqueryparams\<close>) gives no values.\<close>

definition parse_pair :: "string \<Rightarrow> (string \<times> string) option" where
  "parse_pair p =
     (if p = [] \<or> CHR '';'' \<in> set p then None
      else
        (case (unescape_url EncodeQuery (fst (cut CHR ''='' p)),
               unescape_url EncodeQuery (snd (cut CHR ''='' p))) of
           (Some k, Some v) \<Rightarrow> Some (k, v)
         | _ \<Rightarrow> None))"

definition ParseQuery :: "string \<Rightarrow> (string \<times> string) list" where
  "ParseQuery q =
     (let ps = Split CHR ''&'' q in
      if 10000 < length ps then [] else List.map_filter parse_pair ps)"

text \<open>\<open>r.URL.Query().Get(key)\<close>: the first value, or the empty string.\<close>

definition Query_Get :: "string \<Rightarrow> string \<Rightarrow> string" where
  "Query_Get q key = (case map_of (ParseQuery q) key of None \<Rightarrow> [] | Some v \<Rightarrow> v)"

section \<open>URLs\<close>

text \<open>\<open>getScheme\<close>: \<open>None\<close> for a missing scheme before a colon.\<close>

fun scheme_from :: "string \<Rightarrow> string \<Rightarrow> string \<Rightarrow> (string \<times> string) option" where
  "scheme_from raw acc [] = Some ([], raw)"
| "scheme_from raw acc (c # cs) =
     (if 65 \<le> byte c \<and> byte c \<le> 90 \<or> 97 \<le> byte c \<and> byte c \<le> 122
      then scheme_from raw (lower_byte c # acc) cs
      else if is_digit c \<or> c \<in> set ''+-.''
      then (if acc = [] then Some ([], raw) else scheme_from raw (c # acc) cs)
      else if c = CHR '':'' then (if acc = [] then None else Some (rev acc, cs))
      else Some ([], raw))"

text \<open>The last occurrence of a byte splits a string: what precedes it and what follows.\<close>

definition cut_last :: "char \<Rightarrow> string \<Rightarrow> (string \<times> string) option" where
  "cut_last c s =
     (if c \<in> set s then Some (rev (snd (cut c (rev s))), rev (fst (cut c (rev s)))) else None)"

definition validOptionalPort :: "string \<Rightarrow> bool" where
  "validOptionalPort p \<longleftrightarrow> p = [] \<or> hd p = CHR '':'' \<and> list_all is_digit (tl p)"

fun find_zone :: "string \<Rightarrow> string \<times> string" where
  "find_zone [] = ([], [])"
| "find_zone (c # cs) =
     (if take 3 (c # cs) = ''%25'' then ([], c # cs)
      else (let (a, b) = find_zone cs in (c # a, b)))"

text \<open>The name inside brackets must be an IPv6 address.\<close>

definition bracket_host :: "string \<Rightarrow> string option" where
  "bracket_host name = do {
     let (h, z) = find_zone name;
     h \<leftarrow> unescape_url EncodeHost h;
     z \<leftarrow> unescape_url EncodeZone z;
     addr \<leftarrow> ParseAddr (h @ z);
     (case addr of V4 _ \<Rightarrow> None | V6 _ _ \<Rightarrow> Some (h @ z))
   }"

text \<open>A bracketed host stands alone before its port; any other host has one colon at most.\<close>

definition parseHost :: "string \<Rightarrow> string option" where
  "parseHost host =
     (case cut_last CHR ''['' host of
        Some (before, after) \<Rightarrow>
          (case cut_last CHR '']'' after of
             None \<Rightarrow> None
           | Some (name, port) \<Rightarrow>
               if before \<noteq> [] \<or> \<not> validOptionalPort port then None
               else map_option (\<lambda>h. ''['' @ h @ '']'' @ port) (bracket_host name))
      | None \<Rightarrow>
          if list_all is_digit (snd (cut CHR '':'' host)) then unescape_url EncodeHost host else None)"

definition user_byte :: "char \<Rightarrow> bool" where
  "user_byte c \<longleftrightarrow>
     is_digit c \<or> 65 \<le> byte c \<and> byte c \<le> 90 \<or> 97 \<le> byte c \<and> byte c \<le> 122 \<or>
     c \<in> set ''-._:~!$&()*+,;=%@'' \<or> c = CHR 0x27"

definition parseAuthority :: "string \<Rightarrow> string option" where
  "parseAuthority a =
     (case cut_last CHR ''@'' a of
        None \<Rightarrow> parseHost a
      | Some (user, host) \<Rightarrow>
          if list_all user_byte user \<and> unescape_url EncodeUser user \<noteq> None then parseHost host else None)"

text \<open>\<open>url.Parse\<close>, as far as the program looks: the scheme in lower case and the host.\<close>

definition parse_path :: "string \<Rightarrow> string \<Rightarrow> string \<Rightarrow> (string \<times> string) option" where
  "parse_path sch host path = map_option (\<lambda>_. (sch, host)) (unescape_url EncodePath path)"

definition url_Parse :: "string \<Rightarrow> (string \<times> string) option" where
  "url_Parse raw =
     (let (u, frag) = cut CHR ''#'' raw in
      if list_ex (\<lambda>c. byte c < 32 \<or> byte c = 127) u then None
      else if unescape_url EncodeFragment frag = None then None
      else if u = ''*'' then Some ([], [])
      else
        (case scheme_from u [] u of
           None \<Rightarrow> None
         | Some (sch, after) \<Rightarrow>
             (let rest = fst (cut CHR ''?'' after);
                  slash = take 1 rest = ''/''
              in if \<not> slash \<and> sch \<noteq> [] then Some (sch, [])
                 else if \<not> slash \<and> CHR '':'' \<in> set (fst (cut CHR ''/'' rest)) then None
                 else if take 2 rest = ''//'' \<and> (sch \<noteq> [] \<or> take 3 rest \<noteq> ''///'') then
                   (case parseAuthority (fst (cut CHR ''/'' (drop 2 rest))) of
                      None \<Rightarrow> None
                    | Some host \<Rightarrow>
                        parse_path sch host (dropWhile (\<lambda>c. c \<noteq> CHR ''/'') (drop 2 rest)))
                 else parse_path sch [] rest)))"

section \<open>Base 64\<close>

text \<open>\<open>base64.RawURLEncoding\<close>: the URL alphabet, no padding.\<close>

definition b64_digit :: "nat \<Rightarrow> char" where
  "b64_digit n =
     (if n < 26 then char_of (65 + n) else if n < 52 then char_of (71 + n)
      else if n < 62 then char_of (n - 4) else if n = 62 then CHR ''-'' else CHR ''_'')"

definition b64_value :: "char \<Rightarrow> nat option" where
  "b64_value c =
     (if 65 \<le> byte c \<and> byte c \<le> 90 then Some (byte c - 65)
      else if 97 \<le> byte c \<and> byte c \<le> 122 then Some (byte c - 71)
      else if is_digit c then Some (byte c + 4)
      else if c = CHR ''-'' then Some 62 else if c = CHR ''_'' then Some 63 else None)"

fun b64_encode :: "string \<Rightarrow> string" where
  "b64_encode [] = []"
| "b64_encode [a] = [b64_digit (byte a div 4), b64_digit (byte a mod 4 * 16)]"
| "b64_encode [a, b] =
     [b64_digit (byte a div 4), b64_digit (byte a mod 4 * 16 + byte b div 16),
      b64_digit (byte b mod 16 * 4)]"
| "b64_encode (a # b # c # cs) =
     b64_digit (byte a div 4) # b64_digit (byte a mod 4 * 16 + byte b div 16) #
     b64_digit (byte b mod 16 * 4 + byte c div 64) # b64_digit (byte c mod 64) # b64_encode cs"

fun b64_bytes :: "nat list \<Rightarrow> string option" where
  "b64_bytes [] = Some []"
| "b64_bytes [a] = None"
| "b64_bytes [a, b] = Some [char_of (a * 4 + b div 16)]"
| "b64_bytes [a, b, c] = Some [char_of (a * 4 + b div 16), char_of (b mod 16 * 16 + c div 4)]"
| "b64_bytes (a # b # c # d # ds) =
     map_option
       (\<lambda>r. char_of (a * 4 + b div 16) # char_of (b mod 16 * 16 + c div 4) #
            char_of (c mod 4 * 64 + d) # r)
       (b64_bytes ds)"

text \<open>Line ends are skipped wherever they occur.\<close>

definition b64_decode :: "string \<Rightarrow> string option" where
  "b64_decode s =
     (case parse_all b64_value (filter (\<lambda>c. c \<noteq> CHR 0x0A \<and> c \<noteq> CHR 0x0D) s) of
        None \<Rightarrow> None | Some ns \<Rightarrow> b64_bytes ns)"

section \<open>Responses\<close>

text \<open>The response structs of \<open>internal/orders/handler.go\<close>; a time is an instant.\<close>

record errorBody =
  Err_Code :: string
  Err_Message :: string

record orderItemResponse =
  ItemRes_ProductID :: string
  ItemRes_SKU :: string
  ItemRes_Quantity :: int32
  ItemRes_UnitPriceCents :: int64

record orderResponse =
  Res_ID :: string
  Res_CustomerID :: string
  Res_Status :: string
  Res_Currency :: string
  Res_TotalCents :: int64
  Res_Items :: "orderItemResponse list"
  Res_CreatedAt :: time
  Res_UpdatedAt :: time

record orderListResponse =
  List_Orders :: "orderResponse list"
  List_NextCursor :: "string option"

text \<open>A response body is text or the value handed to the JSON encoder; the \<open>errorResponse\<close> of
  \<open>handler.go\<close> and the map of \<open>middleware.go\<close> are the same JSON object.\<close>

datatype body =
    TextBody string
  | ErrorResponse errorBody
  | OrderResponse orderResponse
  | OrderListResponse orderListResponse

record http_response =
  resp_status :: nat
  resp_content_type :: string
  resp_body :: body

definition StatusOK :: nat where "StatusOK = 200"
definition StatusCreated :: nat where "StatusCreated = 201"
definition StatusBadRequest :: nat where "StatusBadRequest = 400"
definition StatusUnauthorized :: nat where "StatusUnauthorized = 401"
definition StatusForbidden :: nat where "StatusForbidden = 403"
definition StatusNotFound :: nat where "StatusNotFound = 404"
definition StatusMethodNotAllowed :: nat where "StatusMethodNotAllowed = 405"
definition StatusConflict :: nat where "StatusConflict = 409"
definition StatusInternalServerError :: nat where "StatusInternalServerError = 500"

lemmas http_status_defs = StatusOK_def StatusCreated_def StatusBadRequest_def
  StatusUnauthorized_def StatusForbidden_def StatusNotFound_def StatusMethodNotAllowed_def
  StatusConflict_def StatusInternalServerError_def

definition StatusText :: "nat \<Rightarrow> string" where
  "StatusText n =
     (if n = 200 then ''OK'' else if n = 201 then ''Created'' else if n = 400 then ''Bad Request''
      else if n = 401 then ''Unauthorized'' else if n = 403 then ''Forbidden''
      else if n = 404 then ''Not Found'' else if n = 405 then ''Method Not Allowed''
      else if n = 409 then ''Conflict'' else if n = 500 then ''Internal Server Error'' else [])"

end
