(* ===== verification/Auth.thy ===== *)
theory Auth
  imports Http
begin

text \<open>
  \<open>internal/auth/middleware.go\<close>: identities, the request context that carries one, the
  development header scheme, and the middlewares \<open>IdentityMiddleware\<close> and \<open>RequireRole\<close>.
  \<open>uuid.Parse\<close> comes from a third-party package and is an argument.
\<close>

section \<open>Identities\<close>

definition devHeaderRole :: string where "devHeaderRole = ''X-OMS-Role''"
definition devHeaderCustomerID :: string where "devHeaderCustomerID = ''X-OMS-Customer-ID''"

type_synonym Role = string

definition RoleCustomer :: Role where "RoleCustomer = ''CUSTOMER''"
definition RoleAdmin :: Role where "RoleAdmin = ''ADMIN''"
definition RoleSystem :: Role where "RoleSystem = ''SYSTEM''"

lemmas role_defs = RoleCustomer_def RoleAdmin_def RoleSystem_def

type_synonym Mode = string

definition ModeLocked :: Mode where "ModeLocked = []"
definition ModeDev :: Mode where "ModeDev = ''dev''"
definition ModeJWT :: Mode where "ModeJWT = ''jwt''"

datatype auth_error =
    ErrMissingIdentity
  | ErrInvalidRole
  | ErrMissingCustomerID
  | ErrInvalidCustomerID
  | ErrInsufficientRole

record Identity =
  Id_Role :: Role
  Id_CustomerID :: uuid
  Id_HasCustomerID :: bool
  Id_Subject :: string
  Id_HasSubject :: bool
  Id_SubjectID :: uuid
  Id_HasSubjectID :: bool

section \<open>Requests\<close>

text \<open>An HTTP request with what the router and the middlewares attach to it: the URL
  parameters and, in the context, the identity.\<close>

record http_request =
  req_method :: string
  req_path :: string
  req_raw_query :: string
  req_header :: header
  req_body :: reader
  req_remote_addr :: string
  req_url_params :: "string \<rightharpoonup> string"
  req_identity :: "Identity option"

type_synonym 's handler = "http_request \<Rightarrow> 's \<Rightarrow> http_response \<times> 's"

type_synonym 's middleware = "'s handler \<Rightarrow> 's handler"

definition writeJSON :: "nat \<Rightarrow> body \<Rightarrow> http_response" where
  "writeJSON status payload =
     \<lparr>resp_status = status, resp_content_type = ''application/json'', resp_body = payload\<rparr>"

definition writeJSONError :: "nat \<Rightarrow> string \<Rightarrow> string \<Rightarrow> http_response" where
  "writeJSONError status code message =
     writeJSON status (ErrorResponse \<lparr>Err_Code = code, Err_Message = message\<rparr>)"

definition unauthorized :: http_response where
  "unauthorized =
     writeJSONError StatusUnauthorized ''unauthorized'' (StatusText StatusUnauthorized)"

definition forbidden :: http_response where
  "forbidden = writeJSONError StatusForbidden ''forbidden'' (StatusText StatusForbidden)"

section \<open>The context\<close>

definition WithIdentity :: "http_request \<Rightarrow> Identity \<Rightarrow> http_request" where
  "WithIdentity r identity = r\<lparr>req_identity := Some identity\<rparr>"

definition IdentityFromContext :: "http_request \<Rightarrow> Identity option" where
  "IdentityFromContext r = req_identity r"

definition CustomerIDFromContext :: "http_request \<Rightarrow> uuid option" where
  "CustomerIDFromContext r =
     (case IdentityFromContext r of
        None \<Rightarrow> None
      | Some identity \<Rightarrow> if \<not> Id_HasCustomerID identity then None else Some (Id_CustomerID identity))"

definition RoleFromContext :: "http_request \<Rightarrow> Role option" where
  "RoleFromContext r =
     (case IdentityFromContext r of None \<Rightarrow> None | Some identity \<Rightarrow> Some (Id_Role identity))"

definition SubjectFromContext :: "http_request \<Rightarrow> string option" where
  "SubjectFromContext r =
     (case IdentityFromContext r of
        None \<Rightarrow> None
      | Some identity \<Rightarrow> if \<not> Id_HasSubject identity then None else Some (Id_Subject identity))"

section \<open>Development headers\<close>

definition zero_identity :: Identity where
  "zero_identity =
     \<lparr>Id_Role = [], Id_CustomerID = 0, Id_HasCustomerID = False, Id_Subject = [],
      Id_HasSubject = False, Id_SubjectID = 0, Id_HasSubjectID = False\<rparr>"

definition identityFromHeaders :: "(string \<Rightarrow> uuid option) \<Rightarrow> header \<Rightarrow> auth_error + Identity" where
  "identityFromHeaders uuid_Parse header =
     (let roleValue = TrimSpace (Header_Get header devHeaderRole);
          customerIDValue = TrimSpace (Header_Get header devHeaderCustomerID);
          role = ToUpper roleValue
      in if roleValue = [] then Inl ErrMissingIdentity
         else if role = RoleCustomer then
           (if customerIDValue = [] then Inl ErrMissingCustomerID
            else (case uuid_Parse customerIDValue of
                    None \<Rightarrow> Inl ErrInvalidCustomerID
                  | Some customerID \<Rightarrow>
                      Inr (zero_identity\<lparr>Id_Role := role, Id_CustomerID := customerID,
                                         Id_HasCustomerID := True\<rparr>)))
         else if role = RoleAdmin \<or> role = RoleSystem then
           (if customerIDValue = [] then Inr (zero_identity\<lparr>Id_Role := role\<rparr>)
            else (case uuid_Parse customerIDValue of
                    None \<Rightarrow> Inl ErrInvalidCustomerID
                  | Some customerID \<Rightarrow>
                      Inr (zero_identity\<lparr>Id_Role := role, Id_CustomerID := customerID,
                                         Id_HasCustomerID := True\<rparr>)))
         else Inl ErrInvalidRole)"

section \<open>Middlewares\<close>

definition IdentityMiddleware :: "(string \<Rightarrow> uuid option) \<Rightarrow> Mode \<Rightarrow> 's middleware" where
  "IdentityMiddleware uuid_Parse mode next r s =
     (if mode \<noteq> ModeDev then (unauthorized, s)
      else (case identityFromHeaders uuid_Parse (req_header r) of
              Inl _ \<Rightarrow> (unauthorized, s)
            | Inr identity \<Rightarrow> next (WithIdentity r identity) s))"

definition RequireRole :: "Role list \<Rightarrow> 's middleware" where
  "RequireRole allowed next r s =
     (case IdentityFromContext r of
        None \<Rightarrow> (unauthorized, s)
      | Some identity \<Rightarrow>
          if list_ex (\<lambda>role. Id_Role identity = role) allowed then next r s else (forbidden, s))"

section \<open>What the middlewares let through\<close>

lemma unauthorized_status [simp]: "resp_status unauthorized = 401"
  by (simp add: unauthorized_def writeJSONError_def writeJSON_def StatusUnauthorized_def)

lemma forbidden_status [simp]: "resp_status forbidden = 403"
  by (simp add: forbidden_def writeJSONError_def writeJSON_def StatusForbidden_def)

text \<open>A well-formed identity: one of the three roles, and a customer has an id.\<close>

definition identity_ok :: "Identity \<Rightarrow> bool" where
  "identity_ok i \<longleftrightarrow>
     Id_Role i \<in> {RoleCustomer, RoleAdmin, RoleSystem} \<and>
     (Id_Role i = RoleCustomer \<longrightarrow> Id_HasCustomerID i)"

lemma identityFromHeaders_ok:
  "identityFromHeaders uuid_Parse h = Inr i \<Longrightarrow> identity_ok i"
  by (auto simp: identityFromHeaders_def identity_ok_def zero_identity_def Let_def role_defs
      split: if_splits option.splits)

section \<open>The contract of an identity middleware\<close>

text \<open>
  An identity middleware decides from the request, and from a state it does not change, who
  the caller is.  Without an identity it answers 401 and the handler never runs; otherwise
  the handler runs with that identity in its context, whatever the request carried before.
\<close>

locale authenticator =
  fixes mw :: "'s middleware"
    and authenticate :: "'s \<Rightarrow> http_request \<Rightarrow> Identity option"
  assumes decides: "mw next r s =
      (case authenticate s r of None \<Rightarrow> (unauthorized, s) | Some i \<Rightarrow> next (WithIdentity r i) s)"
    and authenticated_ok: "authenticate s r = Some i \<Longrightarrow> identity_ok i"
begin

lemma refused: "authenticate s r = None \<Longrightarrow> mw next r s = (unauthorized, s)"
  by (simp add: decides)

lemma admitted: "authenticate s r = Some i \<Longrightarrow> mw next r s = next (WithIdentity r i) s"
  by (simp add: decides)

lemma cases_mw:
  obtains (refused) "authenticate s r = None" and "mw next r s = (unauthorized, s)"
    | (admitted) i where "authenticate s r = Some i" and "identity_ok i"
        and "mw next r s = next (WithIdentity r i) s"
  by (cases "authenticate s r") (auto simp: decides authenticated_ok)

text \<open>A role-restricted handler behind the middleware: 401, 403 or a caller of an allowed role.\<close>

lemma RequireRole_cases:
  obtains (unauthenticated) "mw (RequireRole roles h) r s = (unauthorized, s)"
    | (wrong_role) i where "authenticate s r = Some i" and "Id_Role i \<notin> set roles"
        and "mw (RequireRole roles h) r s = (forbidden, s)"
    | (allowed) i where "authenticate s r = Some i" and "identity_ok i" and "Id_Role i \<in> set roles"
        and "mw (RequireRole roles h) r s = h (WithIdentity r i) s"
proof (cases rule: cases_mw [of s r "RequireRole roles h"])
  case refused
  then show ?thesis by (simp add: unauthenticated)
next
  case (admitted i)
  then have run: "mw (RequireRole roles h) r s =
      (if Id_Role i \<in> set roles then h (WithIdentity r i) s else (forbidden, s))"
    by (auto simp: RequireRole_def IdentityFromContext_def WithIdentity_def list_ex_iff)
  show ?thesis
  proof (cases "Id_Role i \<in> set roles")
    case True
    with run show ?thesis by (intro allowed [OF admitted(1,2) True]) simp
  next
    case False
    with run show ?thesis by (intro wrong_role [OF admitted(1) False]) simp
  qed
qed

end

text \<open>The development mode and the locked mode are authenticators.\<close>

definition dev_authenticate :: "(string \<Rightarrow> uuid option) \<Rightarrow> Mode \<Rightarrow> 's \<Rightarrow> http_request \<Rightarrow> Identity option" where
  "dev_authenticate uuid_Parse mode s r =
     (if mode \<noteq> ModeDev then None
      else (case identityFromHeaders uuid_Parse (req_header r) of Inl _ \<Rightarrow> None | Inr i \<Rightarrow> Some i))"

interpretation dev: authenticator "IdentityMiddleware uuid_Parse mode" "dev_authenticate uuid_Parse mode"
  for uuid_Parse mode
  by unfold_locales
    (auto simp: IdentityMiddleware_def dev_authenticate_def dest: identityFromHeaders_ok
      split: sum.splits if_splits)

end
