(* ===== verification/Handler.thy ===== *)
theory Handler
  imports Service Auth
begin

text \<open>
  \<open>internal/orders/handler.go\<close>: the five HTTP handlers, the parsing of their parameters, the
  cursor, and the mapping of results and errors to responses.  The Go handler holds a
  \<open>handlerService\<close> interface value, here a record of operations over an abstract state;
  third-party functions on UUIDs come in a record of their own.
\<close>

section \<open>The interface\<close>

definition defaultListLimit :: int32 where "defaultListLimit = 50"
definition maxListLimit :: int where "maxListLimit = 100"

text \<open>\<open>uuid.Parse\<close> and \<open>UUID.String\<close> of google/uuid, \<open>UUID.String\<close> of pgtype.\<close>

record packages =
  pkg_uuid_Parse :: "string \<Rightarrow> uuid option"
  pkg_uuid_String :: "uuid \<Rightarrow> string"
  pkg_pgUUID_String :: "pgUUID \<Rightarrow> string"

record 's handlerService =
  hs_CreateOrder :: "CreateOrderInput \<Rightarrow> ('s, go_error, CreateOrderResult) op"
  hs_GetOrder :: "uuid \<Rightarrow> uuid \<Rightarrow> ('s, go_error, OrderDetails) op"
  hs_ListOrderDetails :: "ListOrdersInput \<Rightarrow> ('s, go_error, OrderDetails list) op"
  hs_CancelOrderDetails :: "CancelOrderInput \<Rightarrow> ('s, go_error, OrderDetails) op"
  hs_UpdateOrderStatusByTarget ::
    "uuid \<Rightarrow> OrderStatus \<Rightarrow> string \<Rightarrow> uuid option \<Rightarrow> string option \<Rightarrow> string option \<Rightarrow>
     ('s, go_error, OrderDetails) op"

record 's Handler =
  h_service :: "'s handlerService option"

definition NewHandler :: "'s handlerService option \<Rightarrow> 's Handler" where
  "NewHandler svc = \<lparr>h_service = svc\<rparr>"

text \<open>\<open>*Service\<close> implements the interface.\<close>

definition service_methods :: "(string \<Rightarrow> uuid option) \<Rightarrow> 's Service \<Rightarrow> 's handlerService" where
  "service_methods uuid_Parse svc =
     \<lparr>hs_CreateOrder = Service_CreateOrder uuid_Parse svc, hs_GetOrder = Service_GetOrder svc,
      hs_ListOrderDetails = Service_ListOrderDetails svc,
      hs_CancelOrderDetails = Service_CancelOrderDetails svc,
      hs_UpdateOrderStatusByTarget = Service_UpdateOrderStatusByTarget svc\<rparr>"

section \<open>Parameters\<close>

definition parseOrderID :: "packages \<Rightarrow> http_request \<Rightarrow> string + uuid" where
  "parseOrderID pkg r =
     (case pkg_uuid_Parse pkg (case req_url_params r ''order_id'' of None \<Rightarrow> [] | Some v \<Rightarrow> v) of
        None \<Rightarrow> Inl ''order_id must be a valid UUID''
      | Some orderID \<Rightarrow> Inr orderID)"

definition parseListLimit :: "string \<Rightarrow> string + int32" where
  "parseListLimit raw =
     (if TrimSpace raw = [] then Inr defaultListLimit
      else
        (case Atoi raw of
           None \<Rightarrow> Inl ''limit must be an integer''
         | Some value \<Rightarrow>
             if value < 1 \<or> value > maxListLimit
             then Inl (''limit must be between 1 and '' @ show_dec maxListLimit)
             else Inr (word_of_int value)))"

definition bad_cursor :: string where
  "bad_cursor = ''cursor must be a valid opaque cursor''"

definition parseCursor :: "packages \<Rightarrow> string \<Rightarrow> string + (time option \<times> uuid option)" where
  "parseCursor pkg raw =
     (if TrimSpace raw = [] then Inr (None, None)
      else
        (case b64_decode raw of
           None \<Rightarrow> Inl bad_cursor
         | Some decoded \<Rightarrow>
             (case Split CHR ''|'' decoded of
                [p0, p1] \<Rightarrow>
                  (case Parse_RFC3339Nano p0 of
                     None \<Rightarrow> Inl bad_cursor
                   | Some createdAt \<Rightarrow>
                       (case pkg_uuid_Parse pkg p1 of
                          None \<Rightarrow> Inl bad_cursor
                        | Some orderID \<Rightarrow> Inr (Some createdAt, Some orderID)))
              | _ \<Rightarrow> Inl bad_cursor)))"

definition encodeCursor :: "packages \<Rightarrow> time \<Rightarrow> uuid \<Rightarrow> string" where
  "encodeCursor pkg createdAt orderID =
     b64_encode (Format_RFC3339Nano createdAt @ ''|'' @ pkg_uuid_String pkg orderID)"

definition parseStatusParam :: "string \<Rightarrow> string + OrderStatus option" where
  "parseStatusParam raw =
     (let rawStatus = TrimSpace raw in
      if rawStatus = [] then Inr None
      else if \<not> IsValidStatus rawStatus then Inl ''status must be a valid OMS status''
      else Inr (Some rawStatus))"

definition parseIPAddress :: "string \<Rightarrow> string option" where
  "parseIPAddress raw =
     (let trimmed = TrimSpace raw in
      if trimmed = [] then None
      else (case ParseAddr trimmed of None \<Rightarrow> None | Some addr \<Rightarrow> Some (Addr_String addr)))"

definition requestIPAddress :: "http_request \<Rightarrow> string option" where
  "requestIPAddress r =
     (let remoteAddr = TrimSpace (req_remote_addr r) in
      if remoteAddr = [] then None
      else (case SplitHostPort remoteAddr of
              Some (host, _) \<Rightarrow> parseIPAddress host
            | None \<Rightarrow> parseIPAddress remoteAddr))"

definition uuidPointer :: "uuid \<Rightarrow> uuid option" where
  "uuidPointer value = Some value"

lemma uuidPointer_Some [simp]: "uuidPointer u = Some u"
  by (simp add: uuidPointer_def)

definition privilegedActorID :: "Identity \<Rightarrow> uuid option" where
  "privilegedActorID identity =
     (if (Id_Role identity = RoleAdmin \<or> Id_Role identity = RoleSystem) \<and> Id_HasSubjectID identity
      then uuidPointer (Id_SubjectID identity) else None)"

section \<open>Responses\<close>

text \<open>The \<open>Time\<close> of an invalid \<open>pgtype.Timestamptz\<close> is Go's zero time, 1 January of year 1.\<close>

definition pg_time :: "pgTimestamptz \<Rightarrow> time" where
  "pg_time t = (case t of None \<Rightarrow> - 62135596800 * 10 ^ 9 | Some x \<Rightarrow> x)"

definition mapOrderResponse :: "packages \<Rightarrow> OrderDetails \<Rightarrow> orderResponse" where
  "mapOrderResponse pkg detail =
     (let order = Details_Order detail in
      \<lparr>Res_ID = pkg_pgUUID_String pkg (Order_ID order),
       Res_CustomerID = pkg_pgUUID_String pkg (Order_CustomerID order),
       Res_Status = Order_Status order, Res_Currency = Order_Currency order,
       Res_TotalCents = Order_TotalCents order,
       Res_Items = map (\<lambda>item.
         \<lparr>ItemRes_ProductID = pkg_pgUUID_String pkg (OrderItem_ProductID item),
          ItemRes_SKU = OrderItem_Sku item, ItemRes_Quantity = OrderItem_Quantity item,
          ItemRes_UnitPriceCents = OrderItem_UnitPriceCents item\<rparr>) (Details_Items detail),
       Res_CreatedAt = pg_time (Order_CreatedAt order),
       Res_UpdatedAt = pg_time (Order_UpdatedAt order)\<rparr>)"

definition orders_writeJSONError :: "nat \<Rightarrow> string \<Rightarrow> string \<Rightarrow> http_response" where
  "orders_writeJSONError status code message =
     writeJSON status (ErrorResponse \<lparr>Err_Code = code, Err_Message = message\<rparr>)"

text \<open>The handlers' error writer gives the same response as the middleware's.\<close>

lemma orders_writeJSONError_same [simp]: "orders_writeJSONError = writeJSONError"
  by (intro ext) (simp add: orders_writeJSONError_def writeJSONError_def)

definition writeHandlerError :: "go_error \<Rightarrow> http_response" where
  "writeHandlerError err =
     (if errors_Is err ErrRequestBodyTooLarge \<or> errors_Is err ErrMalformedJSON \<or>
         errors_Is err ErrUnknownJSONField \<or> IsValidationError err
      then orders_writeJSONError StatusBadRequest ''invalid_request'' (error_text err)
      else if errors_Is err ErrOrderNotFound
      then orders_writeJSONError StatusNotFound ''not_found'' (error_text err)
      else if errors_Is err ErrInvalidTransition
      then orders_writeJSONError StatusConflict ''conflict'' (error_text err)
      else if errors_Is err ErrIdempotencyConflict
      then orders_writeJSONError StatusConflict ''conflict'' ''idempotency conflict''
      else orders_writeJSONError StatusInternalServerError ''internal_error''
             (StatusText StatusInternalServerError))"

definition service_unavailable :: http_response where
  "service_unavailable =
     orders_writeJSONError StatusInternalServerError ''internal_error'' ''service unavailable''"

definition invalid_request :: "string \<Rightarrow> http_response" where
  "invalid_request message = orders_writeJSONError StatusBadRequest ''invalid_request'' message"

text \<open>Call the service and answer with its result or its error.\<close>

definition answer :: "('s, go_error, 'a) op \<Rightarrow> ('a \<Rightarrow> http_response) \<Rightarrow> 's \<Rightarrow> http_response \<times> 's" where
  "answer m f s = (case m s of (Inl err, t) \<Rightarrow> (writeHandlerError err, t) | (Inr x, t) \<Rightarrow> (f x, t))"

section \<open>Handlers\<close>

definition Handler_CreateOrder :: "packages \<Rightarrow> 's Handler \<Rightarrow> 's handler" where
  "Handler_CreateOrder pkg h r s =
     (case h_service h of
        None \<Rightarrow> (service_unavailable, s)
      | Some svc \<Rightarrow>
          (case CustomerIDFromContext r of
             None \<Rightarrow> (unauthorized, s)
           | Some customerID \<Rightarrow>
               (case DecodeCreateOrderRequest (req_body r) DefaultRequestBodyLimit of
                  Inl err \<Rightarrow> (writeHandlerError err, s)
                | Inr req \<Rightarrow>
                    answer
                      (hs_CreateOrder svc
                        \<lparr>CreateIn_CustomerID = customerID,
                         CreateIn_IdempotencyKey = Req_IdempotencyKey req,
                         CreateIn_Currency = Req_Currency req, CreateIn_Items = Req_Items req,
                         CreateIn_ActorID = uuidPointer customerID, CreateIn_Reason = None,
                         CreateIn_IPAddress = requestIPAddress r\<rparr>)
                      (\<lambda>result. writeJSON StatusCreated (OrderResponse (mapOrderResponse pkg
                        \<lparr>Details_Order = CreateRes_Order result,
                         Details_Items = CreateRes_Items result\<rparr>)))
                      s)))"

definition Handler_GetOrder :: "packages \<Rightarrow> 's Handler \<Rightarrow> 's handler" where
  "Handler_GetOrder pkg h r s =
     (case h_service h of
        None \<Rightarrow> (service_unavailable, s)
      | Some svc \<Rightarrow>
          (case CustomerIDFromContext r of
             None \<Rightarrow> (unauthorized, s)
           | Some customerID \<Rightarrow>
               (case parseOrderID pkg r of
                  Inl message \<Rightarrow> (invalid_request message, s)
                | Inr orderID \<Rightarrow>
                    answer (hs_GetOrder svc orderID customerID)
                      (\<lambda>details. writeJSON StatusOK (OrderResponse (mapOrderResponse pkg details))) s)))"

text \<open>The list response: a cursor for the next page when this one is full.\<close>

definition list_response :: "packages \<Rightarrow> int32 \<Rightarrow> OrderDetails list \<Rightarrow> orderListResponse" where
  "list_response pkg limit details =
     \<lparr>List_Orders = map (mapOrderResponse pkg) details,
      List_NextCursor =
        (if int (length details) = sint limit
         then Some (encodeCursor pkg (pg_time (Order_CreatedAt (Details_Order (last details))))
                      (uuid_bytes (Order_ID (Details_Order (last details)))))
         else None)\<rparr>"

definition Handler_ListOrders :: "packages \<Rightarrow> 's Handler \<Rightarrow> 's handler" where
  "Handler_ListOrders pkg h r s =
     (case h_service h of
        None \<Rightarrow> (service_unavailable, s)
      | Some svc \<Rightarrow>
          (case CustomerIDFromContext r of
             None \<Rightarrow> (unauthorized, s)
           | Some customerID \<Rightarrow>
               (case parseListLimit (Query_Get (req_raw_query r) ''limit'') of
                  Inl message \<Rightarrow> (invalid_request message, s)
                | Inr limit \<Rightarrow>
                    (case parseStatusParam (Query_Get (req_raw_query r) ''status'') of
                       Inl message \<Rightarrow> (invalid_request message, s)
                     | Inr status \<Rightarrow>
                         (case parseCursor pkg (Query_Get (req_raw_query r) ''cursor'') of
                            Inl message \<Rightarrow> (invalid_request message, s)
                          | Inr (cursorCreatedAt, cursorID) \<Rightarrow>
                              answer
                                (hs_ListOrderDetails svc
                                  \<lparr>ListIn_CustomerID = customerID, ListIn_Limit = limit,
                                   ListIn_Status = status, ListIn_CursorCreatedAt = cursorCreatedAt,
                                   ListIn_CursorID = cursorID\<rparr>)
                                (\<lambda>details. writeJSON StatusOK
                                  (OrderListResponse (list_response pkg limit details))) s)))))"

definition Handler_CancelOrder :: "packages \<Rightarrow> 's Handler \<Rightarrow> 's handler" where
  "Handler_CancelOrder pkg h r s =
     (case h_service h of
        None \<Rightarrow> (service_unavailable, s)
      | Some svc \<Rightarrow>
          (case CustomerIDFromContext r of
             None \<Rightarrow> (unauthorized, s)
           | Some customerID \<Rightarrow>
               (case parseOrderID pkg r of
                  Inl message \<Rightarrow> (invalid_request message, s)
                | Inr orderID \<Rightarrow>
                    answer
                      (hs_CancelOrderDetails svc
                        \<lparr>CancelIn_OrderID = orderID, CancelIn_CustomerID = customerID,
                         CancelIn_ActorID = uuidPointer customerID, CancelIn_Reason = None,
                         CancelIn_IPAddress = requestIPAddress r\<rparr>)
                      (\<lambda>details. writeJSON StatusOK (OrderResponse (mapOrderResponse pkg details))) s)))"

definition Handler_UpdateOrderStatus :: "packages \<Rightarrow> 's Handler \<Rightarrow> 's handler" where
  "Handler_UpdateOrderStatus pkg h r s =
     (case h_service h of
        None \<Rightarrow> (service_unavailable, s)
      | Some svc \<Rightarrow>
          (case parseOrderID pkg r of
             Inl message \<Rightarrow> (invalid_request message, s)
           | Inr orderID \<Rightarrow>
               (case DecodeUpdateOrderStatusRequest (req_body r) DefaultRequestBodyLimit of
                  Inl err \<Rightarrow> (writeHandlerError err, s)
                | Inr req \<Rightarrow>
                    (case RoleFromContext r of
                       None \<Rightarrow> (unauthorized, s)
                     | Some role \<Rightarrow>
                         (let identity = (case IdentityFromContext r of None \<Rightarrow> zero_identity | Some i \<Rightarrow> i) in
                          answer
                            (hs_UpdateOrderStatusByTarget svc orderID (UpdReq_Status req) role
                               (privilegedActorID identity) None (requestIPAddress r))
                            (\<lambda>details. writeJSON StatusOK
                              (OrderResponse (mapOrderResponse pkg details))) s)))))"

end
