(* ===== verification/Systems.thy ===== *)
theory Systems
  imports Prelude
begin

text \<open>
  Transition systems: a step relation with an invariant, a step relation with a quantity
  that never decreases, and a system that stops.  The contracts are interpreted by the
  database's evolution, by the worker and by the process.
\<close>

locale inductive_invariant =
  fixes step :: "'s \<Rightarrow> 's \<Rightarrow> bool"
    and inv :: "'s \<Rightarrow> bool"
  assumes step_inv: "step s t \<Longrightarrow> inv s \<Longrightarrow> inv t"
begin

lemma steps_inv: "step\<^sup>*\<^sup>* s t \<Longrightarrow> inv s \<Longrightarrow> inv t"
  by (induction rule: rtranclp_induct) (auto intro: step_inv)

end

text \<open>A relation between states that every step establishes and that composes.\<close>

locale progress_relation = inductive_invariant step inv
    for step :: "'s \<Rightarrow> 's \<Rightarrow> bool" and inv :: "'s \<Rightarrow> bool" +
  fixes rel :: "'s \<Rightarrow> 's \<Rightarrow> bool"
  assumes step_rel: "step s t \<Longrightarrow> inv s \<Longrightarrow> rel s t"
    and rel_refl: "rel s s"
    and rel_trans: "rel s t \<Longrightarrow> rel t u \<Longrightarrow> rel s u"
begin

lemma steps_rel: "step\<^sup>*\<^sup>* s t \<Longrightarrow> inv s \<Longrightarrow> rel s t"
proof (induction rule: rtranclp_induct)
  case base
  show ?case by (rule rel_refl)
next
  case (step t u)
  then have "inv t" by (blast intro: steps_inv)
  with step show ?case by (blast intro: rel_trans step_rel)
qed

end

text \<open>
  Progress.  The steps of a system are its own, which the scheduler takes sooner or later,
  arrivals, which bring new work, and other events of its surroundings, which need not
  happen.  \<open>run_of s k m t\<close>: from \<open>s\<close> a run with \<open>k\<close> own steps and \<open>m\<close> arrivals leads to \<open>t\<close>.
\<close>

inductive run_of :: "('s \<Rightarrow> 's \<Rightarrow> bool) \<Rightarrow> ('s \<Rightarrow> 's \<Rightarrow> bool) \<Rightarrow> ('s \<Rightarrow> 's \<Rightarrow> bool) \<Rightarrow>
    's \<Rightarrow> nat \<Rightarrow> nat \<Rightarrow> 's \<Rightarrow> bool"
  for own arrive event s where
  run_start: "run_of own arrive event s 0 0 s"
| run_own: "run_of own arrive event s k m t \<Longrightarrow> own t u \<Longrightarrow> run_of own arrive event s (Suc k) m u"
| run_arrival: "run_of own arrive event s k m t \<Longrightarrow> arrive t u \<Longrightarrow> run_of own arrive event s k (Suc m) u"
| run_event: "run_of own arrive event s k m t \<Longrightarrow> event t u \<Longrightarrow> run_of own arrive event s k m u"

lemma own_run: "own\<^sup>*\<^sup>* s t \<Longrightarrow> \<exists>k. run_of own arrive event s k 0 t"
  by (induction rule: rtranclp_induct) (blast intro: run_start run_own)+

text \<open>A system that stops: it is never stuck before, every own step lowers the work that is
  left, and only arrivals add to it.\<close>

locale stopping_system =
  fixes own :: "'s \<Rightarrow> 's \<Rightarrow> bool" and arrive :: "'s \<Rightarrow> 's \<Rightarrow> bool" and event :: "'s \<Rightarrow> 's \<Rightarrow> bool"
    and inv :: "'s \<Rightarrow> bool" and work :: "'s \<Rightarrow> nat" and cost :: nat and stopped :: "'s \<Rightarrow> bool"
  assumes own_step: "inv s \<Longrightarrow> own s t \<Longrightarrow> inv t \<and> work t < work s"
    and arrive_step: "inv s \<Longrightarrow> arrive s t \<Longrightarrow> inv t \<and> work t \<le> work s + cost"
    and event_step: "inv s \<Longrightarrow> event s t \<Longrightarrow> inv t \<and> work t \<le> work s"
    and moves: "inv s \<Longrightarrow> \<not> stopped s \<Longrightarrow> \<exists>t. own s t"
begin

lemma run_bound:
  "run_of own arrive event s k m t \<Longrightarrow> inv s \<Longrightarrow> inv t \<and> work t + k \<le> work s + cost * m"
proof (induction rule: run_of.induct)
  case (run_own k m t u)
  then show ?case using own_step by fastforce
next
  case (run_arrival k m t u)
  then show ?case using arrive_step by fastforce
next
  case (run_event k m t u)
  then show ?case using event_step by fastforce
qed simp

lemma run_moves: "run_of own arrive event s k m t \<Longrightarrow> inv s \<Longrightarrow> stopped t \<or> (\<exists>u. own t u)"
  using run_bound moves by blast

text \<open>Left to itself the system stops.\<close>

lemma stops_alone: "inv s \<Longrightarrow> \<exists>t. own\<^sup>*\<^sup>* s t \<and> stopped t"
proof (induction "work s" arbitrary: s rule: less_induct)
  case less
  show ?case
  proof (cases "stopped s")
    case True
    then show ?thesis by blast
  next
    case False
    with less.prems obtain t where t: "own s t" using moves by blast
    with less.prems have "inv t" "work t < work s" using own_step by blast+
    with less.hyps t show ?thesis by (blast intro: converse_rtranclp_into_rtranclp)
  qed
qed

end

text \<open>
  Sessions that share a store: \<open>ok\<close> is the invariant of the store, \<open>leads s t\<close> says that
  only allowed changes were made between \<open>s\<close> and \<open>t\<close>.  An operation guarantees this when
  it does so on every path, its error paths included; composed operations inherit it.
\<close>

definition guaranteesE :: "('s \<Rightarrow> bool) \<Rightarrow> ('s \<Rightarrow> 's \<Rightarrow> bool) \<Rightarrow> ('s, 'e, 'a) op \<Rightarrow> bool" where
  "guaranteesE ok leads m \<longleftrightarrow> (\<forall>s. ok s \<longrightarrow> leads s (snd (m s)))"

lemma guaranteesEI: "(\<And>s r t. ok s \<Longrightarrow> m s = (r, t) \<Longrightarrow> leads s t) \<Longrightarrow> guaranteesE ok leads m"
  unfolding guaranteesE_def by (metis prod.collapse)

locale shared_store =
  fixes ok :: "'s \<Rightarrow> bool" and leads :: "'s \<Rightarrow> 's \<Rightarrow> bool"
  assumes leads_refl [simp]: "leads s s"
    and leads_trans: "leads s t \<Longrightarrow> leads t u \<Longrightarrow> leads s u"
    and leads_ok: "leads s t \<Longrightarrow> ok s \<Longrightarrow> ok t"
begin

lemma run_leads: "guaranteesE ok leads m \<Longrightarrow> m s = (r, t) \<Longrightarrow> ok s \<Longrightarrow> leads s t"
  unfolding guaranteesE_def by (metis snd_conv)

lemma run_ok: "guaranteesE ok leads m \<Longrightarrow> m s = (r, t) \<Longrightarrow> ok s \<Longrightarrow> ok t"
  using run_leads leads_ok by blast

lemma guarantees_return [simp, intro]: "guaranteesE ok leads (returnE x)"
  by (simp add: guaranteesE_def)

lemma guarantees_fail [simp, intro]: "guaranteesE ok leads (failE e)"
  by (simp add: guaranteesE_def)

lemma guarantees_lift [simp, intro]: "guaranteesE ok leads (liftE x)"
  by (simp add: guaranteesE_def)

lemma guarantees_Pair [simp]: "guaranteesE ok leads (Pair x)"
  by (simp add: guaranteesE_def)

lemma guarantees_draw: "(\<And>s. ok s \<Longrightarrow> leads s (snd (f s))) \<Longrightarrow> guaranteesE ok leads (drawE f)"
  by (simp add: guaranteesE_def drawE_def case_prod_beta)

lemma guarantees_bind [intro]:
  assumes "guaranteesE ok leads m" and "\<And>x. guaranteesE ok leads (f x)"
  shows "guaranteesE ok leads (bindE m f)"
proof (rule guaranteesEI)
  fix s r t assume ok: "ok s" and run: "bindE m f s = (r, t)"
  from run show "leads s t"
  proof (cases rule: bindE_cases)
    case (err e)
    with assms(1) ok show ?thesis by (blast intro: run_leads)
  next
    case (ok x u)
    with assms \<open>ok s\<close> show ?thesis by (meson run_ok run_leads leads_trans)
  qed
qed

text \<open>The continuation may use what the first operation returned.\<close>

lemma guarantees_bind_result:
  assumes "guaranteesE ok leads m"
    and "\<And>s x t. ok s \<Longrightarrow> m s = (Inr x, t) \<Longrightarrow> guaranteesE ok leads (f x)"
  shows "guaranteesE ok leads (bindE m f)"
proof (rule guaranteesEI)
  fix s r t assume ok: "ok s" and run: "bindE m f s = (r, t)"
  from run show "leads s t"
  proof (cases rule: bindE_cases)
    case (err e)
    with assms(1) ok show ?thesis by (blast intro: run_leads)
  next
    case (ok x u)
    with assms \<open>ok s\<close> show ?thesis by (meson run_ok run_leads leads_trans)
  qed
qed

lemma guarantees_onErr [intro]:
  assumes "guaranteesE ok leads m" and "\<And>e. guaranteesE ok leads (h e)"
  shows "guaranteesE ok leads (onErrE m h)"
proof (rule guaranteesEI)
  fix s r t assume ok: "ok s" and run: "onErrE m h s = (r, t)"
  from run show "leads s t"
  proof (cases rule: onErrE_cases)
    case (err e u)
    with assms ok show ?thesis by (meson run_ok run_leads leads_trans)
  next
    case (ok x)
    with assms(1) \<open>ok s\<close> show ?thesis by (blast intro: run_leads)
  qed
qed

lemma guarantees_mapE [intro]:
  "(\<And>x. guaranteesE ok leads (f x)) \<Longrightarrow> guaranteesE ok leads (mapE f xs)"
  by (induction xs) (auto intro!: guarantees_bind)

end

end
