(* ===== verification/AuditTrail.thy ===== *)
theory AuditTrail
  imports Systems Repository
begin

text \<open>
  What the program promises of its data, stated on the tables alone.  \<open>evolves\<close> has one
  rule for placing an order and one for moving an order to another status, each with the
  audit event that goes with it: the abstract specification of every write of the
  repository.  \<open>tables_ok\<close> is the invariant, and \<open>extends\<close> says what never changes once
  it is written.
\<close>

section \<open>Histories\<close>

definition history :: "tables \<Rightarrow> uuid \<Rightarrow> order_events_row list" where
  "history d oid = filter (\<lambda>e. v_order_id e = oid) (order_events d)"

definition items_of :: "tables \<Rightarrow> uuid \<Rightarrow> order_items_row list" where
  "items_of d oid = filter (\<lambda>i. i_order_id i = oid) (order_items d)"

text \<open>Replaying events from a status (none before creation): each event starts where the
  last one ended and makes a legal move.\<close>

definition legal_move :: "string option \<Rightarrow> string option \<Rightarrow> bool" where
  "legal_move cur nxt =
     (case (cur, nxt) of
        (None, Some t) \<Rightarrow> t = StatusPending
      | (Some f, Some t) \<Rightarrow> CanTransition f t
      | _ \<Rightarrow> False)"

fun replay :: "string option \<Rightarrow> order_events_row list \<Rightarrow> string option option" where
  "replay cur [] = Some cur"
| "replay cur (e # es) =
     (if v_from_status e = cur \<and> legal_move cur (v_to_status e) then replay (v_to_status e) es
      else None)"

definition items_total :: "order_items_row list \<Rightarrow> int" where
  "items_total its = (\<Sum>i \<leftarrow> its. sint (i_unit_price_cents i) * sint (i_quantity i))"

section \<open>The invariant\<close>

definition keys_ok :: "tables \<Rightarrow> bool" where
  "keys_ok d \<longleftrightarrow>
     distinct (map o_id (orders d)) \<and>
     distinct (map (\<lambda>r. (o_customer_id r, o_idempotency_key r)) (orders d)) \<and>
     distinct (map i_id (order_items d)) \<and> distinct (map v_id (order_events d))"

definition refs_ok :: "tables \<Rightarrow> bool" where
  "refs_ok d \<longleftrightarrow>
     i_order_id ` set (order_items d) \<subseteq> o_id ` set (orders d) \<and>
     v_order_id ` set (order_events d) \<subseteq> o_id ` set (orders d)"

definition order_ok :: "tables \<Rightarrow> orders_row \<Rightarrow> bool" where
  "order_ok d r \<longleftrightarrow>
     items_of d (o_id r) \<noteq> [] \<and> sint (o_total_cents r) = items_total (items_of d (o_id r)) \<and>
     replay None (history d (o_id r)) = Some (Some (o_status r)) \<and>
     pg_micros (o_created_at r) = o_created_at r"

definition item_row_ok :: "order_items_row \<Rightarrow> bool" where
  "item_row_ok i \<longleftrightarrow> 0 < sint (i_quantity i) \<and> 0 \<le> sint (i_unit_price_cents i)"

definition tables_ok :: "tables \<Rightarrow> bool" where
  "tables_ok d \<longleftrightarrow>
     keys_ok d \<and> refs_ok d \<and> (\<forall>r \<in> set (orders d). order_ok d r) \<and>
     (\<forall>i \<in> set (order_items d). item_row_ok i)"

section \<open>The abstract steps\<close>

text \<open>Who may record which move.\<close>

definition attributed :: "order_events_row \<Rightarrow> string \<Rightarrow> string \<Rightarrow> bool" where
  "attributed e from to \<longleftrightarrow>
     v_action e = actionCancelled \<and> v_actor_type e = actorTypeCustomer \<and>
       from = StatusPending \<and> to = StatusCancelled
     \<or> v_action e = actionStatusUpdated \<and> v_actor_type e \<in> {''ADMIN'', ''SYSTEM''}
     \<or> v_action e = actionWorkerMovedToProcessing \<and> v_actor_type e = actorTypeSystem \<and>
       from = StatusPending \<and> to = StatusProcessing"

definition move_order :: "uuid \<Rightarrow> string \<Rightarrow> time \<Rightarrow> order_events_row \<Rightarrow> tables \<Rightarrow> tables" where
  "move_order oid s now e d =
     d\<lparr>orders := map (\<lambda>r. if o_id r = oid then set_status s now r else r) (orders d),
       order_events := order_events d @ [e]\<rparr>"

definition place_order ::
    "orders_row \<Rightarrow> order_items_row list \<Rightarrow> order_events_row \<Rightarrow> tables \<Rightarrow> tables" where
  "place_order r its e d =
     \<lparr>orders = orders d @ [r], order_items = order_items d @ its,
      order_events = order_events d @ [e]\<rparr>"

inductive evolves :: "tables \<Rightarrow> tables \<Rightarrow> bool" where
  placed: "o_status r = StatusPending \<Longrightarrow>
     o_id r \<notin> o_id ` set (orders d) \<Longrightarrow>
     (o_customer_id r, o_idempotency_key r) \<notin>
       (\<lambda>x. (o_customer_id x, o_idempotency_key x)) ` set (orders d) \<Longrightarrow>
     its \<noteq> [] \<Longrightarrow> \<forall>i \<in> set its. i_order_id i = o_id r \<and> item_row_ok i \<Longrightarrow>
     distinct (map i_id its) \<Longrightarrow> i_id ` set its \<inter> i_id ` set (order_items d) = {} \<Longrightarrow>
     sint (o_total_cents r) = items_total its \<Longrightarrow> pg_micros (o_created_at r) = o_created_at r \<Longrightarrow>
     v_order_id e = o_id r \<Longrightarrow> v_from_status e = None \<Longrightarrow> v_to_status e = Some StatusPending \<Longrightarrow>
     v_action e = actionCreated \<Longrightarrow> v_actor_type e = actorTypeCustomer \<Longrightarrow>
     v_id e \<notin> v_id ` set (order_events d) \<Longrightarrow>
     evolves d (place_order r its e d)"
| moved: "r \<in> set (orders d) \<Longrightarrow> CanTransition (o_status r) s \<Longrightarrow>
     v_order_id e = o_id r \<Longrightarrow> v_from_status e = Some (o_status r) \<Longrightarrow> v_to_status e = Some s \<Longrightarrow>
     attributed e (o_status r) s \<Longrightarrow> v_id e \<notin> v_id ` set (order_events d) \<Longrightarrow>
     evolves d (move_order (o_id r) s now e d)"

section \<open>Lemmas on histories\<close>

lemma replay_append:
  "replay c (xs @ ys) = (case replay c xs of None \<Rightarrow> None | Some c' \<Rightarrow> replay c' ys)"
  by (induction xs arbitrary: c) auto

lemma history_move [simp, table_simps]:
  "history (move_order oid s now e d) x = history d x @ (if v_order_id e = x then [e] else [])"
  by (simp add: history_def move_order_def)

lemma history_place [simp, table_simps]:
  "history (place_order r its e d) x = history d x @ (if v_order_id e = x then [e] else [])"
  by (simp add: history_def place_order_def)

lemma items_of_move [simp, table_simps]: "items_of (move_order oid s now e d) x = items_of d x"
  by (simp add: items_of_def move_order_def)

lemma items_of_place [table_simps]:
  "items_of (place_order r its e d) x = items_of d x @ filter (\<lambda>i. i_order_id i = x) its"
  by (simp add: items_of_def place_order_def)

lemma set_status_fields [simp, table_simps]:
  "o_id (set_status s now r) = o_id r" "o_customer_id (set_status s now r) = o_customer_id r"
  "o_idempotency_key (set_status s now r) = o_idempotency_key r"
  "o_total_cents (set_status s now r) = o_total_cents r"
  "o_currency (set_status s now r) = o_currency r"
  "o_created_at (set_status s now r) = o_created_at r"
  "o_status (set_status s now r) = s" "o_updated_at (set_status s now r) = now"
  by (simp_all add: set_status_def)

lemma orders_move_keys [simp, table_simps]:
  "map o_id (orders (move_order oid s now e d)) = map o_id (orders d)"
  "map (\<lambda>r. (o_customer_id r, o_idempotency_key r)) (orders (move_order oid s now e d)) =
     map (\<lambda>r. (o_customer_id r, o_idempotency_key r)) (orders d)"
  by (simp_all add: move_order_def)

lemma orders_move_ids [simp, table_simps]:
  "o_id ` set (orders (move_order oid s now e d)) = o_id ` set (orders d)"
  by (metis list.set_map orders_move_keys(1))

lemma history_fresh: "refs_ok d \<Longrightarrow> x \<notin> o_id ` set (orders d) \<Longrightarrow> history d x = []"
  by (auto simp: refs_ok_def history_def filter_empty_conv)

lemma items_fresh: "refs_ok d \<Longrightarrow> x \<notin> o_id ` set (orders d) \<Longrightarrow> items_of d x = []"
  by (auto simp: refs_ok_def items_of_def filter_empty_conv)

lemma tables_ok_unique:
  "tables_ok d \<Longrightarrow> r \<in> set (orders d) \<Longrightarrow> r' \<in> set (orders d) \<Longrightarrow> o_id r = o_id r' \<Longrightarrow> r = r'"
  unfolding tables_ok_def keys_ok_def by (blast dest: distinct_map_inj_on_set)

lemma tables_ok_empty [simp]: "tables_ok empty_tables"
  by (simp add: tables_ok_def keys_ok_def refs_ok_def empty_tables_def)

section \<open>Every step keeps the invariant\<close>

lemma placed_ok:
  assumes ok: "tables_ok d" and r: "o_status r = StatusPending" "o_id r \<notin> o_id ` set (orders d)"
      "(o_customer_id r, o_idempotency_key r) \<notin>
         (\<lambda>x. (o_customer_id x, o_idempotency_key x)) ` set (orders d)"
    and its: "its \<noteq> []" "\<forall>i \<in> set its. i_order_id i = o_id r \<and> item_row_ok i"
      "distinct (map i_id its)" "i_id ` set its \<inter> i_id ` set (order_items d) = {}"
      "sint (o_total_cents r) = items_total its" "pg_micros (o_created_at r) = o_created_at r"
    and e: "v_order_id e = o_id r" "v_from_status e = None" "v_to_status e = Some StatusPending"
      "v_id e \<notin> v_id ` set (order_events d)"
  shows "tables_ok (place_order r its e d)"
proof -
  let ?d = "place_order r its e d"
  have refs: "refs_ok d" and keys: "keys_ok d" using ok by (simp_all add: tables_ok_def)
  have "keys_ok ?d" using keys r its(3,4) e(4)
    by (auto simp: keys_ok_def place_order_def)
  moreover have "refs_ok ?d" using refs its(2) e(1)
    by (auto simp: refs_ok_def place_order_def)
  moreover have "order_ok ?d x" if "x \<in> set (orders ?d)" for x
  proof (cases "x = r")
    case True
    have "filter (\<lambda>i. i_order_id i = o_id r) its = its" using its(2) by (simp add: filter_id_conv)
    with True refs r its e show ?thesis
      by (simp add: order_ok_def items_of_place history_fresh items_fresh legal_move_def)
  next
    case False
    with that have x: "x \<in> set (orders d)" by (simp add: place_order_def)
    with r(2) have ne: "o_id x \<noteq> o_id r" by (metis image_eqI)
    then have "filter (\<lambda>i. i_order_id i = o_id x) its = []"
      using its(2) by (auto simp: filter_empty_conv)
    with x ne ok e(1) show ?thesis
      by (simp add: tables_ok_def order_ok_def items_of_place)
  qed
  moreover have "\<forall>i \<in> set (order_items ?d). item_row_ok i" using ok its(2)
    by (auto simp: tables_ok_def place_order_def)
  ultimately show ?thesis by (simp add: tables_ok_def)
qed

lemma moved_ok:
  assumes ok: "tables_ok d" and r: "r \<in> set (orders d)" "CanTransition (o_status r) s"
    and e: "v_order_id e = o_id r" "v_from_status e = Some (o_status r)" "v_to_status e = Some s"
      "v_id e \<notin> v_id ` set (order_events d)"
  shows "tables_ok (move_order (o_id r) s now e d)"
proof -
  let ?d = "move_order (o_id r) s now e d"
  have "keys_ok ?d"
    using ok e(4) unfolding tables_ok_def keys_ok_def orders_move_keys by (simp add: move_order_def)
  moreover have "refs_ok ?d"
    using ok r(1) e(1) unfolding tables_ok_def refs_ok_def orders_move_ids
    by (auto simp: move_order_def)
  moreover have "order_ok ?d x" if "x \<in> set (orders ?d)" for x
  proof (cases "o_id x = o_id r")
    case True
    with that obtain y where y: "y \<in> set (orders d)" "x = set_status s now y" "o_id y = o_id r"
      by (auto simp: move_order_def split: if_splits)
    with ok r(1) have "y = r" by (blast dest: tables_ok_unique)
    moreover have "order_ok d r" using ok r(1) by (simp add: tables_ok_def)
    ultimately show ?thesis using y e r(2)
      by (simp add: order_ok_def replay_append legal_move_def)
  next
    case False
    with that have "x \<in> set (orders d)" by (auto simp: move_order_def split: if_splits)
    with False ok e(1) show ?thesis by (simp add: tables_ok_def order_ok_def)
  qed
  moreover have "\<forall>i \<in> set (order_items ?d). item_row_ok i" using ok
    by (simp add: tables_ok_def move_order_def)
  ultimately show ?thesis by (simp add: tables_ok_def)
qed

lemma evolves_ok: "evolves d d' \<Longrightarrow> tables_ok d \<Longrightarrow> tables_ok d'"
  by (induction rule: evolves.induct) (simp_all add: placed_ok moved_ok)

section \<open>What is never rewritten\<close>

text \<open>The events and the items only grow; an order keeps its identity, owner, key, total,
  currency and creation time, and its status moves along legal transitions only.\<close>

definition same_order :: "orders_row \<Rightarrow> orders_row \<Rightarrow> bool" where
  "same_order r r' \<longleftrightarrow>
     o_id r' = o_id r \<and> o_customer_id r' = o_customer_id r \<and>
     o_idempotency_key r' = o_idempotency_key r \<and> o_total_cents r' = o_total_cents r \<and>
     o_currency r' = o_currency r \<and> o_created_at r' = o_created_at r"

definition extends :: "tables \<Rightarrow> tables \<Rightarrow> bool" where
  "extends d d' \<longleftrightarrow>
     prefix (order_events d) (order_events d') \<and> prefix (order_items d) (order_items d') \<and>
     (\<forall>r \<in> set (orders d). \<exists>r' \<in> set (orders d').
        same_order r r' \<and> CanTransition\<^sup>*\<^sup>* (o_status r) (o_status r'))"

lemma same_order_refl [simp]: "same_order r r"
  by (simp add: same_order_def)

lemma same_order_trans: "same_order r s \<Longrightarrow> same_order s t \<Longrightarrow> same_order r t"
  by (simp add: same_order_def)

lemma same_order_set_status [simp]: "same_order r (set_status s now r)"
  by (simp add: same_order_def)

lemma extends_refl [simp]: "extends d d"
  unfolding extends_def by (blast intro: same_order_refl)

lemma extends_trans: "extends d e \<Longrightarrow> extends e f \<Longrightarrow> extends d f"
  unfolding extends_def
  by (meson prefix_order.order_trans rtranclp_trans same_order_trans)

lemma evolves_extends: "evolves d d' \<Longrightarrow> tables_ok d \<Longrightarrow> extends d d'"
proof (induction rule: evolves.induct)
  case (placed r d its e)
  show ?case unfolding extends_def place_order_def by (simp, blast intro: same_order_refl)
next
  case (moved r d s e now)
  have "\<exists>x' \<in> set (orders (move_order (o_id r) s now e d)).
      same_order x x' \<and> CanTransition\<^sup>*\<^sup>* (o_status x) (o_status x')" if "x \<in> set (orders d)" for x
  proof (cases "o_id x = o_id r")
    case True
    with that moved have "x = r" by (blast dest: tables_ok_unique)
    with moved that show ?thesis
      by (intro bexI [of _ "set_status s now r"]) (auto simp: move_order_def image_iff)
  next
    case False
    with that show ?thesis
      by (intro bexI [of _ x]) (auto simp: move_order_def image_iff)
  qed
  then show ?case unfolding extends_def by (simp add: move_order_def)
qed

interpretation evolution: progress_relation evolves tables_ok extends
  by unfold_locales (auto intro: evolves_ok evolves_extends extends_trans)

section \<open>Several moves at once\<close>

text \<open>A batch that moves distinct orders and appends one event for each is a path of
  single moves.\<close>

definition move_all :: "uuid list \<Rightarrow> string \<Rightarrow> time \<Rightarrow> order_events_row list \<Rightarrow> tables \<Rightarrow> tables" where
  "move_all ids s now es d =
     d\<lparr>orders := map (\<lambda>r. if o_id r \<in> set ids then set_status s now r else r) (orders d),
       order_events := order_events d @ es\<rparr>"

lemma move_all_Nil [simp]: "move_all [] s now [] d = d"
  by (simp add: move_all_def)

lemma move_all_Cons:
  "move_all (oid # ids) s now (e # es) d = move_all ids s now es (move_order oid s now e d)"
  by (auto simp: move_all_def move_order_def set_status_def)

definition event_of_move :: "string \<Rightarrow> string \<Rightarrow> uuid \<Rightarrow> order_events_row \<Rightarrow> bool" where
  "event_of_move from to oid e \<longleftrightarrow>
     v_order_id e = oid \<and> v_from_status e = Some from \<and> v_to_status e = Some to \<and>
     attributed e from to"

lemma move_all_evolves:
  assumes "list_all2 (event_of_move from to) ids es" and "distinct ids"
    and "\<forall>oid \<in> set ids. \<exists>r \<in> set (orders d). o_id r = oid \<and> o_status r = from"
    and "CanTransition from to" and "distinct (map v_id es)"
    and "v_id ` set es \<inter> v_id ` set (order_events d) = {}"
  shows "evolves\<^sup>*\<^sup>* d (move_all ids to now es d)"
  using assms
proof (induction arbitrary: d rule: list_all2_induct)
  case Nil
  then show ?case by simp
next
  case (Cons oid ids e es)
  let ?d = "move_order oid to now e d"
  from Cons.prems obtain r where r: "r \<in> set (orders d)" "o_id r = oid" "o_status r = from"
    by auto
  have e: "v_order_id e = oid" "v_from_status e = Some from" "v_to_status e = Some to"
      "attributed e from to"
    using Cons.hyps(1) by (simp_all add: event_of_move_def)
  have "evolves d (move_order (o_id r) to now e d)"
    by (rule evolves.moved) (use r e Cons.prems in auto)
  then have "evolves d ?d" using r by simp
  moreover have "evolves\<^sup>*\<^sup>* ?d (move_all ids to now es ?d)"
  proof (rule Cons.IH)
    show "\<forall>x \<in> set ids. \<exists>r \<in> set (orders ?d). o_id r = x \<and> o_status r = from"
    proof
      fix x assume x: "x \<in> set ids"
      with Cons.prems obtain r' where "r' \<in> set (orders d)" "o_id r' = x" "o_status r' = from"
        by auto
      moreover have "x \<noteq> oid" using x Cons.prems by auto
      ultimately show "\<exists>r \<in> set (orders ?d). o_id r = x \<and> o_status r = from"
        by (intro bexI [of _ r']) (auto simp: move_order_def image_iff)
    qed
    show "v_id ` set es \<inter> v_id ` set (order_events ?d) = {}"
      using Cons.prems by (auto simp: move_order_def)
  qed (use Cons.prems in auto)
  ultimately show ?case by (simp add: move_all_Cons converse_rtranclp_into_rtranclp)
qed

section \<open>Who recorded what\<close>

text \<open>An event a customer, an administrator or the system may have recorded.\<close>

definition event_ok :: "order_events_row \<Rightarrow> bool" where
  "event_ok e \<longleftrightarrow>
     (case (v_from_status e, v_to_status e) of
        (None, Some to) \<Rightarrow> to = StatusPending \<and> v_action e = actionCreated \<and> v_actor_type e = actorTypeCustomer
      | (Some from, Some to) \<Rightarrow> CanTransition from to \<and> attributed e from to
      | _ \<Rightarrow> False)"

definition trail_ok :: "tables \<Rightarrow> bool" where
  "trail_ok d \<longleftrightarrow> list_all event_ok (order_events d)"

interpretation trail: inductive_invariant evolves trail_ok
proof
  fix d d' assume "evolves d d'" and "trail_ok d"
  then show "trail_ok d'"
    by (cases rule: evolves.cases) (simp_all add: trail_ok_def event_ok_def place_order_def move_order_def)
qed

end
