(* ===== verification/StoreLaws.thy ===== *)
theory StoreLaws
  imports AuditTrail
begin

text \<open>
  What a driver call, a statement and a transaction do to the world, whatever faults the
  environment injects; and the refinement of \<open>AuditTrail\<close>: every committed write of the
  repository is a path of \<open>evolves\<close> steps.
\<close>

section \<open>Driver calls\<close>

lemma tick_simps [simp, table_simps]:
  "w_db (tick w) = w_db w" "w_env (tick w) = w_env w" "w_tick (tick w) = Suc (w_tick w)"
  by (simp_all add: tick_def)

lemma begin_session_simps [simp, table_simps]:
  "w_env (begin_session w) = w_env w" "w_tick (begin_session w) = w_tick w"
  "w_db (begin_session w) = env_others (w_env w) (w_tick w) (w_db w)"
  by (simp_all add: begin_session_def)

lemma RollbackTx_simps [simp, table_simps]:
  "w_env (RollbackTx d w) = w_env w" "w_tick (RollbackTx d w) = w_tick w" "w_db (RollbackTx d w) = d"
  by (simp_all add: RollbackTx_def)

lemma run_stmt_elim:
  assumes "run_stmt now stmt w = (r, w')"
  obtains (fault) t where "r = Inl (OtherError t)" and "w_db w' = w_db w" and "w_env w' = w_env w"
    | (error) e where "r = Inl e" and "stmt now (w_db w) = Inl e" and "w_db w' = w_db w"
      and "w_env w' = w_env w"
    | (ok) x where "r = Inr x" and "stmt now (w_db w) = Inr (x, w_db w')" and "w_env w' = w_env w"
  using assms
  by (auto simp: run_stmt_def split: fault.splits sum.splits prod.splits)

lemma run_stmt_InrE:
  assumes "run_stmt now stmt w = (Inr x, w')"
  obtains "stmt now (w_db w) = Inr (x, w_db w')" and "w_env w' = w_env w"
  using assms by (cases rule: run_stmt_elim) auto

lemma db_call_Tx [simp]: "db_call (Tx now) stmt w = run_stmt now stmt w"
  by (simp add: db_call_def)

lemma db_call_Pool: "db_call Pool stmt w = run_stmt (now_at (w_env w) (w_tick w)) stmt (begin_session w)"
  by (simp add: db_call_def)

lemma run_stmt_env: "run_stmt now stmt w = (r, w') \<Longrightarrow> w_env w' = w_env w"
  by (erule run_stmt_elim) auto

lemma db_call_env: "db_call conn stmt w = (r, w') \<Longrightarrow> w_env w' = w_env w"
  by (auto simp: db_call_def split: DBTX.splits dest: run_stmt_env)

lemma uuid_New_run [simp]: "uuid_New w = (Inr (env_uuid (w_env w) (w_tick w)), tick w)"
  by (simp add: uuid_New_def drawE_def draw_uuid_def)

text \<open>Operations leave the environment's script alone.\<close>

abbreviation keeps_env :: "env \<Rightarrow> 'a dbop \<Rightarrow> bool" where
  "keeps_env E m \<equiv> keepsE (\<lambda>w. w_env w = E) m"

lemma keeps_env_db_call [simp, intro]: "keeps_env E (db_call conn stmt)"
  by (rule keepsEI) (auto dest: db_call_env)

lemma keeps_env_uuid_New [simp, intro]: "keeps_env E uuid_New"
  by (simp add: keepsE_def)

lemmas query_defs = Queries_CancelPendingOrder_def Queries_CreateOrder_def
  Queries_CreateOrderEvent_def Queries_CreateOrderItem_def
  Queries_UpdateOrderStatusIfCurrentStatusMatches_def
  Queries_GetOrderByIDAndCustomerID_def Queries_GetOrderEventsByOrderID_def
  Queries_GetOrderItemsByOrderID_def Queries_ListOrdersByCustomerID_def
  Queries_ListOrdersByCustomerIDAndStatus_def

lemma keeps_env_pick [simp, intro]:
  "keeps_env E (Queries_WorkerPickAndMovePendingOrdersToProcessing conn limit)"
  by (rule keepsEI)
    (auto simp: Queries_WorkerPickAndMovePendingOrdersToProcessing_def dest: db_call_env)

lemma keeps_env_bodies [simp, intro]:
  "keeps_env E (create_tx c1 conn)" "keeps_env E (cancel_tx c2 conn)"
  "keeps_env E (update_tx c3 conn)" "keeps_env E (batch_tx c4 conn)"
  unfolding create_tx_def cancel_tx_def update_tx_def batch_tx_def create_items_def
    batch_event_def query_defs
  by (intro keepsE_bind keepsE_mapE keepsE_return keeps_env_db_call keeps_env_uuid_New
      keeps_env_pick)+

section \<open>Transactions are atomic\<close>

lemma BeginTx_elim:
  assumes "BeginTx w = (r, w')"
  obtains (fault) t where "r = Inl (OtherError t)" and "w' = tick (begin_session w)"
    | (ok) "r = Inr (Tx (now_at (w_env w) (w_tick w)))" and "w' = tick (begin_session w)"
  using assms by (auto simp: BeginTx_def split: fault.splits)

lemma CommitTx_elim:
  assumes "CommitTx d w = (r, w')"
  obtains (ok) "r = Inr ()" and "w_db w' = w_db w" and "w_env w' = w_env w"
    | (refused) t where "r = Inl (OtherError t)" and "w_db w' = d" and "w_env w' = w_env w"
    | (lost) t where "r = Inl (OtherError t)" and "w_db w' = w_db w" and "w_env w' = w_env w"
  using assms by (auto simp: CommitTx_def split: fault.splits)

lemma withTx_elim:
  assumes run: "withTx fn w = (r, w')" and env: "\<And>conn. keeps_env (w_env w) (fn conn)"
  obtains (failed) t where "r = Inl (OtherError t)" and "w_db w' = w_db (begin_session w)"
      and "w_env w' = w_env w"
    | (aborted) e w2 where "r = Inl e"
      and "fn (Tx (now_at (w_env w) (w_tick w))) (tick (begin_session w)) = (Inl e, w2)"
      and "w_db w' = w_db (begin_session w)" and "w_env w' = w_env w"
    | (committed) x w2 where
        "fn (Tx (now_at (w_env w) (w_tick w))) (tick (begin_session w)) = (Inr x, w2)"
      and "w_db w' = w_db w2" and "w_env w' = w_env w"
      and "r = Inr x \<or> (\<exists>t. r = Inl (OtherError t))"
proof (cases "BeginTx w")
  case (Pair b w1)
  then show ?thesis
  proof (cases rule: BeginTx_elim)
    case (fault t)
    with run Pair show ?thesis by (intro failed) (auto simp: withTx_def)
  next
    case ok
    let ?c = "Tx (now_at (w_env w) (w_tick w))"
    obtain q w2 where fn: "fn ?c w1 = (q, w2)" by (cases "fn ?c w1")
    have e2: "w_env w2 = w_env w" using keepsE_run [OF env fn] ok by simp
    show ?thesis
    proof (cases q)
      case (Inl e)
      with run Pair ok fn e2 show ?thesis by (intro aborted) (auto simp: withTx_def)
    next
      case (Inr x)
      obtain k w3 where com: "CommitTx (w_db w1) w2 = (k, w3)" by (cases "CommitTx (w_db w1) w2")
      then show ?thesis
        by (cases rule: CommitTx_elim)
          (use run Pair ok fn Inr com e2 failed committed in \<open>auto simp: withTx_def\<close>)
    qed
  qed
qed

section \<open>Rely and guarantee\<close>

text \<open>
  Other sessions run this program too: what they commit between two of our calls is a
  path of \<open>evolves\<close> steps.  \<open>guarantees m\<close> says the same of \<open>m\<close>, so sessions may be
  composed in any number.
\<close>

definition rely :: "env \<Rightarrow> bool" where
  "rely E \<longleftrightarrow> (\<forall>n d. tables_ok d \<longrightarrow> evolves\<^sup>*\<^sup>* d (env_others E n d))"

definition good :: "world \<Rightarrow> bool" where
  "good w \<longleftrightarrow> tables_ok (w_db w) \<and> rely (w_env w)"

definition leads :: "world \<Rightarrow> world \<Rightarrow> bool" where
  "leads w w' \<longleftrightarrow> evolves\<^sup>*\<^sup>* (w_db w) (w_db w') \<and> w_env w' = w_env w"

abbreviation guarantees :: "'a dbop \<Rightarrow> bool" where
  "guarantees \<equiv> guaranteesE good leads"

lemma leads_refl [simp]: "leads w w"
  by (simp add: leads_def)

lemma leads_trans: "leads u v \<Longrightarrow> leads v w \<Longrightarrow> leads u w"
  by (auto simp: leads_def)

lemma leads_good: "leads w w' \<Longrightarrow> good w \<Longrightarrow> good w'"
  by (auto simp: leads_def good_def intro: evolution.steps_inv)

lemma leads_tick [simp]: "leads w (tick w)"
  by (simp add: leads_def)

lemma leads_session: "good w \<Longrightarrow> leads w (begin_session w)"
  by (simp add: leads_def good_def rely_def)

lemma leads_extends: "good w \<Longrightarrow> leads w w' \<Longrightarrow> extends (w_db w) (w_db w')"
  by (auto simp: leads_def good_def intro: evolution.steps_rel)

interpretation session: shared_store good leads
  by unfold_locales (auto intro: leads_trans leads_good)

lemma guarantees_uuid_New [simp, intro]: "guarantees uuid_New"
  by (simp add: guaranteesE_def)

text \<open>A statement that reads only.\<close>

definition read_only :: "'a stmt \<Rightarrow> bool" where
  "read_only stmt \<longleftrightarrow> (\<forall>now d x d'. stmt now d = Inr (x, d') \<longrightarrow> d' = d)"

lemma guarantees_read: "read_only stmt \<Longrightarrow> guarantees (db_call Pool stmt)"
proof (rule guaranteesEI)
  fix w r w' assume ro: "read_only stmt" and good: "good w" and run: "db_call Pool stmt w = (r, w')"
  from run have "leads (begin_session w) w'"
    unfolding db_call_Pool
  proof (cases rule: run_stmt_elim)
    case (ok x)
    with ro have "w_db w' = w_db (begin_session w)" unfolding read_only_def by blast
    with ok show ?thesis by (simp add: leads_def)
  qed (simp_all add: leads_def)
  with good show "leads w w'" by (blast intro: leads_session leads_trans)
qed

text \<open>The database's clock ticks in whole microseconds.\<close>

lemma now_at_micros [simp]: "pg_micros (now_at E n) = now_at E n"
  by (simp add: pg_micros_def now_at_def)

text \<open>A transaction whose successful body is a path of steps.\<close>

lemma guarantees_withTx:
  assumes env: "\<And>E conn. keeps_env E (fn conn)"
    and body: "\<And>now w x w'. tables_ok (w_db w) \<Longrightarrow> pg_micros now = now \<Longrightarrow>
       fn (Tx now) w = (Inr x, w') \<Longrightarrow> evolves\<^sup>*\<^sup>* (w_db w) (w_db w')"
  shows "guarantees (withTx fn)"
proof (rule guaranteesEI)
  fix w r w' assume good: "good w" and run: "withTx fn w = (r, w')"
  have s: "leads w (begin_session w)" using good by (rule leads_session)
  have ok: "tables_ok (w_db (tick (begin_session w)))"
    using leads_good [OF s good] by (simp add: good_def)
  from run env have "leads (begin_session w) w'"
  proof (cases rule: withTx_elim)
    case (committed x w2)
    from body [OF ok now_at_micros committed(1)] committed show ?thesis by (simp add: leads_def)
  qed (auto simp: leads_def)
  with s show "leads w w'" by (rule leads_trans)
qed

end
