(* ===== verification/RepositoryLaws.thy ===== *)
theory RepositoryLaws
  imports StoreLaws
begin

text \<open>
  The effect of each repository operation on the tables: what a successful transaction
  body has written, and that it is a path of \<open>evolves\<close> steps.
\<close>

section \<open>Statements\<close>

definition new_order_row :: "CreateOrderCommand \<Rightarrow> string \<Rightarrow> time \<Rightarrow> orders_row" where
  "new_order_row cmd cur now =
     \<lparr>o_id = CreateCmd_OrderID cmd, o_customer_id = CreateCmd_CustomerID cmd,
      o_status = StatusPending, o_idempotency_key = CreateCmd_IdempotencyKey cmd,
      o_total_cents = CreateCmd_TotalCents cmd, o_currency = cur,
      o_created_at = now, o_updated_at = now\<rparr>"

definition new_item_row :: "uuid \<Rightarrow> time \<Rightarrow> CreateOrderItemInput \<Rightarrow> order_items_row" where
  "new_item_row oid now it =
     \<lparr>i_id = ItemIn_ID it, i_order_id = oid, i_product_id = ItemIn_ProductID it,
      i_sku = ItemIn_SKU it, i_quantity = ItemIn_Quantity it,
      i_unit_price_cents = ItemIn_UnitPriceCents it, i_created_at = now\<rparr>"

lemma new_item_row_fields [simp]:
  "i_id (new_item_row oid now it) = ItemIn_ID it" "i_order_id (new_item_row oid now it) = oid"
  "i_quantity (new_item_row oid now it) = ItemIn_Quantity it"
  "i_unit_price_cents (new_item_row oid now it) = ItemIn_UnitPriceCents it"
  by (simp_all add: new_item_row_def)

lemma insert_order_Inr:
  "insert_order_row r d = Inr d' \<longleftrightarrow>
     IsValidStatus (o_status r) \<and> 0 \<le> sint (o_total_cents r) \<and> o_id r \<notin> o_id ` set (orders d) \<and>
     (o_customer_id r, o_idempotency_key r) \<notin>
       (\<lambda>x. (o_customer_id x, o_idempotency_key x)) ` set (orders d) \<and>
     d' = d\<lparr>orders := orders d @ [r]\<rparr>"
  by (auto simp: insert_order_row_def)

lemma insert_item_Inr:
  "insert_item_row r d = Inr d' \<longleftrightarrow>
     item_row_ok r \<and> i_id r \<notin> i_id ` set (order_items d) \<and>
     i_order_id r \<in> o_id ` set (orders d) \<and> d' = d\<lparr>order_items := order_items d @ [r]\<rparr>"
  by (auto simp: insert_item_row_def item_row_ok_def)

lemma insert_event_Inr:
  "insert_event_row r d = Inr d' \<longleftrightarrow>
     order_events_actor_type_check (v_actor_type r) \<and> v_id r \<notin> v_id ` set (order_events d) \<and>
     v_order_id r \<in> o_id ` set (orders d) \<and> d' = d\<lparr>order_events := order_events d @ [r]\<rparr>"
  by (auto simp: insert_event_row_def)

text \<open>The row an event statement inserts.\<close>

definition new_event_row :: "CreateOrderEventParams \<Rightarrow> time \<Rightarrow> order_events_row" where
  "new_event_row arg now =
     \<lparr>v_id = the (EventP_ID arg), v_order_id = the (EventP_OrderID arg),
      v_actor_type = EventP_ActorType arg, v_actor_id = EventP_ActorID arg,
      v_from_status = EventP_FromStatus arg, v_to_status = EventP_ToStatus arg,
      v_action = EventP_Action arg, v_reason = EventP_Reason arg,
      v_ip_address = EventP_IpAddress arg, v_created_at = now\<rparr>"

lemma create_event_stmt_Inr:
  assumes "create_event_stmt arg now d = Inr (x, d')"
  shows "insert_event_row (new_event_row arg now) d = Inr d'"
  using assms
  by (auto simp: create_event_stmt_def new_event_row_def Let_def
      split: option.splits if_splits sum.splits)

lemma create_item_stmt_Inr:
  assumes "create_item_stmt \<lparr>ItemP_ID = Some (ItemIn_ID it), ItemP_OrderID = Some oid,
        ItemP_ProductID = Some (ItemIn_ProductID it), ItemP_Sku = ItemIn_SKU it,
        ItemP_Quantity = ItemIn_Quantity it,
        ItemP_UnitPriceCents = ItemIn_UnitPriceCents it\<rparr> now d = Inr (x, d')"
  shows "insert_item_row (new_item_row oid now it) d = Inr d'"
    and "x = scan_item (new_item_row oid now it)"
  using assms
  by (auto simp: create_item_stmt_def new_item_row_def Let_def split: if_splits sum.splits)

lemma create_order_stmt_Inr:
  assumes "create_order_stmt \<lparr>CreateP_ID = Some (CreateCmd_OrderID cmd),
        CreateP_CustomerID = Some (CreateCmd_CustomerID cmd), CreateP_Status = StatusPending,
        CreateP_IdempotencyKey = CreateCmd_IdempotencyKey cmd,
        CreateP_TotalCents = CreateCmd_TotalCents cmd,
        CreateP_Currency = CreateCmd_Currency cmd\<rparr> now d = Inr (x, d')"
  obtains cur where "pg_char3 (CreateCmd_Currency cmd) = Some cur"
    and "insert_order_row (new_order_row cmd cur now) d = Inr d'"
    and "x = scan_order (new_order_row cmd cur now)"
  using assms
  by (auto simp: create_order_stmt_def new_order_row_def Let_def
      split: option.splits if_splits sum.splits)

section \<open>Creating an order\<close>

lemma create_items_effect:
  assumes "create_items (Tx now) (Some oid) its w = (Inr xs, w')"
    and "oid \<in> o_id ` set (orders (w_db w))"
  shows "w_db w' = (w_db w)\<lparr>order_items := order_items (w_db w) @ map (new_item_row oid now) its\<rparr> \<and>
         xs = map (\<lambda>it. scan_item (new_item_row oid now it)) its \<and>
         (\<forall>it \<in> set its. item_row_ok (new_item_row oid now it)) \<and>
         distinct (map ItemIn_ID its) \<and> ItemIn_ID ` set its \<inter> i_id ` set (order_items (w_db w)) = {}"
  using assms
proof (induction its arbitrary: w xs)
  case Nil
  then show ?case by (simp add: create_items_def)
next
  case (Cons it its)
  from Cons.prems(1) obtain x w1 ys where
    first: "Queries_CreateOrderItem (Tx now)
       \<lparr>ItemP_ID = Some (ItemIn_ID it), ItemP_OrderID = Some oid,
        ItemP_ProductID = Some (ItemIn_ProductID it), ItemP_Sku = ItemIn_SKU it,
        ItemP_Quantity = ItemIn_Quantity it,
        ItemP_UnitPriceCents = ItemIn_UnitPriceCents it\<rparr> w = (Inr x, w1)" and
    rest: "create_items (Tx now) (Some oid) its w1 = (Inr ys, w')" and xs: "xs = x # ys"
    by (auto simp: create_items_def elim!: bindE_InrE)
  from first have stmt: "insert_item_row (new_item_row oid now it) (w_db w) = Inr (w_db w1)"
      and x: "x = scan_item (new_item_row oid now it)"
    unfolding Queries_CreateOrderItem_def db_call_Tx
    by (auto elim!: run_stmt_InrE dest: create_item_stmt_Inr)
  have "oid \<in> o_id ` set (orders (w_db w1))" using stmt Cons.prems(2) by (auto simp: insert_item_Inr)
  from Cons.IH [OF rest this] stmt x xs show ?case
    by (auto simp: insert_item_Inr)
qed

text \<open>The total the caller puts in the command is the sum over its items.\<close>

definition command_total_ok :: "CreateOrderCommand \<Rightarrow> bool" where
  "command_total_ok cmd \<longleftrightarrow>
     CreateCmd_Items cmd \<noteq> [] \<and>
     sint (CreateCmd_TotalCents cmd) =
       (\<Sum>it \<leftarrow> CreateCmd_Items cmd. sint (ItemIn_UnitPriceCents it) * sint (ItemIn_Quantity it))"

definition created_event :: "CreateOrderCommand \<Rightarrow> uuid \<Rightarrow> time \<Rightarrow> order_events_row" where
  "created_event cmd vid now =
     \<lparr>v_id = vid, v_order_id = CreateCmd_OrderID cmd, v_actor_type = actorTypeCustomer,
      v_actor_id = CreateCmd_ActorID cmd, v_from_status = None, v_to_status = Some StatusPending,
      v_action = actionCreated, v_reason = CreateCmd_Reason cmd,
      v_ip_address = inetValue (CreateCmd_IPAddress cmd), v_created_at = now\<rparr>"

lemma create_tx_effect:
  assumes "create_tx cmd (Tx now) w = (Inr res, w')"
  obtains cur vid where "pg_char3 (CreateCmd_Currency cmd) = Some cur"
    and "w_db w' = place_order (new_order_row cmd cur now)
           (map (new_item_row (CreateCmd_OrderID cmd) now) (CreateCmd_Items cmd))
           (created_event cmd vid now) (w_db w)"
    and "res = \<lparr>CreateRes_Order = scan_order (new_order_row cmd cur now),
           CreateRes_Items = map (\<lambda>it. scan_item (new_item_row (CreateCmd_OrderID cmd) now it))
             (CreateCmd_Items cmd)\<rparr>"
    and "CreateCmd_OrderID cmd \<notin> o_id ` set (orders (w_db w))"
    and "(CreateCmd_CustomerID cmd, CreateCmd_IdempotencyKey cmd) \<notin>
           (\<lambda>x. (o_customer_id x, o_idempotency_key x)) ` set (orders (w_db w))"
    and "\<forall>it \<in> set (CreateCmd_Items cmd).
           item_row_ok (new_item_row (CreateCmd_OrderID cmd) now it)"
    and "distinct (map ItemIn_ID (CreateCmd_Items cmd))"
    and "ItemIn_ID ` set (CreateCmd_Items cmd) \<inter> i_id ` set (order_items (w_db w)) = {}"
    and "vid \<notin> v_id ` set (order_events (w_db w))"
proof -
  let ?oid = "CreateCmd_OrderID cmd"
  from assms obtain o1 w1 its w2 vid ev w3 where
    q1: "Queries_CreateOrder (Tx now)
       \<lparr>CreateP_ID = Some ?oid, CreateP_CustomerID = Some (CreateCmd_CustomerID cmd),
        CreateP_Status = StatusPending, CreateP_IdempotencyKey = CreateCmd_IdempotencyKey cmd,
        CreateP_TotalCents = CreateCmd_TotalCents cmd, CreateP_Currency = CreateCmd_Currency cmd\<rparr> w
       = (Inr o1, w1)" and
    q2: "create_items (Tx now) (Order_ID o1) (CreateCmd_Items cmd) w1 = (Inr its, w2)" and
    vid: "vid = env_uuid (w_env w2) (w_tick w2)" and
    q3: "Queries_CreateOrderEvent (Tx now)
       \<lparr>EventP_ID = Some vid, EventP_OrderID = Order_ID o1, EventP_ActorType = actorTypeCustomer,
        EventP_ActorID = CreateCmd_ActorID cmd, EventP_FromStatus = None,
        EventP_ToStatus = Some StatusPending, EventP_Action = actionCreated,
        EventP_Reason = CreateCmd_Reason cmd, EventP_IpAddress = inetValue (CreateCmd_IPAddress cmd)\<rparr>
       (tick w2) = (Inr ev, w3)" and
    res: "res = \<lparr>CreateRes_Order = o1, CreateRes_Items = its\<rparr>" and w': "w' = w3"
    by (auto simp: create_tx_def elim!: bindE_InrE)
  from q1 obtain cur where cur: "pg_char3 (CreateCmd_Currency cmd) = Some cur"
    and ins: "insert_order_row (new_order_row cmd cur now) (w_db w) = Inr (w_db w1)"
    and o1: "o1 = scan_order (new_order_row cmd cur now)"
    unfolding Queries_CreateOrder_def db_call_Tx
    by (auto elim!: run_stmt_InrE create_order_stmt_Inr)
  have oid: "Order_ID o1 = Some ?oid" using o1 by (simp add: scan_order_def new_order_row_def)
  have mem: "?oid \<in> o_id ` set (orders (w_db w1))"
    using ins by (simp add: insert_order_Inr new_order_row_def)
  note items = create_items_effect [OF q2 [unfolded oid] mem]
  from q3 have evs: "insert_event_row (created_event cmd vid now) (w_db w2) = Inr (w_db w3)"
    unfolding Queries_CreateOrderEvent_def db_call_Tx
    by (auto elim!: run_stmt_InrE dest!: create_event_stmt_Inr
        simp: new_event_row_def created_event_def oid)
  have db1: "w_db w1 = (w_db w)\<lparr>orders := orders (w_db w) @ [new_order_row cmd cur now]\<rparr>"
    using ins by (simp add: insert_order_Inr)
  have db: "w_db w' = place_order (new_order_row cmd cur now)
       (map (new_item_row ?oid now) (CreateCmd_Items cmd)) (created_event cmd vid now) (w_db w)"
    using evs items w' db1 by (simp add: insert_event_Inr place_order_def)
  show ?thesis
  proof (rule that [OF cur db])
    show "vid \<notin> v_id ` set (order_events (w_db w))"
      using evs items db1 by (simp add: insert_event_Inr created_event_def)
  qed (use ins items res o1 db1 in \<open>simp_all add: insert_order_Inr new_order_row_def\<close>)
qed

lemma create_tx_evolves:
  assumes "create_tx cmd (Tx now) w = (Inr res, w')" and "command_total_ok cmd" and "pg_micros now = now"
  shows "evolves (w_db w) (w_db w')"
  using assms(1)
proof (rule create_tx_effect)
  fix cur vid
  let ?r = "new_order_row cmd cur now"
  let ?its = "map (new_item_row (CreateCmd_OrderID cmd) now) (CreateCmd_Items cmd)"
  assume db: "w_db w' = place_order ?r ?its (created_event cmd vid now) (w_db w)"
    and facts: "CreateCmd_OrderID cmd \<notin> o_id ` set (orders (w_db w))"
      "(CreateCmd_CustomerID cmd, CreateCmd_IdempotencyKey cmd) \<notin>
         (\<lambda>x. (o_customer_id x, o_idempotency_key x)) ` set (orders (w_db w))"
      "\<forall>it \<in> set (CreateCmd_Items cmd). item_row_ok (new_item_row (CreateCmd_OrderID cmd) now it)"
      "distinct (map ItemIn_ID (CreateCmd_Items cmd))"
      "ItemIn_ID ` set (CreateCmd_Items cmd) \<inter> i_id ` set (order_items (w_db w)) = {}"
      "vid \<notin> v_id ` set (order_events (w_db w))"
  show ?thesis unfolding db
  proof (rule evolves.placed)
    show "distinct (map i_id ?its)" using facts(4) by (simp add: comp_def)
    show "i_id ` set ?its \<inter> i_id ` set (order_items (w_db w)) = {}"
      using facts(5) by (simp add: image_image)
    show "sint (o_total_cents ?r) = items_total ?its" using assms(2)
      by (simp add: command_total_ok_def new_order_row_def items_total_def comp_def)
  qed (use facts assms(2,3) in
      \<open>simp_all add: new_order_row_def created_event_def command_total_ok_def\<close>)
qed


section \<open>Moving one order\<close>

lemma one_row_update:
  assumes run: "one_row (update_orders P s now d) = Inr (x, d')"
    and P: "\<And>r. P r \<Longrightarrow> o_id r = oid" and keys: "distinct (map o_id (orders d))"
  obtains r where "r \<in> set (orders d)" and "P r" and "x = scan_order (set_status s now r)"
    and "d' = d\<lparr>orders := map (\<lambda>r. if o_id r = oid then set_status s now r else r) (orders d)\<rparr>"
proof -
  from run obtain r rs where r: "filter P (orders d) = r # rs"
    and x: "x = scan_order (set_status s now r)"
    and d': "d' = d\<lparr>orders := map (\<lambda>r. if P r then set_status s now r else r) (orders d)\<rparr>"
    by (auto simp: one_row_def update_orders_def split: list.splits)
  have "r \<in> set (filter P (orders d))" using r by simp
  then have mem: "r \<in> set (orders d)" "P r" by simp_all
  have "P y \<longleftrightarrow> o_id y = oid" if "y \<in> set (orders d)" for y
    using that mem P keys by (metis distinct_map_inj_on_set)
  then have "map (\<lambda>r. if P r then set_status s now r else r) (orders d) =
      map (\<lambda>r. if o_id r = oid then set_status s now r else r) (orders d)"
    by simp
  with d' mem x show ?thesis by (intro that) simp_all
qed

text \<open>An update that finds no row has changed nothing.\<close>

lemma one_row_NoRows:
  "one_row (update_orders P s now d) = Inl e \<longleftrightarrow>
     e = Sentinel PgxErrNoRows \<and> (\<forall>r \<in> set (orders d). \<not> P r)"
proof (cases "filter P (orders d)")
  case Nil
  then show ?thesis by (auto simp: one_row_def update_orders_def filter_empty_conv)
next
  case (Cons r rs)
  then have "r \<in> set (filter P (orders d))" by simp
  then have "r \<in> set (orders d) \<and> P r" by simp
  with Cons show ?thesis by (auto simp: one_row_def update_orders_def)
qed

text \<open>The event of a move, and the second half of every move transaction: draw an id,
  insert the event.\<close>

definition move_event ::
    "uuid \<Rightarrow> uuid \<Rightarrow> string \<Rightarrow> uuid option \<Rightarrow> string \<Rightarrow> string \<Rightarrow> string \<Rightarrow> string option \<Rightarrow>
     netip_Addr option \<Rightarrow> time \<Rightarrow> order_events_row" where
  "move_event vid oid actor actorID from to action reason ip now =
     \<lparr>v_id = vid, v_order_id = oid, v_actor_type = actor, v_actor_id = actorID,
      v_from_status = Some from, v_to_status = Some to, v_action = action, v_reason = reason,
      v_ip_address = ip, v_created_at = now\<rparr>"

lemma move_event_fields [simp]:
  "v_id (move_event vid oid a ai f t act re ip now) = vid"
  "v_order_id (move_event vid oid a ai f t act re ip now) = oid"
  "v_from_status (move_event vid oid a ai f t act re ip now) = Some f"
  "v_to_status (move_event vid oid a ai f t act re ip now) = Some t"
  "v_actor_type (move_event vid oid a ai f t act re ip now) = a"
  "v_action (move_event vid oid a ai f t act re ip now) = act"
  by (simp_all add: move_event_def)

lemma CreateOrderEvent_effect:
  assumes "Queries_CreateOrderEvent (Tx now)
       \<lparr>EventP_ID = Some vid, EventP_OrderID = Some oid, EventP_ActorType = actor,
        EventP_ActorID = actorID, EventP_FromStatus = Some from, EventP_ToStatus = Some to,
        EventP_Action = action, EventP_Reason = reason, EventP_IpAddress = ip\<rparr> w = (Inr x, w')"
  shows "insert_event_row (move_event vid oid actor actorID from to action reason ip now) (w_db w) =
     Inr (w_db w')"
  using assms unfolding Queries_CreateOrderEvent_def db_call_Tx
  by (auto elim!: run_stmt_InrE dest!: create_event_stmt_Inr
      simp: new_event_row_def move_event_def)

lemma cancel_tx_effect:
  assumes run: "cancel_tx cmd (Tx now) w = (Inr x, w')" and ok: "tables_ok (w_db w)"
  obtains r vid where "r \<in> set (orders (w_db w))" and "o_id r = CancelCmd_OrderID cmd"
    and "o_customer_id r = CancelCmd_CustomerID cmd" and "o_status r = StatusPending"
    and "x = scan_order (set_status StatusCancelled now r)"
    and "vid \<notin> v_id ` set (order_events (w_db w))"
    and "w_db w' = move_order (o_id r) StatusCancelled now
           (move_event vid (o_id r) actorTypeCustomer (CancelCmd_ActorID cmd) StatusPending
              StatusCancelled actionCancelled (CancelCmd_Reason cmd)
              (inetValue (CancelCmd_IPAddress cmd)) now) (w_db w)"
proof -
  from run obtain o1 w1 vid y w2 where
    q1: "Queries_CancelPendingOrder (Tx now)
       \<lparr>CancelP_ID = Some (CancelCmd_OrderID cmd), CancelP_CustomerID = Some (CancelCmd_CustomerID cmd)\<rparr> w
       = (Inr o1, w1)" and
    q2: "Queries_CreateOrderEvent (Tx now)
       \<lparr>EventP_ID = Some vid, EventP_OrderID = Order_ID o1, EventP_ActorType = actorTypeCustomer,
        EventP_ActorID = CancelCmd_ActorID cmd, EventP_FromStatus = Some StatusPending,
        EventP_ToStatus = Some StatusCancelled, EventP_Action = actionCancelled,
        EventP_Reason = CancelCmd_Reason cmd, EventP_IpAddress = inetValue (CancelCmd_IPAddress cmd)\<rparr>
       (tick w1) = (Inr y, w2)" and
    fin: "x = o1" "w' = w2"
    by (auto simp: cancel_tx_def elim!: bindE_InrE)
  have keys: "distinct (map o_id (orders (w_db w)))" using ok by (simp add: tables_ok_def keys_ok_def)
  from q1 obtain r where r: "r \<in> set (orders (w_db w))" "o_id r = CancelCmd_OrderID cmd"
      "o_customer_id r = CancelCmd_CustomerID cmd" "o_status r = StatusPending"
    and o1: "o1 = scan_order (set_status StatusCancelled now r)"
    and d1: "w_db w1 = (w_db w)\<lparr>orders := map (\<lambda>r. if o_id r = CancelCmd_OrderID cmd
        then set_status StatusCancelled now r else r) (orders (w_db w))\<rparr>"
    unfolding Queries_CancelPendingOrder_def db_call_Tx
    by (elim run_stmt_InrE one_row_update [OF _ _ keys, of _ _ _ _ _ "CancelCmd_OrderID cmd"])
      (auto simp: pgUUID_eq_def)
  have "Order_ID o1 = Some (o_id r)" using o1 by (simp add: scan_order_def)
  from CreateOrderEvent_effect [OF q2 [unfolded this]] d1 fin r o1 show ?thesis
    by (intro that [of r vid]) (auto simp: insert_event_Inr move_order_def)
qed

lemma cancel_tx_evolves:
  assumes "cancel_tx cmd (Tx now) w = (Inr x, w')" and "tables_ok (w_db w)"
  shows "evolves (w_db w) (w_db w')"
  using assms
proof (rule cancel_tx_effect)
  fix r vid
  assume "w_db w' = move_order (o_id r) StatusCancelled now
      (move_event vid (o_id r) actorTypeCustomer (CancelCmd_ActorID cmd) StatusPending
         StatusCancelled actionCancelled (CancelCmd_Reason cmd)
         (inetValue (CancelCmd_IPAddress cmd)) now) (w_db w)"
    and "r \<in> set (orders (w_db w))" "o_status r = StatusPending"
      "vid \<notin> v_id ` set (order_events (w_db w))"
  then show ?thesis
    by (simp add: evolves.moved attributed_def)
qed

lemma update_tx_effect:
  assumes run: "update_tx cmd (Tx now) w = (Inr x, w')" and ok: "tables_ok (w_db w)"
    and st: "CanTransition (UpdateCmd_ExpectedStatus cmd) (UpdateCmd_NewStatus cmd)"
  obtains r vid where "r \<in> set (orders (w_db w))" and "o_id r = UpdateCmd_OrderID cmd"
    and "o_status r = UpdateCmd_ExpectedStatus cmd"
    and "x = scan_order (set_status (UpdateCmd_NewStatus cmd) now r)"
    and "vid \<notin> v_id ` set (order_events (w_db w))"
    and "w_db w' = move_order (o_id r) (UpdateCmd_NewStatus cmd) now
           (move_event vid (o_id r) (UpdateCmd_ActorType cmd) (UpdateCmd_ActorID cmd)
              (UpdateCmd_ExpectedStatus cmd) (UpdateCmd_NewStatus cmd) actionStatusUpdated
              (UpdateCmd_Reason cmd) (inetValue (UpdateCmd_IPAddress cmd)) now) (w_db w)"
proof -
  let ?f = "UpdateCmd_ExpectedStatus cmd" and ?t = "UpdateCmd_NewStatus cmd"
  have ne: "?f \<noteq> []" "?t \<noteq> []" using st by (auto simp: CanTransition_iff)
  from run ne obtain o1 w1 vid y w2 where
    q1: "Queries_UpdateOrderStatusIfCurrentStatusMatches (Tx now)
       \<lparr>UpdateP_ID = Some (UpdateCmd_OrderID cmd), UpdateP_Status = ?f, UpdateP_Status_2 = ?t\<rparr> w
       = (Inr o1, w1)" and
    q2: "Queries_CreateOrderEvent (Tx now)
       \<lparr>EventP_ID = Some vid, EventP_OrderID = Order_ID o1, EventP_ActorType = UpdateCmd_ActorType cmd,
        EventP_ActorID = UpdateCmd_ActorID cmd, EventP_FromStatus = Some ?f,
        EventP_ToStatus = Some ?t, EventP_Action = actionStatusUpdated,
        EventP_Reason = UpdateCmd_Reason cmd, EventP_IpAddress = inetValue (UpdateCmd_IPAddress cmd)\<rparr>
       (tick w1) = (Inr y, w2)" and
    fin: "x = o1" "w' = w2"
    by (auto simp: update_tx_def elim!: bindE_InrE)
  have keys: "distinct (map o_id (orders (w_db w)))" using ok by (simp add: tables_ok_def keys_ok_def)
  let ?P = "\<lambda>r. pgUUID_eq (o_id r) (Some (UpdateCmd_OrderID cmd)) \<and> o_status r = ?f"
  from q1 have "one_row (update_orders ?P ?t now (w_db w)) = Inr (o1, w_db w1)"
    unfolding Queries_UpdateOrderStatusIfCurrentStatusMatches_def db_call_Tx
    by (auto elim!: run_stmt_InrE simp: Let_def split: if_splits)
  then obtain r where r: "r \<in> set (orders (w_db w))" "o_id r = UpdateCmd_OrderID cmd" "o_status r = ?f"
    and o1: "o1 = scan_order (set_status ?t now r)"
    and d1: "w_db w1 = (w_db w)\<lparr>orders := map (\<lambda>r. if o_id r = UpdateCmd_OrderID cmd
        then set_status ?t now r else r) (orders (w_db w))\<rparr>"
    by (elim one_row_update [OF _ _ keys, of _ _ _ _ _ "UpdateCmd_OrderID cmd"])
      (auto simp: pgUUID_eq_def)
  have "Order_ID o1 = Some (o_id r)" using o1 by (simp add: scan_order_def)
  from CreateOrderEvent_effect [OF q2 [unfolded this]] d1 fin r o1 show ?thesis
    by (intro that [of r vid]) (auto simp: insert_event_Inr move_order_def)
qed

lemma update_tx_evolves:
  assumes "update_tx cmd (Tx now) w = (Inr x, w')" and "tables_ok (w_db w)"
    and "CanTransition (UpdateCmd_ExpectedStatus cmd) (UpdateCmd_NewStatus cmd)"
    and "UpdateCmd_ActorType cmd \<in> {''ADMIN'', ''SYSTEM''}"
  shows "evolves (w_db w) (w_db w')"
  using assms(1-3)
proof (rule update_tx_effect)
  fix r vid
  assume "w_db w' = move_order (o_id r) (UpdateCmd_NewStatus cmd) now
      (move_event vid (o_id r) (UpdateCmd_ActorType cmd) (UpdateCmd_ActorID cmd)
         (UpdateCmd_ExpectedStatus cmd) (UpdateCmd_NewStatus cmd) actionStatusUpdated
         (UpdateCmd_Reason cmd) (inetValue (UpdateCmd_IPAddress cmd)) now) (w_db w)"
    and "r \<in> set (orders (w_db w))" "o_status r = UpdateCmd_ExpectedStatus cmd"
      "vid \<notin> v_id ` set (order_events (w_db w))"
  with assms(3,4) show ?thesis
    by (simp add: evolves.moved attributed_def)
qed

section \<open>Moving a batch\<close>

lemma picked_orders_subset:
  assumes "oid \<in> set (picked_orders locked n d)"
  obtains r where "r \<in> set (orders d)" and "o_id r = oid" and "o_status r = StatusPending"
    and "\<not> locked oid"
  using assms unfolding picked_orders_def
  by (auto dest!: in_set_takeD)

lemma picked_orders_distinct: "distinct (map o_id (orders d)) \<Longrightarrow> distinct (picked_orders locked n d)"
proof -
  assume "distinct (map o_id (orders d))"
  let ?rs = "filter (\<lambda>r. o_status r = StatusPending \<and> \<not> locked (o_id r)) (orders d)"
  have "distinct (map o_id ?rs)" using \<open>distinct (map o_id (orders d))\<close> by (rule distinct_map_filter)
  then have "distinct (map o_id (sort_key order_key ?rs))"
    by (simp add: distinct_map)
  then show ?thesis unfolding picked_orders_def take_map [symmetric] by (rule distinct_take)
qed

lemma mapE_batch_effect:
  assumes "mapE (batch_event cmd (Tx now)) (map scan_order rs) w = (Inr ys, w')"
  shows "\<exists>es. w_db w' = (w_db w)\<lparr>order_events := order_events (w_db w) @ es\<rparr> \<and>
     map v_order_id es = map o_id rs \<and> distinct (map v_id es) \<and>
     v_id ` set es \<inter> v_id ` set (order_events (w_db w)) = {} \<and>
     list_all2 (event_of_move StatusPending StatusProcessing) (map o_id rs) es \<and>
     (\<forall>e \<in> set es. v_actor_type e = actorTypeSystem \<and> v_action e = actionWorkerMovedToProcessing)"
  using assms
proof (induction rs arbitrary: w ys)
  case Nil
  then show ?case by (intro exI [of _ "[]"]) simp
next
  case (Cons r rs)
  let ?ev = "\<lambda>vid. move_event vid (o_id r) actorTypeSystem (BatchCmd_ActorID cmd) StatusPending
      StatusProcessing actionWorkerMovedToProcessing (BatchCmd_Reason cmd)
      (inetValue (BatchCmd_IPAddress cmd)) now"
  from Cons.prems obtain x w1 zs vid where
    q: "Queries_CreateOrderEvent (Tx now)
       \<lparr>EventP_ID = Some vid, EventP_OrderID = Order_ID (scan_order r), EventP_ActorType = actorTypeSystem,
        EventP_ActorID = BatchCmd_ActorID cmd, EventP_FromStatus = Some StatusPending,
        EventP_ToStatus = Some StatusProcessing, EventP_Action = actionWorkerMovedToProcessing,
        EventP_Reason = BatchCmd_Reason cmd, EventP_IpAddress = inetValue (BatchCmd_IPAddress cmd)\<rparr>
       (tick w) = (Inr x, w1)" and
    rest: "mapE (batch_event cmd (Tx now)) (map scan_order rs) w1 = (Inr zs, w')"
    by (auto simp: batch_event_def [of cmd "Tx now" "scan_order r"] elim!: bindE_InrE)
  have "Order_ID (scan_order r) = Some (o_id r)" by (simp add: scan_order_def)
  from CreateOrderEvent_effect [OF q [unfolded this]]
  have ins: "insert_event_row (?ev vid) (w_db w) = Inr (w_db w1)" by simp
  from Cons.IH [OF rest] obtain es where es:
    "w_db w' = (w_db w1)\<lparr>order_events := order_events (w_db w1) @ es\<rparr>"
    "map v_order_id es = map o_id rs" "distinct (map v_id es)"
    "v_id ` set es \<inter> v_id ` set (order_events (w_db w1)) = {}"
    "list_all2 (event_of_move StatusPending StatusProcessing) (map o_id rs) es"
    "\<forall>e \<in> set es. v_actor_type e = actorTypeSystem \<and> v_action e = actionWorkerMovedToProcessing"
    by blast
  have "event_of_move StatusPending StatusProcessing (o_id r) (?ev vid)"
    by (simp add: event_of_move_def attributed_def)
  with es ins show ?case
    by (intro exI [of _ "?ev vid # es"]) (auto simp: insert_event_Inr)
qed

lemma batch_tx_effect:
  assumes run: "batch_tx cmd (Tx now) w = (Inr xs, w')" and ok: "tables_ok (w_db w)"
  defines "ids \<equiv> picked_orders (env_locked (w_env w) (w_tick w)) (nat (sint (BatchCmd_Limit cmd))) (w_db w)"
  obtains es where "w_db w' = move_all ids StatusProcessing now es (w_db w)"
    and "xs = map scan_order (map (set_status StatusProcessing now)
           (filter (\<lambda>r. o_id r \<in> set ids) (orders (w_db w))))"
    and "0 \<le> sint (BatchCmd_Limit cmd)"
    and "mset (map v_order_id es) = mset ids" and "length es = length ids"
    and "distinct (map v_id es)" and "v_id ` set es \<inter> v_id ` set (order_events (w_db w)) = {}"
    and "list_all2 (event_of_move StatusPending StatusProcessing) (map v_order_id es) es"
    and "\<forall>e \<in> set es. v_actor_type e = actorTypeSystem \<and> v_action e = actionWorkerMovedToProcessing"
proof -
  let ?rows = "filter (\<lambda>r. o_id r \<in> set ids) (orders (w_db w))"
  let ?moved = "map (set_status StatusProcessing now) ?rows"
  from run obtain w1 ys where
    pick: "Queries_WorkerPickAndMovePendingOrdersToProcessing (Tx now) (BatchCmd_Limit cmd) w = (Inr xs, w1)"
    and rest: "mapE (batch_event cmd (Tx now)) xs w1 = (Inr ys, w')"
    by (auto simp: batch_tx_def elim!: bindE_InrE)
  from pick have stmt: "pick_and_move_stmt (env_locked (w_env w) (w_tick w)) (BatchCmd_Limit cmd) now (w_db w) =
      Inr (xs, w_db w1)"
    unfolding Queries_WorkerPickAndMovePendingOrdersToProcessing_def db_call_Tx
    by (rule run_stmt_InrE)
  then have lim: "0 \<le> sint (BatchCmd_Limit cmd)"
    by (simp add: pick_and_move_stmt_def split: if_splits)
  with stmt have "(map scan_order ?moved, (w_db w)\<lparr>orders := map (\<lambda>r. if o_id r \<in> set ids
        then set_status StatusProcessing now r else r) (orders (w_db w))\<rparr>) = (xs, w_db w1)"
    unfolding pick_and_move_stmt_def update_orders_def ids_def by (simp add: Let_def)
  then have xs: "xs = map scan_order ?moved"
    and d1: "w_db w1 = (w_db w)\<lparr>orders := map (\<lambda>r. if o_id r \<in> set ids
        then set_status StatusProcessing now r else r) (orders (w_db w))\<rparr>" by simp_all
  have keys: "distinct (map o_id (orders (w_db w)))" using ok by (simp add: tables_ok_def keys_ok_def)
  have "set ids \<subseteq> o_id ` set (orders (w_db w))"
    unfolding ids_def by (auto elim!: picked_orders_subset)
  then have same: "set (map o_id ?rows) = set ids" by auto
  have "distinct (map o_id ?rows)" using keys by (rule distinct_map_filter)
  moreover have "distinct ids" unfolding ids_def using keys by (rule picked_orders_distinct)
  ultimately have ids: "mset (map o_id ?rows) = mset ids"
    using same by (rule set_eq_iff_mset_eq_distinct [THEN iffD1])
  from mapE_batch_effect [OF rest [unfolded xs]] obtain es where es:
    "w_db w' = (w_db w1)\<lparr>order_events := order_events (w_db w1) @ es\<rparr>"
    "map v_order_id es = map o_id ?moved" "distinct (map v_id es)"
    "v_id ` set es \<inter> v_id ` set (order_events (w_db w1)) = {}"
    "list_all2 (event_of_move StatusPending StatusProcessing) (map o_id ?moved) es"
    "\<forall>e \<in> set es. v_actor_type e = actorTypeSystem \<and> v_action e = actionWorkerMovedToProcessing"
    by blast
  have moved: "map o_id ?moved = map o_id ?rows" by simp
  show ?thesis
  proof (rule that)
    show "w_db w' = move_all ids StatusProcessing now es (w_db w)"
      using es(1) d1 by (simp add: move_all_def)
    show m: "mset (map v_order_id es) = mset ids" using es(2) ids moved by metis
    then show "length es = length ids" by (metis length_map mset_eq_length)
    show "list_all2 (event_of_move StatusPending StatusProcessing) (map v_order_id es) es"
      using es(2,5) by simp
  qed (use es d1 xs lim in simp_all)
qed

lemma batch_tx_evolves:
  assumes "batch_tx cmd (Tx now) w = (Inr xs, w')" and ok: "tables_ok (w_db w)"
  shows "evolves\<^sup>*\<^sup>* (w_db w) (w_db w')"
  using assms
proof (rule batch_tx_effect)
  let ?ids = "picked_orders (env_locked (w_env w) (w_tick w)) (nat (sint (BatchCmd_Limit cmd))) (w_db w)"
  fix es
  assume db: "w_db w' = move_all ?ids StatusProcessing now es (w_db w)"
    and m: "mset (map v_order_id es) = mset ?ids"
    and es: "distinct (map v_id es)" "v_id ` set es \<inter> v_id ` set (order_events (w_db w)) = {}"
      "list_all2 (event_of_move StatusPending StatusProcessing) (map v_order_id es) es"
  have set: "set (map v_order_id es) = set ?ids" using m by (metis mset_eq_setD)
  have "distinct ?ids"
    using ok by (intro picked_orders_distinct) (simp add: tables_ok_def keys_ok_def)
  then have dist: "distinct (map v_order_id es)" using m by (metis mset_eq_imp_distinct_iff)
  have "evolves\<^sup>*\<^sup>* (w_db w) (move_all (map v_order_id es) StatusProcessing now es (w_db w))"
  proof (rule move_all_evolves [OF es(3) dist])
    show "\<forall>oid \<in> set (map v_order_id es). \<exists>r \<in> set (orders (w_db w)). o_id r = oid \<and> o_status r = StatusPending"
      unfolding set by (auto elim!: picked_orders_subset)
  qed (use es in simp_all)
  then show ?thesis unfolding db move_all_def set .
qed

section \<open>Every repository operation guarantees the specification\<close>

lemma read_only_queries [simp]:
  "read_only (\<lambda>now d. one_row (take n (filter P (orders d)), d))"
  "read_only (\<lambda>now d. Inr (f d, d))"
  "read_only (list_page Q limit)"
  "read_only (\<lambda>now d. if b then Inl e else list_page Q limit now d)"
  by (auto simp: read_only_def one_row_def list_page_def split: list.splits if_splits)

lemma guarantees_get [simp, intro]: "guarantees (Repository_GetOrderByIDAndCustomerID oid cid)"
  unfolding Repository_GetOrderByIDAndCustomerID_def query_defs by (rule guarantees_read) simp

lemma guarantees_list [simp, intro]: "guarantees (Repository_ListOrders cmd)"
  unfolding Repository_ListOrders_def query_defs by (auto intro!: guarantees_read)

lemma guarantees_items [simp, intro]: "guarantees (Repository_GetOrderItemsByOrderID oid)"
  unfolding Repository_GetOrderItemsByOrderID_def query_defs by (rule guarantees_read) simp

lemma guarantees_events [simp, intro]: "guarantees (Repository_GetOrderEventsByOrderID oid)"
  unfolding Repository_GetOrderEventsByOrderID_def query_defs by (rule guarantees_read) simp

lemma guarantees_create [intro]:
  "command_total_ok cmd \<Longrightarrow> guarantees (Repository_CreateOrderWithItemsAndAudit cmd)"
  unfolding Repository_CreateOrderWithItemsAndAudit_def
  by (rule guarantees_withTx) (auto intro: create_tx_evolves)

lemma guarantees_cancel [simp, intro]: "guarantees (Repository_CancelOrderWithAudit cmd)"
  unfolding Repository_CancelOrderWithAudit_def
  by (rule guarantees_withTx) (auto intro: cancel_tx_evolves)

lemma guarantees_update [intro]:
  "CanTransition (UpdateCmd_ExpectedStatus cmd) (UpdateCmd_NewStatus cmd) \<Longrightarrow>
   UpdateCmd_ActorType cmd \<in> {''ADMIN'', ''SYSTEM''} \<Longrightarrow>
   guarantees (Repository_UpdateOrderStatusWithAudit cmd)"
  unfolding Repository_UpdateOrderStatusWithAudit_def
  by (rule guarantees_withTx) (auto intro: update_tx_evolves)

lemma guarantees_batch [simp, intro]: "guarantees (Repository_ProcessPendingOrdersBatchWithAudit cmd)"
  unfolding Repository_ProcessPendingOrdersBatchWithAudit_def
  by (rule guarantees_withTx) (auto intro: batch_tx_evolves)

end
