(* ===== verification/ServiceLaws.thy ===== *)
theory ServiceLaws
  imports Service RepositoryLaws
begin

text \<open>
  The \<open>serviceRepository\<close> interface as a contract, the service's properties proved from
  the contract alone, and the contract discharged for the PostgreSQL repository.
\<close>

section \<open>Conflicts the database reports\<close>

text \<open>The tables hold an order of this customer under this key.\<close>

definition key_taken :: "tables \<Rightarrow> uuid \<Rightarrow> string \<Rightarrow> bool" where
  "key_taken d cid key \<longleftrightarrow> (\<exists>r \<in> set (orders d). o_customer_id r = cid \<and> o_idempotency_key r = key)"

definition owned_order :: "tables \<Rightarrow> uuid \<Rightarrow> uuid \<Rightarrow> orders_row \<Rightarrow> bool" where
  "owned_order d oid cid r \<longleftrightarrow> r \<in> set (orders d) \<and> o_id r = oid \<and> o_customer_id r = cid"

definition order_exists :: "tables \<Rightarrow> uuid \<Rightarrow> bool" where
  "order_exists d oid \<longleftrightarrow> oid \<in> o_id ` set (orders d)"

text \<open>Every order has its \<open>CREATED\<close> event, and events belong to orders: an empty history
  means there is no such order.\<close>

lemma history_empty_iff: "tables_ok d \<Longrightarrow> history d oid = [] \<longleftrightarrow> \<not> order_exists d oid"
proof
  assume ok: "tables_ok d" and h: "history d oid = []"
  show "\<not> order_exists d oid"
  proof
    assume "order_exists d oid"
    then obtain r where "r \<in> set (orders d)" "o_id r = oid" by (auto simp: order_exists_def)
    with ok h show False by (force simp: tables_ok_def order_ok_def)
  qed
next
  assume "tables_ok d" and "\<not> order_exists d oid"
  then show "history d oid = []" by (simp add: tables_ok_def order_exists_def history_fresh)
qed

lemma extends_exists: "extends d d' \<Longrightarrow> order_exists d oid \<Longrightarrow> order_exists d' oid"
proof -
  assume ext: "extends d d'" and "order_exists d oid"
  then obtain r where "r \<in> set (orders d)" "o_id r = oid" by (auto simp: order_exists_def)
  with ext obtain r' where "r' \<in> set (orders d')" "o_id r' = oid"
    by (auto simp: extends_def same_order_def)
  then show ?thesis by (auto simp: order_exists_def)
qed

lemma extends_key_taken: "extends d d' \<Longrightarrow> key_taken d cid key \<Longrightarrow> key_taken d' cid key"
  by (force simp: extends_def key_taken_def same_order_def)

lemma extends_owned: "extends d d' \<Longrightarrow> owned_order d oid cid r \<Longrightarrow> \<exists>r'. owned_order d' oid cid r'"
  by (force simp: extends_def owned_order_def same_order_def)

section \<open>The contract\<close>

locale order_store = shared_store ok leads
    for ok :: "'s \<Rightarrow> bool" and leads :: "'s \<Rightarrow> 's \<Rightarrow> bool" +
  fixes svc :: "'s Service" and db_of :: "'s \<Rightarrow> tables"
  assumes ok_tables: "ok s \<Longrightarrow> tables_ok (db_of s)"
    and leads_extends: "ok s \<Longrightarrow> leads s t \<Longrightarrow> extends (db_of s) (db_of t)"
    and new_uuid: "leads s (snd (svc_newUUID svc s))"
    and create: "command_total_ok cmd \<Longrightarrow>
          guaranteesE ok leads (repo_CreateOrderWithItemsAndAudit (svc_repo svc) cmd)"
    and get: "guaranteesE ok leads (repo_GetOrderByIDAndCustomerID (svc_repo svc) oid cid)"
    and items: "guaranteesE ok leads (repo_GetOrderItemsByOrderID (svc_repo svc) oid)"
    and events: "guaranteesE ok leads (repo_GetOrderEventsByOrderID (svc_repo svc) oid)"
    and list: "guaranteesE ok leads (repo_ListOrders (svc_repo svc) lcmd)"
    and cancel: "guaranteesE ok leads (repo_CancelOrderWithAudit (svc_repo svc) ccmd)"
    and update: "CanTransition (UpdateCmd_ExpectedStatus ucmd) (UpdateCmd_NewStatus ucmd) \<Longrightarrow>
          UpdateCmd_ActorType ucmd \<in> {''ADMIN'', ''SYSTEM''} \<Longrightarrow>
          guaranteesE ok leads (repo_UpdateOrderStatusWithAudit (svc_repo svc) ucmd)"
    and batch: "guaranteesE ok leads (repo_ProcessPendingOrdersBatchWithAudit (svc_repo svc) bcmd)"
    and get_row: "ok s \<Longrightarrow> repo_GetOrderByIDAndCustomerID (svc_repo svc) oid cid s = (Inr x, t) \<Longrightarrow>
          \<exists>r. owned_order (db_of t) oid cid r \<and> x = scan_order r"
    and get_none: "ok s \<Longrightarrow> repo_GetOrderByIDAndCustomerID (svc_repo svc) oid cid s = (Inl e, t) \<Longrightarrow>
          errors_Is e PgxErrNoRows \<Longrightarrow> \<not> owned_order (db_of t) oid cid r"
    and get_errors: "repo_GetOrderByIDAndCustomerID (svc_repo svc) oid cid s = (Inl e, t) \<Longrightarrow>
          errors_Is e tag \<Longrightarrow> tag = PgxErrNoRows"
    and items_rows: "ok s \<Longrightarrow> repo_GetOrderItemsByOrderID (svc_repo svc) oid s = (Inr xs, t) \<Longrightarrow>
          mset xs = mset (map scan_item (items_of (db_of t) oid))"
    and items_errors: "repo_GetOrderItemsByOrderID (svc_repo svc) oid s = (Inl e, t) \<Longrightarrow>
          \<not> errors_Is e tag"
    and events_rows: "ok s \<Longrightarrow> repo_GetOrderEventsByOrderID (svc_repo svc) oid s = (Inr vs, t) \<Longrightarrow>
          vs = [] \<longleftrightarrow> history (db_of t) oid = []"
    and events_errors: "repo_GetOrderEventsByOrderID (svc_repo svc) oid s = (Inl e, t) \<Longrightarrow>
          \<not> errors_Is e tag"
    and update_errors: "repo_UpdateOrderStatusWithAudit (svc_repo svc) ucmd s = (Inl e, t) \<Longrightarrow>
          errors_Is e tag \<Longrightarrow> tag = PgxErrNoRows"
    and create_conflict: "ok s \<Longrightarrow>
          repo_CreateOrderWithItemsAndAudit (svc_repo svc) cmd s = (Inl e, t) \<Longrightarrow>
          isIdempotencyConflictError e \<Longrightarrow>
          key_taken (db_of t) (CreateCmd_CustomerID cmd) (CreateCmd_IdempotencyKey cmd)"
    and create_errors: "repo_CreateOrderWithItemsAndAudit (svc_repo svc) cmd s = (Inl e, t) \<Longrightarrow>
          \<not> errors_Is e tag"
begin

lemmas store_guarantees = get items events list cancel batch

section \<open>What the service builds from a request\<close>

lemma command_items_guarantee: "guaranteesE ok leads (command_items uuid_Parse svc k items)"
proof (induction items arbitrary: k)
  case Nil
  show ?case by simp
next
  case (Cons item items)
  show ?case
    by (auto split: option.splits
        intro!: guarantees_bind guarantees_draw Cons.IH new_uuid)
qed

lemma command_items_result:
  "command_items uuid_Parse svc k items s = (Inr its, t) \<Longrightarrow>
     map ItemIn_Quantity its = map Item_Quantity items \<and>
     map ItemIn_UnitPriceCents its = map Item_UnitPriceCents items \<and>
     map ItemIn_SKU its = map Item_SKU items \<and>
     map (Some \<circ> ItemIn_ProductID) its = map (uuid_Parse \<circ> Item_ProductID) items"
  by (induction items arbitrary: k s its) (auto elim!: bindE_InrE split: option.splits)

lemma command_items_total:
  assumes "command_items uuid_Parse svc k items s = (Inr its, t)"
  shows "(\<Sum>it \<leftarrow> its. sint (ItemIn_UnitPriceCents it) * sint (ItemIn_Quantity it)) = exact_total items"
proof -
  have "map (\<lambda>it. sint (ItemIn_UnitPriceCents it) * sint (ItemIn_Quantity it)) its =
        map (\<lambda>(p, q). sint p * sint q) (zip (map ItemIn_UnitPriceCents its) (map ItemIn_Quantity its))"
    by (simp add: zip_map_map map_zip_map zip_same_conv_map)
  also have "\<dots> = map (\<lambda>(p, q). sint p * sint q) (zip (map Item_UnitPriceCents items) (map Item_Quantity items))"
    using command_items_result [OF assms] by simp
  also have "\<dots> = map (\<lambda>it. sint (Item_UnitPriceCents it) * sint (Item_Quantity it)) items"
    by (simp add: zip_map_map map_zip_map zip_same_conv_map)
  finally show ?thesis by (simp add: exact_total_def)
qed

section \<open>Every method keeps the contract\<close>

lemma CreateOrder_guarantee: "guaranteesE ok leads (Service_CreateOrder uuid_Parse svc input)"
proof (rule guaranteesEI)
  fix s r t assume ok: "ok s" and run: "Service_CreateOrder uuid_Parse svc input s = (r, t)"
  let ?items = "CreateIn_Items input"
  from run show "leads s t" unfolding Service_CreateOrder_def
  proof (cases rule: bindE_cases)
    case valid: (ok u s1)
    then have items: "list_all item_ok ?items" "?items \<noteq> []"
      by (auto simp: ValidateCreateOrderRequest_Inr request_ok_def)
    from valid(2) show ?thesis
    proof (cases rule: bindE_cases)
      case tot: (ok total s2)
      from tot(2) show ?thesis
      proof (cases rule: bindE_cases)
        case (err e)
        with valid tot ok show ?thesis by (auto intro: run_leads [OF command_items_guarantee])
      next
        case its: (ok its s3)
        have l3: "leads s s3"
          using valid tot ok its(1) by (auto intro: run_leads [OF command_items_guarantee])
        have total: "sint total = exact_total ?items" using tot(1) items(1)
          by (auto intro: calculateTotalCents_sint)
        have "its \<noteq> []" using command_items_result [OF its(1)] items(2) by auto
        have total_ok: "command_total_ok cmd" if "CreateCmd_Items cmd = its" "CreateCmd_TotalCents cmd = total" for cmd
          using that \<open>its \<noteq> []\<close> command_items_total [OF its(1)] total by (simp add: command_total_ok_def)
        from its(2) leads_ok [OF l3 ok] have "leads s3 t"
          by (rule run_leads [rotated])
            (auto intro!: guarantees_bind guarantees_draw guarantees_onErr new_uuid create total_ok)
        with l3 show ?thesis by (rule leads_trans)
      qed
    qed (use valid in auto)
  qed auto
qed

lemma GetOrder_guarantee: "guaranteesE ok leads (Service_GetOrder svc oid cid)"
  unfolding Service_GetOrder_def by (auto intro!: guarantees_bind guarantees_onErr store_guarantees)

lemma ListOrders_guarantee: "guaranteesE ok leads (Service_ListOrders svc lin)"
  unfolding Service_ListOrders_def by (rule list)

lemma ListOrderDetails_guarantee: "guaranteesE ok leads (Service_ListOrderDetails svc lin)"
  unfolding Service_ListOrderDetails_def hydrateOrderDetails_def
  by (auto intro!: guarantees_bind guarantees_mapE ListOrders_guarantee store_guarantees)

lemma CancelOrder_guarantee: "guaranteesE ok leads (Service_CancelOrder svc cin)"
  unfolding Service_CancelOrder_def
  by (auto intro!: guarantees_bind guarantees_onErr store_guarantees)

lemma with_items_guarantee: "guaranteesE ok leads (with_items svc x)"
  unfolding with_items_def by (auto intro!: guarantees_bind store_guarantees)

lemma CancelOrderDetails_guarantee: "guaranteesE ok leads (Service_CancelOrderDetails svc cin)"
  unfolding Service_CancelOrderDetails_def
  by (auto intro!: guarantees_bind CancelOrder_guarantee with_items_guarantee)

lemma resolve_guarantee: "guaranteesE ok leads (resolveStatusUpdateNoRows svc oid)"
  unfolding resolveStatusUpdateNoRows_def by (auto intro!: guarantees_bind store_guarantees)

lemma UpdateOrderStatus_guarantee: "guaranteesE ok leads (Service_UpdateOrderStatus svc uin)"
proof (cases "ValidateTransition (UpdateIn_ExpectedStatus uin) (UpdateIn_NewStatus uin)")
  case (Inl e)
  then show ?thesis by (auto simp: Service_UpdateOrderStatus_def guaranteesE_def bindE_def)
next
  case (Inr u)
  then have "CanTransition (UpdateIn_ExpectedStatus uin) (UpdateIn_NewStatus uin)"
    by (simp add: ValidateTransition_Inr)
  moreover have "isAllowedActorType (UpdateIn_ActorType uin) [ActorTypeAdmin, ActorTypeSystem] \<Longrightarrow>
      UpdateIn_ActorType uin \<in> {''ADMIN'', ''SYSTEM''}"
    by (auto simp: isAllowedActorType_def ActorTypeAdmin_def ActorTypeSystem_def)
  ultimately show ?thesis
    unfolding Service_UpdateOrderStatus_def
    by (auto intro!: guarantees_bind guarantees_onErr update resolve_guarantee)
qed

lemma UpdateOrderStatusDetails_guarantee:
  "guaranteesE ok leads (Service_UpdateOrderStatusDetails svc uin)"
  unfolding Service_UpdateOrderStatusDetails_def
  by (auto intro!: guarantees_bind UpdateOrderStatus_guarantee with_items_guarantee)

lemma UpdateOrderStatusByTarget_guarantee:
  "guaranteesE ok leads (Service_UpdateOrderStatusByTarget svc oid st actor aid reason ip)"
  unfolding Service_UpdateOrderStatusByTarget_def
  by (auto intro!: guarantees_bind UpdateOrderStatusDetails_guarantee)

lemma ProcessPendingOrdersBatch_guarantee:
  "guaranteesE ok leads (Service_ProcessPendingOrdersBatch svc bin)"
  unfolding Service_ProcessPendingOrdersBatch_def by (auto intro!: guarantees_bind batch)

section \<open>What the results mean\<close>

lemma GetOrder_own:
  assumes ok: "ok s" and run: "Service_GetOrder svc oid cid s = (Inr d, t)"
  shows "\<exists>u r. leads s u \<and> leads u t \<and> owned_order (db_of u) oid cid r \<and>
           Details_Order d = scan_order r \<and>
           mset (Details_Items d) = mset (map scan_item (items_of (db_of t) oid))"
proof -
  from run obtain x u xs where
    g: "repo_GetOrderByIDAndCustomerID (svc_repo svc) oid cid s = (Inr x, u)" and
    i: "repo_GetOrderItemsByOrderID (svc_repo svc) oid u = (Inr xs, t)" and
    d: "d = \<lparr>Details_Order = x, Details_Items = xs\<rparr>"
    unfolding Service_GetOrder_def
    by (auto elim!: bindE_InrE onErrE_cases split: if_splits)
  have lu: "leads s u" using get g ok by (rule run_leads)
  then have ou: "ok u" using ok by (rule leads_ok)
  have "leads u t" using items i ou by (rule run_leads)
  with lu get_row [OF ok g] items_rows [OF ou i] d show ?thesis by auto
qed

lemma GetOrder_not_found:
  assumes ok: "ok s" and run: "Service_GetOrder svc oid cid s = (Inl e, t)"
    and e: "errors_Is e ErrOrderNotFound"
  shows "\<not> owned_order (db_of t) oid cid r"
proof -
  from run show ?thesis unfolding Service_GetOrder_def
  proof (cases rule: bindE_cases)
    case (err e')
    from err(1) show ?thesis
    proof (cases rule: onErrE_cases)
      case (err e0 s0)
      with e \<open>Inl e = Inl e'\<close> have nr: "errors_Is e0 PgxErrNoRows" "s0 = t"
        using get_errors [OF err(1)] by (auto split: if_splits)
      show ?thesis using get_none [OF ok err(1) nr(1)] nr(2) by simp
    qed simp
  next
    case (ok x u)
    from ok(2) have False
      by (cases rule: bindE_cases) (use e items_errors in auto)
    then show ?thesis ..
  qed
qed

text \<open>Which error the service turns \<open>no rows\<close> into says truthfully whether the order exists.\<close>

lemma resolve_truthful:
  assumes ok: "ok s" and run: "resolveStatusUpdateNoRows svc oid s = (Inl e, t)"
  shows "errors_Is e ErrOrderNotFound \<Longrightarrow> \<not> order_exists (db_of t) oid"
    and "errors_Is e ErrInvalidTransition \<Longrightarrow> order_exists (db_of t) oid"
    and "errors_Is e tag \<Longrightarrow> tag = ErrOrderNotFound \<or> tag = ErrInvalidTransition"
proof -
  have all: "(errors_Is e ErrOrderNotFound \<longrightarrow> \<not> order_exists (db_of t) oid) \<and>
      (errors_Is e ErrInvalidTransition \<longrightarrow> order_exists (db_of t) oid) \<and>
      (errors_Is e tag \<longrightarrow> tag = ErrOrderNotFound \<or> tag = ErrInvalidTransition)" for tag
    using run unfolding resolveStatusUpdateNoRows_def
  proof (cases rule: bindE_cases)
    case (err e')
    with events_errors show ?thesis by auto
  next
    case (ok vs u)
    have "ok t" using events ok \<open>ok s\<close> by (auto intro: run_ok split: if_splits)
    with ok events_rows [OF \<open>ok s\<close> ok(1)] ok_tables history_empty_iff [of "db_of t" oid]
    show ?thesis by (auto split: if_splits)
  qed
  from all show "errors_Is e ErrOrderNotFound \<Longrightarrow> \<not> order_exists (db_of t) oid"
    and "errors_Is e ErrInvalidTransition \<Longrightarrow> order_exists (db_of t) oid"
    and "errors_Is e tag \<Longrightarrow> tag = ErrOrderNotFound \<or> tag = ErrInvalidTransition" by blast+
qed

lemma UpdateOrderStatus_truthful:
  assumes ok: "ok s" and run: "Service_UpdateOrderStatus svc uin s = (Inl e, t)"
  shows "errors_Is e ErrOrderNotFound \<Longrightarrow> \<not> order_exists (db_of t) (UpdateIn_OrderID uin)"
    and "errors_Is e ErrInvalidTransition \<Longrightarrow>
           CanTransition (UpdateIn_ExpectedStatus uin) (UpdateIn_NewStatus uin) \<Longrightarrow>
           order_exists (db_of t) (UpdateIn_OrderID uin)"
    and "\<not> errors_Is e PgxErrNoRows"
proof -
  let ?v = "ValidateTransition (UpdateIn_ExpectedStatus uin) (UpdateIn_NewStatus uin)"
  have all: "(errors_Is e ErrOrderNotFound \<longrightarrow> \<not> order_exists (db_of t) (UpdateIn_OrderID uin)) \<and>
      (errors_Is e ErrInvalidTransition \<longrightarrow>
         CanTransition (UpdateIn_ExpectedStatus uin) (UpdateIn_NewStatus uin) \<longrightarrow>
         order_exists (db_of t) (UpdateIn_OrderID uin)) \<and> \<not> errors_Is e PgxErrNoRows"
  proof (cases "isAllowedActorType (UpdateIn_ActorType uin) [ActorTypeAdmin, ActorTypeSystem]")
    case False
    with run have "e = Sentinel ErrInvalidActorType" by (simp add: Service_UpdateOrderStatus_def)
    then show ?thesis by simp
  next
    case actor: True
    show ?thesis
    proof (cases ?v)
      case (Inl e')
      with run actor have "e = e'" by (simp add: Service_UpdateOrderStatus_def bindE_def)
      with Inl show ?thesis
        by (cases rule: ValidateTransition_cases [of "UpdateIn_ExpectedStatus uin" "UpdateIn_NewStatus uin"])
          auto
    next
      case (Inr u)
      then have can: "CanTransition (UpdateIn_ExpectedStatus uin) (UpdateIn_NewStatus uin)"
        by (simp add: ValidateTransition_Inr)
      have act: "UpdateIn_ActorType uin \<in> {''ADMIN'', ''SYSTEM''}"
        using actor by (auto simp: isAllowedActorType_def ActorTypeAdmin_def ActorTypeSystem_def)
      let ?cmd = "\<lparr>UpdateCmd_OrderID = UpdateIn_OrderID uin,
           UpdateCmd_ExpectedStatus = UpdateIn_ExpectedStatus uin,
           UpdateCmd_NewStatus = UpdateIn_NewStatus uin,
           UpdateCmd_ActorType = UpdateIn_ActorType uin, UpdateCmd_ActorID = UpdateIn_ActorID uin,
           UpdateCmd_Reason = UpdateIn_Reason uin, UpdateCmd_IPAddress = UpdateIn_IPAddress uin\<rparr>"
      from run actor Inr obtain e0 s0 where
        up: "repo_UpdateOrderStatusWithAudit (svc_repo svc) ?cmd s = (Inl e0, s0)" and
        h: "(if errors_Is e0 PgxErrNoRows then resolveStatusUpdateNoRows svc (UpdateIn_OrderID uin)
             else failE e0) s0 = (Inl e :: go_error + Order, t)"
        by (auto simp: Service_UpdateOrderStatus_def bindE_def elim!: onErrE_cases)
      from up ok have "ok s0"
        by (rule run_ok [rotated]) (use can act in \<open>auto intro: update\<close>)
      show ?thesis
      proof (cases "errors_Is e0 PgxErrNoRows")
        case True
        with h resolve_truthful [OF \<open>ok s0\<close>, of "UpdateIn_OrderID uin" e t] show ?thesis by auto
      next
        case False
        with h update_errors [OF up] show ?thesis by auto
      qed
    qed
  qed
  then show "errors_Is e ErrOrderNotFound \<Longrightarrow> \<not> order_exists (db_of t) (UpdateIn_OrderID uin)"
    and "errors_Is e ErrInvalidTransition \<Longrightarrow>
           CanTransition (UpdateIn_ExpectedStatus uin) (UpdateIn_NewStatus uin) \<Longrightarrow>
           order_exists (db_of t) (UpdateIn_OrderID uin)"
    and "\<not> errors_Is e PgxErrNoRows" by blast+
qed

lemma command_items_errors:
  "command_items uuid_Parse svc k items s = (Inl e, t) \<Longrightarrow> IsValidationError e"
  by (induction items arbitrary: k s) (auto elim!: bindE_cases split: option.splits prod.splits simp: drawE_def)

lemma CreateOrder_conflict:
  assumes ok: "ok s" and run: "Service_CreateOrder uuid_Parse svc input s = (Inl e, t)"
    and e: "errors_Is e ErrIdempotencyConflict"
  shows "key_taken (db_of t) (CreateIn_CustomerID input) (CreateIn_IdempotencyKey input)"
  using run unfolding Service_CreateOrder_def
proof (cases rule: bindE_cases)
  case (err e')
  with e show ?thesis
    using ValidateCreateOrderRequest_Inl IsValidationError_not_Is by auto
next
  case valid: (ok u s1)
  from valid(2) show ?thesis
  proof (cases rule: bindE_cases)
    case (err e')
    with e show ?thesis by (auto dest: calculateTotalCents_errors)
  next
    case tot: (ok total s2)
    from tot(2) show ?thesis
    proof (cases rule: bindE_cases)
      case (err e')
      with e show ?thesis using command_items_errors IsValidationError_not_Is by blast
    next
      case its: (ok its s3)
      have "ok s3" using valid tot its ok by (auto intro: run_ok [OF command_items_guarantee])
      from its(2) show ?thesis
      proof (cases rule: bindE_cases)
        case (err e')
        then show ?thesis by (simp add: drawE_def split: prod.splits)
      next
        case draw: (ok oid s4)
        then have "ok s4" using \<open>ok s3\<close> new_uuid [of s3]
          by (auto simp: drawE_def intro: leads_ok split: prod.splits)
        from draw(2) show ?thesis
        proof (cases rule: onErrE_cases)
          case (err e0 s5)
          then have "isIdempotencyConflictError e0 \<and> s5 = t"
            using e create_errors [OF err(1)] by (auto split: if_splits)
          with create_conflict [OF \<open>ok s4\<close> err(1)] show ?thesis by simp
        qed simp
      qed
    qed
  qed
qed

lemma CreateOrder_error_tags:
  assumes run: "Service_CreateOrder uuid_Parse svc input s = (Inl e, t)" and e: "errors_Is e tag"
  shows "tag = ErrTotalCentsOverflow \<or> tag = ErrIdempotencyConflict"
proof -
  have "calculateTotalCents its = Inl e \<Longrightarrow> tag = ErrTotalCentsOverflow" for its
    using e by (auto dest: calculateTotalCents_errors)
  then show ?thesis
    using run e ValidateCreateOrderRequest_Inl IsValidationError_not_Is
    unfolding Service_CreateOrder_def
    by (auto elim!: bindE_cases onErrE_cases simp: drawE_def split: prod.splits if_splits
        dest: command_items_errors create_errors)
qed

lemma UpdateByTarget_not_found:
  assumes ok: "ok s" and e: "errors_Is e ErrOrderNotFound"
    and run: "Service_UpdateOrderStatusByTarget svc oid st actor aid reason ip s = (Inl e, t)"
  shows "\<not> order_exists (db_of t) oid"
  using run unfolding Service_UpdateOrderStatusByTarget_def
proof (cases rule: bindE_cases)
  case (err e')
  with e show ?thesis
    by (cases rule: ValidateTransition_cases [of StatusPending st])
      (auto simp: expectedStatusForTarget_def split: if_splits)
next
  case (ok expected u)
  from ok(1) have "u = s" by (cases "expectedStatusForTarget st") auto
  from ok(2) show ?thesis unfolding Service_UpdateOrderStatusDetails_def with_items_def
  proof (cases rule: bindE_cases)
    case (err e')
    with e \<open>u = s\<close> UpdateOrderStatus_truthful(1) [OF \<open>ok s\<close> err(1) [unfolded \<open>u = s\<close>]]
    show ?thesis by simp
  next
    case (ok x v)
    from ok(2) have False by (cases rule: bindE_cases) (use e items_errors in auto)
    then show ?thesis ..
  qed
qed

end

end
