(* ===== verification/PgStore.thy ===== *)
theory PgStore
  imports ServiceLaws
begin

text \<open>
  The PostgreSQL repository meets the contract of \<open>ServiceLaws\<close>: which errors each
  operation can return, what the reads return, and the interpretation.
\<close>

section \<open>Errors of statements\<close>

text \<open>An error that is no sentinel and no idempotency conflict.\<close>

definition plain_error :: "go_error \<Rightarrow> bool" where
  "plain_error e \<longleftrightarrow> (\<forall>tag. \<not> errors_Is e tag) \<and> \<not> isIdempotencyConflictError e"

lemmas violation_defs = check_violation_def unique_violation_def fk_violation_def
  not_null_violation_def null_byte_error_def too_long_error_def negative_limit_error_def

lemma plain_OtherError [simp]: "plain_error (OtherError t)"
  by (simp add: plain_error_def isIdempotencyConflictError_def)

lemma plain_PgError [simp]:
  "c \<noteq> idempotencyConstraintName \<Longrightarrow> plain_error (PgError n c t)"
  by (simp add: plain_error_def isIdempotencyConflictError_def)

lemma create_event_stmt_Inl: "create_event_stmt arg now d = Inl e \<Longrightarrow> plain_error e"
  by (auto simp: create_event_stmt_def insert_event_row_def violation_defs Let_def
      idempotencyConstraintName_def split: option.splits if_splits sum.splits)

lemma create_item_stmt_Inl: "create_item_stmt arg now d = Inl e \<Longrightarrow> plain_error e"
  by (auto simp: create_item_stmt_def insert_item_row_def violation_defs Let_def
      idempotencyConstraintName_def split: option.splits if_splits sum.splits)

lemma insert_order_Inl:
  "insert_order_row r d = Inl e \<Longrightarrow>
     (\<forall>tag. \<not> errors_Is e tag) \<and>
     (isIdempotencyConflictError e \<longrightarrow> key_taken d (o_customer_id r) (o_idempotency_key r))"
  by (auto simp: insert_order_row_def violation_defs isIdempotencyConflictError_def
      idempotencyConstraintName_def key_taken_def split: if_splits)

lemma create_order_stmt_Inl:
  assumes "create_order_stmt arg now d = Inl e"
  shows "(\<forall>tag. \<not> errors_Is e tag) \<and>
     (isIdempotencyConflictError e \<longrightarrow>
        key_taken d (the (CreateP_CustomerID arg)) (CreateP_IdempotencyKey arg))"
  using assms
  by (auto simp: create_order_stmt_def violation_defs isIdempotencyConflictError_def
      idempotencyConstraintName_def Let_def
      split: option.splits if_splits sum.splits dest: insert_order_Inl)

lemma event_plain: "Queries_CreateOrderEvent conn arg w = (Inl e, w') \<Longrightarrow> plain_error e"
  by (auto simp: Queries_CreateOrderEvent_def db_call_def split: DBTX.splits
      elim!: run_stmt_elim dest: create_event_stmt_Inl)

lemma item_plain: "Queries_CreateOrderItem conn arg w = (Inl e, w') \<Longrightarrow> plain_error e"
  by (auto simp: Queries_CreateOrderItem_def db_call_def split: DBTX.splits
      elim!: run_stmt_elim dest: create_item_stmt_Inl)

lemma mapE_errors:
  "(\<And>x w e w'. f x w = (Inl e, w') \<Longrightarrow> P e) \<Longrightarrow> mapE f xs w = (Inl e, w') \<Longrightarrow> P e"
  by (induction xs arbitrary: w) (auto elim!: bindE_cases)

lemma create_tx_errors:
  assumes "create_tx cmd (Tx now) w = (Inl e, w')"
  shows "(\<forall>tag. \<not> errors_Is e tag) \<and>
     (isIdempotencyConflictError e \<longrightarrow>
        key_taken (w_db w) (CreateCmd_CustomerID cmd) (CreateCmd_IdempotencyKey cmd))"
  using assms unfolding create_tx_def
proof (cases rule: bindE_cases)
  case (err e')
  then show ?thesis unfolding Queries_CreateOrder_def db_call_Tx
    by (auto elim!: run_stmt_elim dest!: create_order_stmt_Inl simp: isIdempotencyConflictError_def)
next
  case (ok o1 w1)
  have "plain_error e" using ok(2)
  proof (cases rule: bindE_cases)
    case (err e')
    then show ?thesis unfolding create_items_def by (auto elim!: mapE_errors [rotated] dest: item_plain)
  next
    case (ok its w2)
    from ok(2) show ?thesis
      by (auto elim!: bindE_cases dest: event_plain)
  qed
  then show ?thesis by (simp add: plain_error_def)
qed

lemma update_tx_errors:
  assumes "update_tx cmd (Tx now) w = (Inl e, w')" and "errors_Is e tag"
  shows "tag = PgxErrNoRows"
  using assms(1) unfolding update_tx_def
proof (cases rule: bindE_cases)
  case (err e')
  with assms(2) show ?thesis
    unfolding Queries_UpdateOrderStatusIfCurrentStatusMatches_def db_call_Tx
    by (auto elim!: run_stmt_elim simp: Let_def violation_defs one_row_NoRows split: if_splits)
next
  case (ok o1 w1)
  then have "plain_error e" by (auto elim!: bindE_cases dest: event_plain)
  with assms(2) show ?thesis by (simp add: plain_error_def)
qed

section \<open>Results of reads\<close>

lemma get_order_cases:
  assumes "Repository_GetOrderByIDAndCustomerID oid cid w = (r, w')"
  obtains (fault) t where "r = Inl (OtherError t)"
    | (none) "r = Inl (Sentinel PgxErrNoRows)" and "\<forall>x. \<not> owned_order (w_db w') oid cid x"
    | (row) x where "owned_order (w_db w') oid cid x" and "r = Inr (scan_order x)"
proof -
  let ?P = "\<lambda>r. o_id r = oid \<and> o_customer_id r = cid"
  have run: "run_stmt (now_at (w_env w) (w_tick w))
      (\<lambda>now d. one_row (take 1 (filter ?P (orders d)), d)) (begin_session w) = (r, w')"
    using assms by (simp add: Repository_GetOrderByIDAndCustomerID_def
        Queries_GetOrderByIDAndCustomerID_def db_call_Pool pgUUID_eq_def eq_commute)
  from run show ?thesis
  proof (cases rule: run_stmt_elim)
    case (error e)
    then have "filter ?P (orders (w_db w')) = []" and "e = Sentinel PgxErrNoRows"
      by (auto simp: one_row_def split: list.splits simp: take_Suc)
    with error show ?thesis by (intro none) (auto simp: owned_order_def filter_empty_conv)
  next
    case (ok x)
    then obtain y ys where "filter ?P (orders (w_db w')) = y # ys" "x = scan_order y"
      by (cases "filter ?P (orders (w_db (begin_session w)))") (auto simp: one_row_def)
    then have "y \<in> set (filter ?P (orders (w_db w')))" by simp
    with ok \<open>x = scan_order y\<close> show ?thesis by (intro row [of y]) (auto simp: owned_order_def)
  qed (rule fault)
qed

lemma get_items_cases:
  assumes "Repository_GetOrderItemsByOrderID oid w = (r, w')"
  obtains (fault) t where "r = Inl (OtherError t)"
    | (rows) "r = Inr (map scan_item (sort_key item_key (items_of (w_db w') oid)))"
proof -
  have run: "run_stmt (now_at (w_env w) (w_tick w))
      (\<lambda>now d. Inr (map scan_item (sort_key item_key (items_of d oid)), d)) (begin_session w) = (r, w')"
    using assms by (simp add: Repository_GetOrderItemsByOrderID_def items_of_def
        Queries_GetOrderItemsByOrderID_def db_call_Pool pgUUID_eq_def eq_commute)
  then show ?thesis by (cases rule: run_stmt_elim) (auto intro: fault rows)
qed

lemma get_events_cases:
  assumes "Repository_GetOrderEventsByOrderID oid w = (r, w')"
  obtains (fault) t where "r = Inl (OtherError t)"
    | (rows) "r = Inr (map scan_event (rev (sort_key event_key (history (w_db w') oid))))"
proof -
  have run: "run_stmt (now_at (w_env w) (w_tick w))
      (\<lambda>now d. Inr (map scan_event (rev (sort_key event_key (history d oid))), d)) (begin_session w) = (r, w')"
    using assms by (simp add: Repository_GetOrderEventsByOrderID_def history_def
        Queries_GetOrderEventsByOrderID_def db_call_Pool pgUUID_eq_def eq_commute)
  then show ?thesis by (cases rule: run_stmt_elim) (auto intro: fault rows)
qed

section \<open>The interpretation\<close>

lemma pg_simps [simp]:
  "svc_repo (NewService repo) = repo" "svc_newUUID (NewService repo) = draw_uuid"
  "repo_CreateOrderWithItemsAndAudit pgRepository = Repository_CreateOrderWithItemsAndAudit"
  "repo_GetOrderByIDAndCustomerID pgRepository = Repository_GetOrderByIDAndCustomerID"
  "repo_GetOrderItemsByOrderID pgRepository = Repository_GetOrderItemsByOrderID"
  "repo_GetOrderEventsByOrderID pgRepository = Repository_GetOrderEventsByOrderID"
  "repo_ListOrders pgRepository = Repository_ListOrders"
  "repo_CancelOrderWithAudit pgRepository = Repository_CancelOrderWithAudit"
  "repo_UpdateOrderStatusWithAudit pgRepository = Repository_UpdateOrderStatusWithAudit"
  "repo_ProcessPendingOrdersBatchWithAudit pgRepository =
     Repository_ProcessPendingOrdersBatchWithAudit"
  by (simp_all add: NewService_def pgRepository_def)

lemma update_repo_errors:
  assumes "Repository_UpdateOrderStatusWithAudit cmd w = (Inl e, w')" and "errors_Is e tag"
  shows "tag = PgxErrNoRows"
proof -
  from assms(1) keeps_env_bodies(3) show ?thesis
    unfolding Repository_UpdateOrderStatusWithAudit_def
    by (rule withTx_elim) (use assms(2) update_tx_errors in auto)
qed

lemma create_repo_errors:
  assumes "Repository_CreateOrderWithItemsAndAudit cmd w = (Inl e, w')"
  shows "(\<forall>tag. \<not> errors_Is e tag) \<and>
     (isIdempotencyConflictError e \<longrightarrow>
        key_taken (w_db w') (CreateCmd_CustomerID cmd) (CreateCmd_IdempotencyKey cmd))"
proof -
  from assms keeps_env_bodies(1) show ?thesis
    unfolding Repository_CreateOrderWithItemsAndAudit_def
    by (rule withTx_elim) (auto dest!: create_tx_errors simp: isIdempotencyConflictError_def)
qed

interpretation pg: order_store good leads "NewService pgRepository" w_db
proof (unfold_locales, unfold pg_simps)
  fix s t :: world and oid cid x e r tag xs vs ucmd cmd
  show "good s \<Longrightarrow> tables_ok (w_db s)" by (simp add: good_def)
  show "good s \<Longrightarrow> leads s t \<Longrightarrow> extends (w_db s) (w_db t)" by (rule leads_extends)
  show "leads s (snd (draw_uuid s))" by (simp add: draw_uuid_def)
  show "good s \<Longrightarrow> Repository_GetOrderByIDAndCustomerID oid cid s = (Inr x, t) \<Longrightarrow>
      \<exists>r. owned_order (w_db t) oid cid r \<and> x = scan_order r"
    by (erule get_order_cases) auto
  show "good s \<Longrightarrow> Repository_GetOrderByIDAndCustomerID oid cid s = (Inl e, t) \<Longrightarrow>
      errors_Is e PgxErrNoRows \<Longrightarrow> \<not> owned_order (w_db t) oid cid r"
    by (erule get_order_cases) auto
  show "Repository_GetOrderByIDAndCustomerID oid cid s = (Inl e, t) \<Longrightarrow> errors_Is e tag \<Longrightarrow>
      tag = PgxErrNoRows"
    by (erule get_order_cases) auto
  show "good s \<Longrightarrow> Repository_GetOrderItemsByOrderID oid s = (Inr xs, t) \<Longrightarrow>
      mset xs = mset (map scan_item (items_of (w_db t) oid))"
    by (erule get_items_cases) auto
  show "Repository_GetOrderItemsByOrderID oid s = (Inl e, t) \<Longrightarrow> \<not> errors_Is e tag"
    by (erule get_items_cases) auto
  show "good s \<Longrightarrow> Repository_GetOrderEventsByOrderID oid s = (Inr vs, t) \<Longrightarrow>
      vs = [] \<longleftrightarrow> history (w_db t) oid = []"
    by (erule get_events_cases) (auto simp flip: length_0_conv)
  show "Repository_GetOrderEventsByOrderID oid s = (Inl e, t) \<Longrightarrow> \<not> errors_Is e tag"
    by (erule get_events_cases) auto
  show "Repository_UpdateOrderStatusWithAudit ucmd s = (Inl e, t) \<Longrightarrow> errors_Is e tag \<Longrightarrow>
      tag = PgxErrNoRows"
    by (rule update_repo_errors)
  show "good s \<Longrightarrow> Repository_CreateOrderWithItemsAndAudit cmd s = (Inl e, t) \<Longrightarrow>
      isIdempotencyConflictError e \<Longrightarrow>
      key_taken (w_db t) (CreateCmd_CustomerID cmd) (CreateCmd_IdempotencyKey cmd)"
    by (simp add: create_repo_errors)
  show "Repository_CreateOrderWithItemsAndAudit cmd s = (Inl e, t) \<Longrightarrow> \<not> errors_Is e tag"
    by (simp add: create_repo_errors)
qed (auto intro: guarantees_create guarantees_update)

text \<open>The service as \<open>cmd/api/main.go\<close> builds it.\<close>

abbreviation pg_service :: "world Service" where
  "pg_service \<equiv> NewService pgRepository"

end
