(* ===== verification/Outcomes.thy ===== *)
theory Outcomes
  imports PgStore
begin

text \<open>
  What each service method does when nothing interferes: no driver fault, no other
  session, unused random UUIDs.  Together with the guarantees of \<open>ServiceLaws\<close>, which hold
  under any interference, this says that the methods return the results they promise and
  do not merely fail safely.
\<close>

section \<open>Calm environments\<close>

definition calm :: "env \<Rightarrow> bool" where
  "calm E \<longleftrightarrow> (\<forall>n. env_fault E n = NoFault) \<and> (\<forall>n d. env_others E n d = d)"

text \<open>
  The UUIDs still to be drawn are used nowhere, and those drawn close together differ from each
  other: no call of the service draws more than \<open>draw_window\<close> of them.
\<close>

definition draw_window :: nat where
  "draw_window = 2 ^ 32"

definition fresh_uuids :: "world \<Rightarrow> bool" where
  "fresh_uuids w \<longleftrightarrow>
     (\<forall>n \<ge> w_tick w. env_uuid (w_env w) n \<notin>
        o_id ` set (orders (w_db w)) \<union> i_id ` set (order_items (w_db w)) \<union>
        v_id ` set (order_events (w_db w))) \<and>
     (\<forall>n \<ge> w_tick w. inj_on (env_uuid (w_env w)) {n ..< n + draw_window})"

lemma fresh_event: "fresh_uuids w \<Longrightarrow> w_tick w \<le> n \<Longrightarrow>
    env_uuid (w_env w) n \<notin> v_id ` set (order_events (w_db w))"
  by (simp add: fresh_uuids_def)

lemma run_stmt_calm:
  "calm (w_env w) \<Longrightarrow> run_stmt now stmt w =
     (case stmt now (w_db w) of
        Inl e \<Rightarrow> (Inl e, tick w) | Inr (x, d) \<Rightarrow> (Inr x, (tick w)\<lparr>w_db := d\<rparr>))"
  by (simp add: run_stmt_def calm_def)

lemma begin_session_calm: "calm (w_env w) \<Longrightarrow> begin_session w = w"
  by (simp add: begin_session_def calm_def)

lemma db_call_calm:
  "calm (w_env w) \<Longrightarrow> db_call Pool stmt w =
     (case stmt (now_at (w_env w) (w_tick w)) (w_db w) of
        Inl e \<Rightarrow> (Inl e, tick w) | Inr (x, d) \<Rightarrow> (Inr x, (tick w)\<lparr>w_db := d\<rparr>))"
  by (simp add: db_call_Pool begin_session_calm run_stmt_calm)

text \<open>
  \<open>succeeds m w P\<close>: run from \<open>w\<close>, the operation returns a value, and \<open>P\<close> holds of the
  value and the tables it leaves.  \<open>fails m w Q\<close> says the same of an error.  Both are total:
  they claim a result, not merely something about results.
\<close>

definition onward :: "world \<Rightarrow> world \<Rightarrow> bool" where
  "onward w w' \<longleftrightarrow> w_env w' = w_env w \<and> w_tick w \<le> w_tick w'"

definition succeeds :: "'a dbop \<Rightarrow> world \<Rightarrow> ('a \<Rightarrow> tables \<Rightarrow> bool) \<Rightarrow> bool" where
  "succeeds m w P \<longleftrightarrow> (\<exists>x w'. m w = (Inr x, w') \<and> onward w w' \<and> P x (w_db w'))"

definition fails :: "'a dbop \<Rightarrow> world \<Rightarrow> (go_error \<Rightarrow> tables \<Rightarrow> bool) \<Rightarrow> bool" where
  "fails m w Q \<longleftrightarrow> (\<exists>e w'. m w = (Inl e, w') \<and> onward w w' \<and> Q e (w_db w'))"

lemma onward_refl [simp]: "onward w w"
  by (simp add: onward_def)

lemma onward_trans: "onward u v \<Longrightarrow> onward v w \<Longrightarrow> onward u w"
  by (simp add: onward_def)

lemma onward_tick [simp]: "onward w (tick w)" "onward w ((tick w)\<lparr>w_db := d\<rparr>)"
  by (simp_all add: onward_def)

lemma onward_calm: "onward w w' \<Longrightarrow> calm (w_env w) \<Longrightarrow> calm (w_env w')"
  by (simp add: onward_def)

lemma onward_fresh: "onward w w' \<Longrightarrow> fresh_uuids w \<Longrightarrow> w_db w' = w_db w \<Longrightarrow> fresh_uuids w'"
  by (auto simp: onward_def fresh_uuids_def)

lemma succeedsI: "m w = (Inr x, w') \<Longrightarrow> onward w w' \<Longrightarrow> P x (w_db w') \<Longrightarrow> succeeds m w P"
  unfolding succeeds_def by blast

lemma failsI: "m w = (Inl e, w') \<Longrightarrow> onward w w' \<Longrightarrow> Q e (w_db w') \<Longrightarrow> fails m w Q"
  unfolding fails_def by blast

lemma succeeds_mono: "succeeds m w P \<Longrightarrow> (\<And>x d. P x d \<Longrightarrow> P' x d) \<Longrightarrow> succeeds m w P'"
  unfolding succeeds_def by blast

lemma succeeds_return [simp]: "succeeds (returnE x) w P \<longleftrightarrow> P x (w_db w)"
  by (auto simp: succeeds_def onward_def)

lemma succeeds_Pair [simp]: "succeeds (Pair (Inr x)) w P \<longleftrightarrow> P x (w_db w)"
  by (auto simp: succeeds_def)

lemma fails_fail [simp]: "fails (failE e) w Q \<longleftrightarrow> Q e (w_db w)"
  by (auto simp: fails_def onward_def)

lemma succeeds_bind:
  assumes "succeeds m w Q"
    and "\<And>x w'. onward w w' \<Longrightarrow> Q x (w_db w') \<Longrightarrow> succeeds (f x) w' P"
  shows "succeeds (bindE m f) w P"
proof -
  from assms(1) obtain x w1 where m: "m w = (Inr x, w1)" "onward w w1" "Q x (w_db w1)"
    by (auto simp: succeeds_def)
  from assms(2) [OF m(2,3)] obtain y w2 where "f x w1 = (Inr y, w2)" "onward w1 w2" "P y (w_db w2)"
    by (auto simp: succeeds_def)
  with m show ?thesis by (intro succeedsI [of _ _ y w2]) (auto simp: bindE_Inr intro: onward_trans)
qed

lemma fails_bind:
  assumes "succeeds m w Q"
    and "\<And>x w'. onward w w' \<Longrightarrow> Q x (w_db w') \<Longrightarrow> fails (f x) w' P"
  shows "fails (bindE m f) w P"
proof -
  from assms(1) obtain x w1 where m: "m w = (Inr x, w1)" "onward w w1" "Q x (w_db w1)"
    by (auto simp: succeeds_def)
  from assms(2) [OF m(2,3)] obtain e w2 where "f x w1 = (Inl e, w2)" "onward w1 w2" "P e (w_db w2)"
    by (auto simp: fails_def)
  with m show ?thesis by (intro failsI [of _ _ e w2]) (auto simp: bindE_Inr intro: onward_trans)
qed

lemma fails_bind_first: "fails m w P \<Longrightarrow> fails (bindE m f) w P"
  unfolding fails_def by (auto simp: bindE_Inl)

lemma succeeds_onErr: "succeeds m w P \<Longrightarrow> succeeds (onErrE m h) w P"
  by (auto simp: succeeds_def onErrE_def)

lemma fails_onErr:
  assumes "fails m w Q" and "\<And>e w'. onward w w' \<Longrightarrow> Q e (w_db w') \<Longrightarrow> fails (h e) w' P"
  shows "fails (onErrE m h) w P"
proof -
  from assms(1) obtain e w1 where m: "m w = (Inl e, w1)" "onward w w1" "Q e (w_db w1)"
    by (auto simp: fails_def)
  from assms(2) [OF m(2,3)] obtain e' w2 where "h e w1 = (Inl e', w2)" "onward w1 w2" "P e' (w_db w2)"
    by (auto simp: fails_def)
  with m show ?thesis
    by (intro failsI [of _ _ e' w2]) (auto simp: onErrE_def intro: onward_trans)
qed

lemma succeeds_draw: "P (env_uuid (w_env w) (w_tick w)) (w_db w) \<Longrightarrow> succeeds uuid_New w P"
  by (rule succeedsI, rule uuid_New_run) simp_all

lemma succeeds_liftE [simp]: "succeeds (liftE (Inr x)) w P \<longleftrightarrow> P x (w_db w)"
  by (auto simp: succeeds_def)

lemma fails_liftE [simp]: "fails (liftE (Inl e)) w P \<longleftrightarrow> P e (w_db w)"
  by (auto simp: fails_def)

text \<open>A transaction commits what its body wrote, and undoes it when the body fails.\<close>

lemma succeeds_withTx_tick:
  assumes calm: "calm (w_env w)"
    and body: "succeeds (fn (Tx (now_at (w_env w) (w_tick w)))) (tick w) P"
  shows "succeeds (withTx fn) w P"
proof -
  from body obtain x w2 where
    fn: "fn (Tx (now_at (w_env w) (w_tick w))) (tick w) = (Inr x, w2)" "onward (tick w) w2" "P x (w_db w2)"
    by (auto simp: succeeds_def)
  then have "withTx fn w = (Inr x, tick w2)" using calm
    by (auto simp: withTx_def BeginTx_def CommitTx_def begin_session_calm calm_def onward_def)
  then show ?thesis by (rule succeedsI) (use fn in \<open>auto simp: onward_def\<close>)
qed

lemma succeeds_withTx:
  assumes "calm (w_env w)"
    and "\<And>w'. onward w w' \<Longrightarrow> w_db w' = w_db w \<Longrightarrow>
       succeeds (fn (Tx (now_at (w_env w) (w_tick w)))) w' P"
  shows "succeeds (withTx fn) w P"
  using assms by (intro succeeds_withTx_tick) simp_all

lemma fails_withTx:
  assumes calm: "calm (w_env w)"
    and body: "\<And>w'. onward w w' \<Longrightarrow> w_db w' = w_db w \<Longrightarrow>
       fails (fn (Tx (now_at (w_env w) (w_tick w)))) w' (\<lambda>e d. Q e)"
  shows "fails (withTx fn) w (\<lambda>e d. Q e \<and> d = w_db w)"
proof -
  have "onward w (tick w)" "w_db (tick w) = w_db w" by simp_all
  from body [OF this] obtain e w2 where
    fn: "fn (Tx (now_at (w_env w) (w_tick w))) (tick w) = (Inl e, w2)" "onward (tick w) w2" "Q e"
    by (auto simp: fails_def)
  then have "withTx fn w = (Inl e, RollbackTx (w_db w) w2)" using calm
    by (auto simp: withTx_def BeginTx_def begin_session_calm calm_def)
  then show ?thesis by (rule failsI) (use fn in \<open>auto simp: onward_def\<close>)
qed

section \<open>Statements that succeed\<close>

text \<open>The row an event statement inserts, when its parameters pass the constraints.\<close>

lemma succeeds_event:
  fixes now :: time and actorID :: "uuid option" and ip :: "netip_Addr option"
  assumes "calm (w_env w)" and "vid \<notin> v_id ` set (order_events (w_db w))"
    and "oid \<in> o_id ` set (orders (w_db w))" and "actor \<in> {''CUSTOMER'', ''ADMIN'', ''SYSTEM''}"
    and "pg_null_text from" "pg_null_text to" "pg_text action" "pg_null_text reason"
  defines "e \<equiv> \<lparr>v_id = vid, v_order_id = oid, v_actor_type = actor, v_actor_id = actorID,
        v_from_status = from, v_to_status = to, v_action = action, v_reason = reason,
        v_ip_address = ip, v_created_at = now\<rparr>"
  shows "succeeds (Queries_CreateOrderEvent (Tx now)
      \<lparr>EventP_ID = Some vid, EventP_OrderID = Some oid, EventP_ActorType = actor,
       EventP_ActorID = actorID, EventP_FromStatus = from, EventP_ToStatus = to,
       EventP_Action = action, EventP_Reason = reason, EventP_IpAddress = ip\<rparr>) w
    (\<lambda>x d. d = (w_db w)\<lparr>order_events := order_events (w_db w) @ [e]\<rparr>)"
proof -
  have "pg_text actor" using assms(4) by (auto simp: pg_text_def)
  moreover have "order_events_actor_type_check actor"
    using assms(4) by (simp add: order_events_actor_type_check_def)
  ultimately show ?thesis using assms(1-3,5-8)
    by (intro succeedsI, simp add: Queries_CreateOrderEvent_def run_stmt_calm
        create_event_stmt_def Let_def insert_event_row_def e_def, simp, simp add: e_def)
qed

lemma status_text [simp]:
  "pg_text StatusPending" "pg_text StatusProcessing" "pg_text StatusShipped"
  "pg_text StatusDelivered" "pg_text StatusCancelled"
  "pg_text actionCreated" "pg_text actionCancelled" "pg_text actionStatusUpdated"
  "pg_text actionWorkerMovedToProcessing"
  by (simp_all add: pg_text_def status_defs action_defs)

lemma pg_null_text_simps [simp]: "pg_null_text None" "pg_null_text (Some s) = pg_text s"
  by (simp_all add: pg_null_text_def)

lemma CanTransition_text: "CanTransition f t \<Longrightarrow> pg_text f \<and> pg_text t"
  by (auto simp: CanTransition_iff)

lemma update_orders_unique:
  assumes ok: "tables_ok d" and r: "r \<in> set (orders d)" "P r"
    and P: "\<And>x. P x \<Longrightarrow> o_id x = o_id r"
  shows "update_orders P s now d =
     ([set_status s now r],
      d\<lparr>orders := map (\<lambda>x. if o_id x = o_id r then set_status s now x else x) (orders d)\<rparr>)"
proof -
  have keys: "distinct (map o_id (orders d))" using ok by (simp add: tables_ok_def keys_ok_def)
  have iff: "P x \<longleftrightarrow> o_id x = o_id r" if "x \<in> set (orders d)" for x
    using that r P keys by (metis distinct_map_inj_on_set)
  then have "filter P (orders d) = filter (\<lambda>x. o_id x = o_id r) (orders d)"
    by (rule filter_cong [OF refl])
  also have "\<dots> = [r]" using filter_unique [OF keys r(1)] .
  finally show ?thesis using iff by (simp add: update_orders_def)
qed

lemma update_orders_none:
  "(\<And>x. x \<in> set (orders d) \<Longrightarrow> \<not> P x) \<Longrightarrow> one_row (update_orders P s now d) = Inl (Sentinel PgxErrNoRows)"
  by (simp add: one_row_NoRows)

section \<open>Reads\<close>

lemma pgUUID_eq_Some [simp]: "pgUUID_eq u (Some v) \<longleftrightarrow> u = v"
  by (auto simp: pgUUID_eq_def)

lemma get_order_calm_found:
  assumes "calm (w_env w)" "tables_ok (w_db w)" "owned_order (w_db w) oid cid r"
  shows "Repository_GetOrderByIDAndCustomerID oid cid w = (Inr (scan_order r), tick w)"
proof -
  have keys: "distinct (map o_id (orders (w_db w)))"
    using assms(2) by (simp add: tables_ok_def keys_ok_def)
  have r: "r \<in> set (orders (w_db w))" "o_id r = oid" "o_customer_id r = cid"
    using assms(3) by (simp_all add: owned_order_def)
  have "filter (\<lambda>x. o_id x = oid \<and> o_customer_id x = cid) (orders (w_db w)) =
      filter (\<lambda>x. o_id x = o_id r) (orders (w_db w))"
    using r keys by (intro filter_cong) (auto dest: distinct_map_inj_on_set)
  also have "\<dots> = [r]" using keys r(1) by (rule filter_unique)
  finally show ?thesis using assms(1)
    by (simp add: Repository_GetOrderByIDAndCustomerID_def Queries_GetOrderByIDAndCustomerID_def
        db_call_calm pgUUID_eq_Some one_row_def tick_def)
qed

lemma get_order_calm_none:
  assumes "calm (w_env w)" "\<And>r. \<not> owned_order (w_db w) oid cid r"
  shows "Repository_GetOrderByIDAndCustomerID oid cid w = (Inl (Sentinel PgxErrNoRows), tick w)"
proof -
  have "filter (\<lambda>x. o_id x = oid \<and> o_customer_id x = cid) (orders (w_db w)) = []"
    using assms(2) by (auto simp: filter_empty_conv owned_order_def)
  then show ?thesis using assms(1)
    by (simp add: Repository_GetOrderByIDAndCustomerID_def Queries_GetOrderByIDAndCustomerID_def
        db_call_calm pgUUID_eq_Some one_row_def)
qed

lemma sort_key_empty [simp]: "sort_key f xs = [] \<longleftrightarrow> xs = []"
  by (metis length_0_conv length_sort)

text \<open>The items of an order, in the order the query returns them.\<close>

definition items_result :: "tables \<Rightarrow> uuid \<Rightarrow> OrderItem list" where
  "items_result d oid = map scan_item (sort_key item_key (items_of d oid))"

lemma get_items_calm:
  "calm (w_env w) \<Longrightarrow>
     Repository_GetOrderItemsByOrderID oid w = (Inr (items_result (w_db w) oid), tick w)"
  by (simp add: Repository_GetOrderItemsByOrderID_def Queries_GetOrderItemsByOrderID_def
      db_call_calm pgUUID_eq_Some items_result_def items_of_def tick_def)

lemma get_events_calm:
  "calm (w_env w) \<Longrightarrow>
     Repository_GetOrderEventsByOrderID oid w =
       (Inr (map scan_event (rev (sort_key event_key (history (w_db w) oid)))), tick w)"
  by (simp add: Repository_GetOrderEventsByOrderID_def Queries_GetOrderEventsByOrderID_def
      db_call_calm pgUUID_eq_Some history_def tick_def)

section \<open>Transactions that move one order\<close>

lemma updated_ids:
  "o_id ` set (map (\<lambda>x. if Q x then set_status s now x else x) xs) = o_id ` set xs"
proof -
  have "map o_id (map (\<lambda>x. if Q x then set_status s now x else x) xs) = map o_id xs" by simp
  then show ?thesis by (simp only: list.set_map [symmetric])
qed

text \<open>The event part that all writes share: draw an id, insert the event, return.\<close>

lemma succeeds_draw_event:
  fixes now :: time and actorID :: "uuid option" and ip :: "netip_Addr option"
  assumes calm: "calm (w_env w)" and fresh: "env_uuid (w_env w) (w_tick w) \<notin> v_id ` set (order_events (w_db w))"
    and oid: "oid \<in> o_id ` set (orders (w_db w))" and actor: "actor \<in> {''CUSTOMER'', ''ADMIN'', ''SYSTEM''}"
    and texts: "pg_null_text from" "pg_null_text to" "pg_text action" "pg_null_text reason"
  shows "succeeds (bindE uuid_New (\<lambda>eventID. bindE (Queries_CreateOrderEvent (Tx now)
      \<lparr>EventP_ID = Some eventID, EventP_OrderID = Some oid, EventP_ActorType = actor,
       EventP_ActorID = actorID, EventP_FromStatus = from, EventP_ToStatus = to,
       EventP_Action = action, EventP_Reason = reason, EventP_IpAddress = ip\<rparr>)
      (\<lambda>_. returnE x))) w
    (\<lambda>y d. y = x \<and> (\<exists>vid. vid \<notin> v_id ` set (order_events (w_db w)) \<and>
       d = (w_db w)\<lparr>order_events := order_events (w_db w) @
         [\<lparr>v_id = vid, v_order_id = oid, v_actor_type = actor, v_actor_id = actorID,
           v_from_status = from, v_to_status = to, v_action = action, v_reason = reason,
           v_ip_address = ip, v_created_at = now\<rparr>]\<rparr>))"
    (is "succeeds (bindE uuid_New ?rest) w ?P")
proof (rule succeeds_bind)
  let ?vid = "env_uuid (w_env w) (w_tick w)"
  show "succeeds uuid_New w (\<lambda>v d. v = ?vid \<and> d = w_db w)" by (rule succeeds_draw) simp
  fix v w' assume w': "onward w w'" "v = ?vid \<and> w_db w' = w_db w"
  have calm': "calm (w_env w')" using w'(1) calm by (rule onward_calm)
  have v: "v \<notin> v_id ` set (order_events (w_db w'))" and o: "oid \<in> o_id ` set (orders (w_db w'))"
    using w' fresh oid by simp_all
  show "succeeds (?rest v) w' ?P"
    by (rule succeeds_bind [OF succeeds_event [OF calm' v o actor texts]])
      (use w' fresh in auto)
qed

lemma succeeds_move_event:
  assumes calm: "calm (w_env w)" and fresh: "env_uuid (w_env w) (w_tick w) \<notin> v_id ` set (order_events (w_db w))"
    and oid: "oid \<in> o_id ` set (orders (w_db w))" and actor: "actor \<in> {''CUSTOMER'', ''ADMIN'', ''SYSTEM''}"
    and texts: "pg_text from" "pg_text to" "pg_text action" "pg_null_text reason"
  shows "succeeds (bindE uuid_New (\<lambda>eventID. bindE (Queries_CreateOrderEvent (Tx now)
      \<lparr>EventP_ID = Some eventID, EventP_OrderID = Some oid, EventP_ActorType = actor,
       EventP_ActorID = actorID, EventP_FromStatus = Some from, EventP_ToStatus = Some to,
       EventP_Action = action, EventP_Reason = reason, EventP_IpAddress = ip\<rparr>)
      (\<lambda>_. returnE x))) w
    (\<lambda>y d. y = x \<and> (\<exists>vid. vid \<notin> v_id ` set (order_events (w_db w)) \<and>
       d = (w_db w)\<lparr>order_events := order_events (w_db w) @
         [move_event vid oid actor actorID from to action reason ip now]\<rparr>))"
  unfolding move_event_def
  by (rule succeeds_draw_event) (use assms in \<open>simp_all add: pg_null_text_def\<close>)

text \<open>What a move leaves: the row with its new status, and one event.\<close>

definition moved_tables ::
    "tables \<Rightarrow> uuid \<Rightarrow> string \<Rightarrow> string \<Rightarrow> string \<Rightarrow> string \<Rightarrow> uuid option \<Rightarrow> string option \<Rightarrow>
     string option \<Rightarrow> time \<Rightarrow> tables \<Rightarrow> bool" where
  "moved_tables d oid from to action actor actorID reason ip now d' \<longleftrightarrow>
     (\<exists>vid. vid \<notin> v_id ` set (order_events d) \<and>
        d' = move_order oid to now
          (move_event vid oid actor actorID from to action reason (inetValue ip) now) d)"

text \<open>After the row update, the event completes the move.\<close>

lemma succeeds_finish_move:
  assumes calm: "calm (w_env w)" and fresh: "fresh_uuids w" and w': "onward w w'"
    and db: "w_db w' = (w_db w)\<lparr>orders := map (\<lambda>x. if o_id x = oid then set_status to now x else x)
              (orders (w_db w))\<rparr>"
    and oid: "oid \<in> o_id ` set (orders (w_db w))" and actor: "actor \<in> {''CUSTOMER'', ''ADMIN'', ''SYSTEM''}"
    and texts: "pg_text from" "pg_text to" "pg_text action" "pg_null_text reason"
  shows "succeeds (bindE uuid_New (\<lambda>eventID. bindE (Queries_CreateOrderEvent (Tx now)
      \<lparr>EventP_ID = Some eventID, EventP_OrderID = Some oid, EventP_ActorType = actor,
       EventP_ActorID = actorID, EventP_FromStatus = Some from, EventP_ToStatus = Some to,
       EventP_Action = action, EventP_Reason = reason, EventP_IpAddress = inetValue ip\<rparr>)
      (\<lambda>_. returnE x))) w'
    (\<lambda>y d. y = x \<and> moved_tables (w_db w) oid from to action actor actorID reason ip now d)"
proof (rule succeeds_mono [OF succeeds_move_event])
  show "calm (w_env w')" using w' calm by (rule onward_calm)
  show "env_uuid (w_env w') (w_tick w') \<notin> v_id ` set (order_events (w_db w'))"
    using fresh w' by (simp add: db onward_def fresh_event)
  show "oid \<in> o_id ` set (orders (w_db w'))"
    using oid by (simp add: db updated_ids del: list.set_map set_map)
  fix y d
  assume "y = x \<and> (\<exists>vid. vid \<notin> v_id ` set (order_events (w_db w')) \<and>
      d = (w_db w')\<lparr>order_events := order_events (w_db w') @
        [move_event vid oid actor actorID from to action reason (inetValue ip) now]\<rparr>)"
  then show "y = x \<and> moved_tables (w_db w) oid from to action actor actorID reason ip now d"
    by (auto simp: db moved_tables_def move_order_def)
qed (use actor texts in auto)

lemma succeeds_cancel_tx:
  assumes calm: "calm (w_env w)" and ok: "tables_ok (w_db w)"
    and r: "owned_order (w_db w) (CancelCmd_OrderID cmd) (CancelCmd_CustomerID cmd) r"
      "o_status r = StatusPending"
    and fresh: "fresh_uuids w" and reason: "pg_null_text (CancelCmd_Reason cmd)"
  shows "succeeds (cancel_tx cmd (Tx now)) w
    (\<lambda>x d. x = scan_order (set_status StatusCancelled now r) \<and>
       moved_tables (w_db w) (CancelCmd_OrderID cmd) StatusPending StatusCancelled actionCancelled
         actorTypeCustomer (CancelCmd_ActorID cmd) (CancelCmd_Reason cmd) (CancelCmd_IPAddress cmd) now d)"
  unfolding cancel_tx_def
proof (rule succeeds_bind)
  let ?oid = "CancelCmd_OrderID cmd"
  have mem: "r \<in> set (orders (w_db w))" "o_id r = ?oid" "o_customer_id r = CancelCmd_CustomerID cmd"
    using r(1) by (simp_all add: owned_order_def)
  let ?d1 = "(w_db w)\<lparr>orders := map (\<lambda>x. if o_id x = ?oid then set_status StatusCancelled now x else x)
      (orders (w_db w))\<rparr>"
  let ?x = "scan_order (set_status StatusCancelled now r)"
  have "update_orders (\<lambda>x. pgUUID_eq (o_id x) (Some ?oid) \<and>
        pgUUID_eq (o_customer_id x) (Some (CancelCmd_CustomerID cmd)) \<and> o_status x = StatusPending)
      StatusCancelled now (w_db w) = ([set_status StatusCancelled now r], ?d1)"
    using mem r(2) by (subst update_orders_unique [OF ok mem(1)]) simp_all
  then have "Queries_CancelPendingOrder (Tx now) \<lparr>CancelP_ID = toPgUUID ?oid,
      CancelP_CustomerID = toPgUUID (CancelCmd_CustomerID cmd)\<rparr> w = (Inr ?x, (tick w)\<lparr>w_db := ?d1\<rparr>)"
    using calm by (simp add: Queries_CancelPendingOrder_def run_stmt_calm one_row_def)
  then show "succeeds (Queries_CancelPendingOrder (Tx now) \<lparr>CancelP_ID = toPgUUID ?oid,
      CancelP_CustomerID = toPgUUID (CancelCmd_CustomerID cmd)\<rparr>) w (\<lambda>y d. y = ?x \<and> d = ?d1)"
    by (rule succeedsI) simp_all
  fix y w' assume w': "onward w w'" "y = ?x \<and> w_db w' = ?d1"
  have "Order_ID y = Some ?oid" using w' mem by (simp add: scan_order_def)
  moreover have "?oid \<in> o_id ` set (orders (w_db w))" using mem by (simp add: rev_image_eqI)
  ultimately show "succeeds (bindE uuid_New (\<lambda>eventID.
     bindE (Queries_CreateOrderEvent (Tx now)
       \<lparr>EventP_ID = toPgUUID eventID, EventP_OrderID = Order_ID y,
        EventP_ActorType = actorTypeCustomer, EventP_ActorID = nullUUID (CancelCmd_ActorID cmd),
        EventP_FromStatus = nullStatus StatusPending, EventP_ToStatus = nullStatus StatusCancelled,
        EventP_Action = actionCancelled, EventP_Reason = nullString (CancelCmd_Reason cmd),
        EventP_IpAddress = inetValue (CancelCmd_IPAddress cmd)\<rparr>)
     (\<lambda>_. returnE y))) w' (\<lambda>x d. x = ?x \<and>
       moved_tables (w_db w) ?oid StatusPending StatusCancelled actionCancelled
         actorTypeCustomer (CancelCmd_ActorID cmd) (CancelCmd_Reason cmd) (CancelCmd_IPAddress cmd) now d)"
    using succeeds_finish_move [OF calm fresh w'(1), of ?oid StatusCancelled now actorTypeCustomer
        StatusPending actionCancelled "CancelCmd_Reason cmd" "CancelCmd_ActorID cmd"
        "CancelCmd_IPAddress cmd" ?x] w'(2) reason
    by (simp add: action_defs(1))
qed

lemma succeeds_update_tx:
  assumes calm: "calm (w_env w)" and ok: "tables_ok (w_db w)"
    and r: "r \<in> set (orders (w_db w))" "o_id r = UpdateCmd_OrderID cmd"
      "o_status r = UpdateCmd_ExpectedStatus cmd"
    and move: "CanTransition (UpdateCmd_ExpectedStatus cmd) (UpdateCmd_NewStatus cmd)"
    and actor: "UpdateCmd_ActorType cmd \<in> {''ADMIN'', ''SYSTEM''}"
    and fresh: "fresh_uuids w" and reason: "pg_null_text (UpdateCmd_Reason cmd)"
  shows "succeeds (update_tx cmd (Tx now)) w
    (\<lambda>x d. x = scan_order (set_status (UpdateCmd_NewStatus cmd) now r) \<and>
       moved_tables (w_db w) (UpdateCmd_OrderID cmd) (UpdateCmd_ExpectedStatus cmd)
         (UpdateCmd_NewStatus cmd) actionStatusUpdated (UpdateCmd_ActorType cmd)
         (UpdateCmd_ActorID cmd) (UpdateCmd_Reason cmd) (UpdateCmd_IPAddress cmd) now d)"
  unfolding update_tx_def
proof (rule succeeds_bind)
  let ?oid = "UpdateCmd_OrderID cmd" and ?f = "UpdateCmd_ExpectedStatus cmd"
    and ?t = "UpdateCmd_NewStatus cmd"
  let ?d1 = "(w_db w)\<lparr>orders := map (\<lambda>x. if o_id x = ?oid then set_status ?t now x else x)
      (orders (w_db w))\<rparr>"
  let ?x = "scan_order (set_status ?t now r)"
  have st: "pg_text ?f" "pg_text ?t" "?f \<noteq> []" "?t \<noteq> []" "IsValidStatus ?t"
    using move by (auto simp: CanTransition_iff)
  have "update_orders (\<lambda>x. pgUUID_eq (o_id x) (Some ?oid) \<and> o_status x = ?f) ?t now (w_db w) =
      ([set_status ?t now r], ?d1)"
    using r by (subst update_orders_unique [OF ok r(1)]) simp_all
  then have "Queries_UpdateOrderStatusIfCurrentStatusMatches (Tx now) \<lparr>UpdateP_ID = toPgUUID ?oid,
      UpdateP_Status = ?f, UpdateP_Status_2 = ?t\<rparr> w = (Inr ?x, (tick w)\<lparr>w_db := ?d1\<rparr>)"
    using calm st
    by (simp add: Queries_UpdateOrderStatusIfCurrentStatusMatches_def run_stmt_calm one_row_def)
  then show "succeeds (Queries_UpdateOrderStatusIfCurrentStatusMatches (Tx now)
      \<lparr>UpdateP_ID = toPgUUID ?oid, UpdateP_Status = ?f, UpdateP_Status_2 = ?t\<rparr>) w
      (\<lambda>y d. y = ?x \<and> d = ?d1)"
    by (rule succeedsI) simp_all
  fix y w' assume w': "onward w w'" "y = ?x \<and> w_db w' = ?d1"
  have "Order_ID y = Some ?oid" using w' r by (simp add: scan_order_def)
  moreover have "?oid \<in> o_id ` set (orders (w_db w))" using r by (simp add: rev_image_eqI)
  ultimately show "succeeds (bindE uuid_New (\<lambda>eventID.
     bindE (Queries_CreateOrderEvent (Tx now)
       \<lparr>EventP_ID = toPgUUID eventID, EventP_OrderID = Order_ID y,
        EventP_ActorType = UpdateCmd_ActorType cmd, EventP_ActorID = nullUUID (UpdateCmd_ActorID cmd),
        EventP_FromStatus = nullStatus ?f, EventP_ToStatus = nullStatus ?t,
        EventP_Action = actionStatusUpdated, EventP_Reason = nullString (UpdateCmd_Reason cmd),
        EventP_IpAddress = inetValue (UpdateCmd_IPAddress cmd)\<rparr>)
     (\<lambda>_. returnE y))) w' (\<lambda>x d. x = ?x \<and>
       moved_tables (w_db w) ?oid ?f ?t actionStatusUpdated (UpdateCmd_ActorType cmd)
         (UpdateCmd_ActorID cmd) (UpdateCmd_Reason cmd) (UpdateCmd_IPAddress cmd) now d)"
    using succeeds_finish_move [OF calm fresh w'(1), of ?oid ?t now "UpdateCmd_ActorType cmd"
        ?f actionStatusUpdated "UpdateCmd_Reason cmd" "UpdateCmd_ActorID cmd"
        "UpdateCmd_IPAddress cmd" ?x] w'(2) reason st actor
    by auto
qed

text \<open>No row matches: the body stops before the event.\<close>

lemma fails_cancel_tx:
  assumes "calm (w_env w)"
    and "\<And>r. owned_order (w_db w) (CancelCmd_OrderID cmd) (CancelCmd_CustomerID cmd) r \<Longrightarrow>
           o_status r \<noteq> StatusPending"
  shows "fails (cancel_tx cmd (Tx now)) w (\<lambda>e d. e = Sentinel PgxErrNoRows)"
proof -
  have q: "Queries_CancelPendingOrder (Tx now) \<lparr>CancelP_ID = toPgUUID (CancelCmd_OrderID cmd),
      CancelP_CustomerID = toPgUUID (CancelCmd_CustomerID cmd)\<rparr> w = (Inl (Sentinel PgxErrNoRows), tick w)"
    using assms by (auto simp: Queries_CancelPendingOrder_def run_stmt_calm owned_order_def update_orders_none)
  show ?thesis unfolding cancel_tx_def
    by (rule fails_bind_first, rule failsI, rule q) simp_all
qed

lemma fails_update_tx:
  assumes "calm (w_env w)"
    and none: "\<And>r. r \<in> set (orders (w_db w)) \<Longrightarrow> o_id r = UpdateCmd_OrderID cmd \<Longrightarrow>
           o_status r \<noteq> UpdateCmd_ExpectedStatus cmd"
    and "CanTransition (UpdateCmd_ExpectedStatus cmd) (UpdateCmd_NewStatus cmd)"
  shows "fails (update_tx cmd (Tx now)) w (\<lambda>e d. e = Sentinel PgxErrNoRows)"
proof -
  have "\<not> list_ex (\<lambda>r. o_id r = UpdateCmd_OrderID cmd \<and> o_status r = UpdateCmd_ExpectedStatus cmd)
      (orders (w_db w))" using none by (auto simp: list_ex_iff)
  then have q: "Queries_UpdateOrderStatusIfCurrentStatusMatches (Tx now)
      \<lparr>UpdateP_ID = toPgUUID (UpdateCmd_OrderID cmd), UpdateP_Status = UpdateCmd_ExpectedStatus cmd,
       UpdateP_Status_2 = UpdateCmd_NewStatus cmd\<rparr> w = (Inl (Sentinel PgxErrNoRows), tick w)"
    using assms CanTransition_text [OF assms(3)]
    by (simp add: Queries_UpdateOrderStatusIfCurrentStatusMatches_def run_stmt_calm update_orders_none)
  show ?thesis unfolding update_tx_def
    by (rule fails_bind_first, rule failsI, rule q) simp_all
qed

section \<open>The service when nothing interferes\<close>

lemma replay_valid:
  "replay c es = Some (Some s) \<Longrightarrow> (\<And>x. c = Some x \<Longrightarrow> IsValidStatus x) \<Longrightarrow> IsValidStatus s"
proof (induction es arbitrary: c)
  case Nil
  then show ?case by simp
next
  case (Cons e es)
  from Cons.prems(1) have "replay (v_to_status e) es = Some (Some s)"
    and "legal_move c (v_to_status e)" by (auto split: if_splits)
  then show ?case
    by (intro Cons.IH) (auto simp: legal_move_def split: option.splits dest: CanTransition_valid)
qed

lemma stored_status_valid: "tables_ok d \<Longrightarrow> r \<in> set (orders d) \<Longrightarrow> IsValidStatus (o_status r)"
  by (auto simp: tables_ok_def order_ok_def dest: replay_valid)

lemma succeeds_get_order:
  "calm (w_env w) \<Longrightarrow> tables_ok (w_db w) \<Longrightarrow> owned_order (w_db w) oid cid r \<Longrightarrow>
     succeeds (Repository_GetOrderByIDAndCustomerID oid cid) w (\<lambda>x d. x = scan_order r \<and> d = w_db w)"
  by (rule succeedsI, erule (2) get_order_calm_found) simp_all

lemma fails_get_order:
  "calm (w_env w) \<Longrightarrow> (\<And>r. \<not> owned_order (w_db w) oid cid r) \<Longrightarrow>
     fails (Repository_GetOrderByIDAndCustomerID oid cid) w
       (\<lambda>e d. e = Sentinel PgxErrNoRows \<and> d = w_db w)"
  by (rule failsI, rule get_order_calm_none) simp_all

lemma succeeds_get_items:
  "calm (w_env w) \<Longrightarrow>
     succeeds (Repository_GetOrderItemsByOrderID oid) w
       (\<lambda>x d. x = items_result (w_db w) oid \<and> d = w_db w)"
  by (rule succeedsI, erule get_items_calm) simp_all

lemma moved_tables_items: "moved_tables d oid f t act a ai re ip now d' \<Longrightarrow> items_result d' x = items_result d x"
  by (auto simp: moved_tables_def items_result_def)

lemma set_status_id: "Order_ID (scan_order (set_status s now r)) = Some (o_id r)"
  by (simp add: scan_order_def)

text \<open>Attaching the items to the order a move returned.\<close>

lemma succeeds_with_items:
  assumes calm: "calm (w_env w)"
    and m: "succeeds m w (\<lambda>x d. x = scan_order (set_status s now r) \<and>
        moved_tables (w_db w) (o_id r) f t act a ai re ip now d)"
  shows "succeeds (bindE m (\<lambda>order. with_items pg_service order)) w
    (\<lambda>x d. Details_Order x = scan_order (set_status s now r) \<and>
       Details_Items x = items_result (w_db w) (o_id r) \<and>
       moved_tables (w_db w) (o_id r) f t act a ai re ip now d)"
proof (rule succeeds_bind [OF m])
  fix x w' assume w': "onward w w'" and x: "x = scan_order (set_status s now r) \<and>
      moved_tables (w_db w) (o_id r) f t act a ai re ip now (w_db w')"
  then have "uuid_bytes (Order_ID x) = o_id r" by (simp add: set_status_id uuid_bytes_def)
  moreover have "calm (w_env w')" using w' calm by (rule onward_calm)
  ultimately show "succeeds (with_items pg_service x) w'
      (\<lambda>x d. Details_Order x = scan_order (set_status s now r) \<and>
       Details_Items x = items_result (w_db w) (o_id r) \<and>
       moved_tables (w_db w) (o_id r) f t act a ai re ip now d)"
    using x unfolding with_items_def pg_simps
    by (auto intro!: succeeds_bind [OF succeeds_get_items] simp: moved_tables_items)
qed

lemma CancelOrder_succeeds:
  assumes calm: "calm (w_env w)" and ok: "tables_ok (w_db w)" and fresh: "fresh_uuids w"
    and r: "owned_order (w_db w) (CancelIn_OrderID input) (CancelIn_CustomerID input) r"
      "o_status r = StatusPending" and reason: "pg_null_text (CancelIn_Reason input)"
  shows "\<exists>now. succeeds (Service_CancelOrder pg_service input) w
    (\<lambda>x d. x = scan_order (set_status StatusCancelled now r) \<and>
       moved_tables (w_db w) (CancelIn_OrderID input) StatusPending StatusCancelled actionCancelled
         actorTypeCustomer (CancelIn_ActorID input) (CancelIn_Reason input) (CancelIn_IPAddress input)
         now d)"
proof -
  let ?now = "now_at (w_env w) (Suc (w_tick w))"
  let ?cmd = "\<lparr>CancelCmd_OrderID = CancelIn_OrderID input, CancelCmd_CustomerID = CancelIn_CustomerID input,
        CancelCmd_ActorID = CancelIn_ActorID input, CancelCmd_Reason = CancelIn_Reason input,
        CancelCmd_IPAddress = CancelIn_IPAddress input\<rparr>"
  let ?P = "\<lambda>x d. x = scan_order (set_status StatusCancelled ?now r) \<and>
       moved_tables (w_db w) (CancelIn_OrderID input) StatusPending StatusCancelled actionCancelled
         actorTypeCustomer (CancelIn_ActorID input) (CancelIn_Reason input) (CancelIn_IPAddress input)
         ?now d"
  have "succeeds (Repository_CancelOrderWithAudit ?cmd) (tick w) ?P"
    unfolding Repository_CancelOrderWithAudit_def
  proof (rule succeeds_withTx)
    fix w' assume w': "onward (tick w) w'" "w_db w' = w_db (tick w)"
    then have "onward w w'" by (auto intro: onward_trans [OF onward_tick(1)])
    with w' calm ok fresh r reason
      succeeds_cancel_tx [of w' ?cmd r "now_at (w_env (tick w)) (w_tick (tick w))"]
    show "succeeds (cancel_tx ?cmd (Tx (now_at (w_env (tick w)) (w_tick (tick w))))) w' ?P"
      by (simp add: onward_calm onward_fresh)
  qed (use calm in simp)
  then obtain x w2 where run: "Repository_CancelOrderWithAudit ?cmd (tick w) = (Inr x, w2)"
      "onward (tick w) w2" "?P x (w_db w2)"
    unfolding succeeds_def by blast
  have "Order_Status (scan_order r) = StatusPending" using r(2) by (simp add: scan_order_def)
  then have "ValidateTransition (Order_Status (scan_order r)) StatusCancelled = Inr ()"
    using ValidateTransition_Inr [of StatusPending StatusCancelled "()"] by simp
  then have "Service_CancelOrder pg_service input w = (Inr x, w2)"
    using get_order_calm_found [OF calm ok r(1)] run(1)
    by (simp add: Service_CancelOrder_def bindE_def onErrE_def)
  then have "succeeds (Service_CancelOrder pg_service input) w ?P"
    by (rule succeedsI) (use run onward_trans [OF onward_tick(1) run(2)] in auto)
  then show ?thesis by blast
qed

lemma CancelOrderDetails_succeeds:
  assumes calm: "calm (w_env w)" and ok: "tables_ok (w_db w)" and fresh: "fresh_uuids w"
    and r: "owned_order (w_db w) (CancelIn_OrderID input) (CancelIn_CustomerID input) r"
      "o_status r = StatusPending" and reason: "pg_null_text (CancelIn_Reason input)"
  shows "\<exists>now. succeeds (Service_CancelOrderDetails pg_service input) w
    (\<lambda>x d. Details_Order x = scan_order (set_status StatusCancelled now r) \<and>
       Details_Items x = items_result (w_db w) (o_id r) \<and>
       moved_tables (w_db w) (o_id r) StatusPending StatusCancelled actionCancelled
         actorTypeCustomer (CancelIn_ActorID input) (CancelIn_Reason input) (CancelIn_IPAddress input)
         now d)"
proof -
  have "CancelIn_OrderID input = o_id r" using r(1) by (simp add: owned_order_def)
  with CancelOrder_succeeds [OF assms] obtain now where
    "succeeds (Service_CancelOrder pg_service input) w
      (\<lambda>x d. x = scan_order (set_status StatusCancelled now r) \<and>
         moved_tables (w_db w) (o_id r) StatusPending StatusCancelled actionCancelled
           actorTypeCustomer (CancelIn_ActorID input) (CancelIn_Reason input)
           (CancelIn_IPAddress input) now d)" by auto
  from succeeds_with_items [OF calm this] show ?thesis
    unfolding Service_CancelOrderDetails_def by blast
qed

lemma CancelOrderDetails_refused:
  assumes calm: "calm (w_env w)" and ok: "tables_ok (w_db w)"
    and r: "owned_order (w_db w) (CancelIn_OrderID input) (CancelIn_CustomerID input) r"
      "o_status r \<noteq> StatusPending"
  shows "fails (Service_CancelOrderDetails pg_service input) w
    (\<lambda>e d. errors_Is e ErrInvalidTransition \<and> d = w_db w)"
proof -
  have "IsValidStatus (o_status r)" using ok r(1) by (auto simp: owned_order_def intro: stored_status_valid)
  then obtain t where "ValidateTransition (o_status r) StatusCancelled = Inl (Wrapped ErrInvalidTransition t)"
    using r(2) by (cases "o_status r" StatusCancelled rule: ValidateTransition_cases) (auto simp: CanTransition_iff)
  then have "Service_CancelOrderDetails pg_service input w = (Inl (Wrapped ErrInvalidTransition t), tick w)"
    using get_order_calm_found [OF calm ok r(1)]
    by (simp add: Service_CancelOrderDetails_def Service_CancelOrder_def bindE_def onErrE_def scan_order_def)
  then show ?thesis by (rule failsI) simp_all
qed

lemma CancelOrderDetails_not_found:
  assumes calm: "calm (w_env w)"
    and none: "\<And>r. \<not> owned_order (w_db w) (CancelIn_OrderID input) (CancelIn_CustomerID input) r"
  shows "fails (Service_CancelOrderDetails pg_service input) w
    (\<lambda>e d. e = Sentinel ErrOrderNotFound \<and> d = w_db w)"
proof -
  have "Service_CancelOrderDetails pg_service input w = (Inl (Sentinel ErrOrderNotFound), tick w)"
    using get_order_calm_none [OF calm none]
    by (simp add: Service_CancelOrderDetails_def Service_CancelOrder_def bindE_def onErrE_def)
  then show ?thesis by (rule failsI) simp_all
qed

section \<open>Status updates\<close>

lemma allowed_actor_iff:
  "isAllowedActorType a [ActorTypeAdmin, ActorTypeSystem] \<longleftrightarrow> a \<in> {''ADMIN'', ''SYSTEM''}"
  by (auto simp: isAllowedActorType_def ActorTypeAdmin_def ActorTypeSystem_def)

lemma UpdateOrderStatusByTarget_succeeds:
  assumes calm: "calm (w_env w)" and ok: "tables_ok (w_db w)" and fresh: "fresh_uuids w"
    and r: "r \<in> set (orders (w_db w))" "CanTransition (o_status r) target"
    and actor: "actor \<in> {''ADMIN'', ''SYSTEM''}" and reason: "pg_null_text reason"
  shows "\<exists>now. succeeds (Service_UpdateOrderStatusByTarget pg_service (o_id r) target actor actorID reason ip) w
    (\<lambda>x d. Details_Order x = scan_order (set_status target now r) \<and>
       Details_Items x = items_result (w_db w) (o_id r) \<and>
       moved_tables (w_db w) (o_id r) (o_status r) target actionStatusUpdated actor actorID reason ip now d)"
proof -
  let ?now = "now_at (w_env w) (w_tick w)"
  let ?cmd = "\<lparr>UpdateCmd_OrderID = o_id r, UpdateCmd_ExpectedStatus = o_status r,
      UpdateCmd_NewStatus = target, UpdateCmd_ActorType = actor, UpdateCmd_ActorID = actorID,
      UpdateCmd_Reason = reason, UpdateCmd_IPAddress = ip\<rparr>"
  have exp: "expectedStatusForTarget target = Inr (o_status r)"
    using r(2) by (auto simp: expectedStatusForTarget_def CanTransition_iff)
  have val: "ValidateTransition (o_status r) target = Inr ()"
    using r(2) ValidateTransition_Inr [of "o_status r" target "()"] by simp
  have "succeeds (Repository_UpdateOrderStatusWithAudit ?cmd) w (\<lambda>x d.
      x = scan_order (set_status target ?now r) \<and>
      moved_tables (w_db w) (o_id r) (o_status r) target actionStatusUpdated actor actorID reason ip ?now d)"
    unfolding Repository_UpdateOrderStatusWithAudit_def
  proof (rule succeeds_withTx [OF calm])
    fix w' assume w': "onward w w'" "w_db w' = w_db w"
    with calm ok fresh r actor reason succeeds_update_tx [of w' r ?cmd ?now]
    show "succeeds (update_tx ?cmd (Tx ?now)) w' (\<lambda>x d. x = scan_order (set_status target ?now r) \<and>
        moved_tables (w_db w) (o_id r) (o_status r) target actionStatusUpdated actor actorID reason ip ?now d)"
      by (simp add: onward_calm onward_fresh)
  qed
  then have "succeeds (onErrE (Repository_UpdateOrderStatusWithAudit ?cmd)
        (\<lambda>err. if errors_Is err PgxErrNoRows then resolveStatusUpdateNoRows pg_service (o_id r)
               else failE err)) w (\<lambda>x d.
      x = scan_order (set_status target ?now r) \<and>
      moved_tables (w_db w) (o_id r) (o_status r) target actionStatusUpdated actor actorID reason ip ?now d)"
    by (rule succeeds_onErr)
  from succeeds_with_items [OF calm this] show ?thesis
    unfolding Service_UpdateOrderStatusByTarget_def exp Service_UpdateOrderStatusDetails_def
      Service_UpdateOrderStatus_def
    using actor by (auto simp: allowed_actor_iff val cong: if_cong)
qed

text \<open>A legal target that the order is not ready for, or an order that does not exist.\<close>

lemma UpdateOrderStatusByTarget_refused:
  assumes calm: "calm (w_env w)" and ok: "tables_ok (w_db w)"
    and exp: "expectedStatusForTarget target = Inr expected"
    and none: "\<And>r. r \<in> set (orders (w_db w)) \<Longrightarrow> o_id r = oid \<Longrightarrow> o_status r \<noteq> expected"
    and actor: "actor \<in> {''ADMIN'', ''SYSTEM''}"
  shows "fails (Service_UpdateOrderStatusByTarget pg_service oid target actor actorID reason ip) w
    (\<lambda>e d. e = Sentinel (if order_exists (w_db w) oid then ErrInvalidTransition else ErrOrderNotFound) \<and>
       d = w_db w)"
proof -
  let ?cmd = "\<lparr>UpdateCmd_OrderID = oid, UpdateCmd_ExpectedStatus = expected,
      UpdateCmd_NewStatus = target, UpdateCmd_ActorType = actor, UpdateCmd_ActorID = actorID,
      UpdateCmd_Reason = reason, UpdateCmd_IPAddress = ip\<rparr>"
  let ?Q = "\<lambda>e d. e = Sentinel (if order_exists (w_db w) oid then ErrInvalidTransition else ErrOrderNotFound) \<and>
       d = w_db w"
  have move: "CanTransition expected target" using exp by (simp only: expectedStatus_Inr)
  then have val: "ValidateTransition expected target = Inr ()"
    using ValidateTransition_Inr [of expected target "()"] by simp
  have "fails (Repository_UpdateOrderStatusWithAudit ?cmd) w
      (\<lambda>e d. e = Sentinel PgxErrNoRows \<and> d = w_db w)"
    unfolding Repository_UpdateOrderStatusWithAudit_def
    by (rule fails_withTx [OF calm], rule fails_update_tx)
      (use calm none move in \<open>auto simp: onward_calm\<close>)
  then have "fails (onErrE (Repository_UpdateOrderStatusWithAudit ?cmd)
      (\<lambda>err. if errors_Is err PgxErrNoRows then resolveStatusUpdateNoRows pg_service oid
             else failE err)) w ?Q"
  proof (rule fails_onErr)
    fix e w' assume w': "onward w w'" "e = Sentinel PgxErrNoRows \<and> w_db w' = w_db w"
    have calm': "calm (w_env w')" using w'(1) calm by (rule onward_calm)
    have "history (w_db w) oid = [] \<longleftrightarrow> \<not> order_exists (w_db w) oid"
      using ok by (rule history_empty_iff)
    then have "length (map scan_event (rev (sort_key event_key (history (w_db w') oid)))) = 0 \<longleftrightarrow>
        \<not> order_exists (w_db w) oid" using w'(2) by simp
    then have "resolveStatusUpdateNoRows pg_service oid w' =
        (Inl (Sentinel (if order_exists (w_db w) oid then ErrInvalidTransition else ErrOrderNotFound)),
         tick w')"
      by (simp add: resolveStatusUpdateNoRows_def bindE_def get_events_calm [OF calm'])
    then have "((if errors_Is e PgxErrNoRows then resolveStatusUpdateNoRows pg_service oid
             else failE e) :: Order dbop) w' =
        (Inl (Sentinel (if order_exists (w_db w) oid then ErrInvalidTransition else ErrOrderNotFound)),
         tick w')" using w'(2) by simp
    then show "fails ((if errors_Is e PgxErrNoRows then resolveStatusUpdateNoRows pg_service oid
             else failE e) :: Order dbop) w' ?Q"
      by (rule failsI) (use w'(2) in simp_all)
  qed
  then show ?thesis
    unfolding Service_UpdateOrderStatusByTarget_def exp Service_UpdateOrderStatusDetails_def
      Service_UpdateOrderStatus_def
    using actor by (auto simp: allowed_actor_iff val cong: if_cong intro!: fails_bind_first)
qed

text \<open>Targets that no transition reaches, and callers that may not update.\<close>

lemma UpdateOrderStatusByTarget_bad_target:
  assumes "target = StatusPending \<or> \<not> IsValidStatus target"
  shows "\<exists>e. Service_UpdateOrderStatusByTarget svc oid target actor actorID reason ip s = (Inl e, s) \<and>
     errors_Is e (if target = StatusPending then ErrInvalidTransition else ErrUnknownStatus)"
proof -
  from assms have "expectedStatusForTarget target = (case ValidateTransition StatusPending target of
        Inl e \<Rightarrow> Inl e | Inr _ \<Rightarrow> Inr [])"
    by (auto simp: expectedStatusForTarget_def)
  moreover from assms have "\<exists>e. ValidateTransition StatusPending target = Inl e \<and>
      errors_Is e (if target = StatusPending then ErrInvalidTransition else ErrUnknownStatus)"
    by (auto simp: ValidateTransition_def)
  ultimately show ?thesis by (auto simp: Service_UpdateOrderStatusByTarget_def)
qed

section \<open>The worker's batch\<close>

text \<open>One event for each order of the batch, in the order the rows came back.\<close>

definition batch_events ::
    "ProcessPendingOrdersBatchCommand \<Rightarrow> time \<Rightarrow> uuid list \<Rightarrow> order_events_row list \<Rightarrow> bool" where
  "batch_events cmd now ids es \<longleftrightarrow>
     list_all2 (\<lambda>oid e. \<exists>vid. e = move_event vid oid actorTypeSystem (BatchCmd_ActorID cmd)
        StatusPending StatusProcessing actionWorkerMovedToProcessing (BatchCmd_Reason cmd)
        (inetValue (BatchCmd_IPAddress cmd)) now) ids es"

lemma succeeds_batch_events:
  assumes "calm (w_env w)" and "pg_null_text (BatchCmd_Reason cmd)"
    and "\<forall>r \<in> set rs. o_id r \<in> o_id ` set (orders (w_db w))"
    and "\<forall>n \<in> {w_tick w ..< w_tick w + 2 * length rs}.
      env_uuid (w_env w) n \<notin> v_id ` set (order_events (w_db w))"
    and "inj_on (env_uuid (w_env w)) {w_tick w ..< w_tick w + 2 * length rs}"
  shows "succeeds (mapE (batch_event cmd (Tx now)) (map scan_order rs)) w
    (\<lambda>_ d. \<exists>es. d = (w_db w)\<lparr>order_events := order_events (w_db w) @ es\<rparr> \<and>
       batch_events cmd now (map o_id rs) es)"
  using assms
proof (induction rs arbitrary: w)
  case Nil
  show ?case by (auto intro!: exI [of _ "[]"] simp: batch_events_def)
next
  case (Cons r rs)
  let ?ev = "\<lambda>vid. move_event vid (o_id r) actorTypeSystem (BatchCmd_ActorID cmd)
          StatusPending StatusProcessing actionWorkerMovedToProcessing (BatchCmd_Reason cmd)
          (inetValue (BatchCmd_IPAddress cmd)) now"
  let ?vid = "env_uuid (w_env w) (w_tick w)"
  let ?d1 = "(w_db w)\<lparr>order_events := order_events (w_db w) @ [?ev ?vid]\<rparr>"
  have first: "succeeds (batch_event cmd (Tx now) (scan_order r)) w (\<lambda>_ d. d = ?d1)"
    unfolding batch_event_def
  proof (rule succeeds_bind)
    show "succeeds uuid_New w (\<lambda>v d. v = ?vid \<and> d = w_db w)" by (rule succeeds_draw) simp
    fix v w' assume w': "onward w w'" "v = ?vid \<and> w_db w' = w_db w"
    have "succeeds (Queries_CreateOrderEvent (Tx now)
       \<lparr>EventP_ID = Some v, EventP_OrderID = Some (o_id r), EventP_ActorType = actorTypeSystem,
        EventP_ActorID = BatchCmd_ActorID cmd, EventP_FromStatus = Some StatusPending,
        EventP_ToStatus = Some StatusProcessing, EventP_Action = actionWorkerMovedToProcessing,
        EventP_Reason = BatchCmd_Reason cmd, EventP_IpAddress = inetValue (BatchCmd_IPAddress cmd)\<rparr>) w'
        (\<lambda>_ d. d = (w_db w')\<lparr>order_events := order_events (w_db w') @ [?ev v]\<rparr>)"
      unfolding move_event_def
      by (rule succeeds_event)
        (use w' Cons.prems onward_calm [OF w'(1)] in \<open>auto simp: actorTypeSystem_def\<close>)
    then show "succeeds (Queries_CreateOrderEvent (Tx now)
       \<lparr>EventP_ID = toPgUUID v, EventP_OrderID = Order_ID (scan_order r),
        EventP_ActorType = actorTypeSystem, EventP_ActorID = nullUUID (BatchCmd_ActorID cmd),
        EventP_FromStatus = nullStatus StatusPending, EventP_ToStatus = nullStatus StatusProcessing,
        EventP_Action = actionWorkerMovedToProcessing,
        EventP_Reason = nullString (BatchCmd_Reason cmd),
        EventP_IpAddress = inetValue (BatchCmd_IPAddress cmd)\<rparr>) w' (\<lambda>_ d. d = ?d1)"
      using w'(2) by (simp add: scan_order_def)
  qed
  then obtain x w1 where x: "batch_event cmd (Tx now) (scan_order r) w = (Inr x, w1)"
      "onward w w1" "w_db w1 = ?d1" unfolding succeeds_def by blast
  have tick1: "w_tick w1 = w_tick w + 2"
  proof -
    from x(1) obtain v w0 where "tick w = w0" "Queries_CreateOrderEvent (Tx now) v w0 = (Inr x, w1)"
      by (auto simp: batch_event_def bindE_def)
    moreover then have "w_tick w1 = Suc (w_tick w0)"
      by (auto simp: Queries_CreateOrderEvent_def run_stmt_def split: fault.splits sum.splits)
    ultimately show ?thesis by auto
  qed
  have "succeeds (mapE (batch_event cmd (Tx now)) (map scan_order rs)) w1
    (\<lambda>_ d. \<exists>es. d = (w_db w1)\<lparr>order_events := order_events (w_db w1) @ es\<rparr> \<and>
       batch_events cmd now (map o_id rs) es)"
  proof (rule Cons.IH)
    have env: "w_env w1 = w_env w" using x(2) by (simp add: onward_def)
    show "calm (w_env w1)" using env Cons.prems by simp
    show "\<forall>n \<in> {w_tick w1 ..< w_tick w1 + 2 * length rs}.
        env_uuid (w_env w1) n \<notin> v_id ` set (order_events (w_db w1))"
    proof (intro ballI)
      fix n assume n: "n \<in> {w_tick w1 ..< w_tick w1 + 2 * length rs}"
      then have "env_uuid (w_env w) n \<noteq> ?vid"
        using Cons.prems(5) tick1 by (auto dest: inj_onD [of _ _ n "w_tick w"])
      moreover have "env_uuid (w_env w) n \<notin> v_id ` set (order_events (w_db w))"
        using Cons.prems(4) n tick1 by simp
      ultimately show "env_uuid (w_env w1) n \<notin> v_id ` set (order_events (w_db w1))"
        by (simp add: env x(3))
    qed
    show "inj_on (env_uuid (w_env w1)) {w_tick w1 ..< w_tick w1 + 2 * length rs}"
      using Cons.prems(5) tick1 env by (auto intro: inj_on_subset)
  qed (use Cons.prems x(3) in auto)
  then obtain ys w2 es where ys: "mapE (batch_event cmd (Tx now)) (map scan_order rs) w1 = (Inr ys, w2)"
      "onward w1 w2" "w_db w2 = (w_db w1)\<lparr>order_events := order_events (w_db w1) @ es\<rparr>"
      "batch_events cmd now (map o_id rs) es"
    unfolding succeeds_def by blast
  from x(1) ys(1) have "mapE (batch_event cmd (Tx now)) (map scan_order (r # rs)) w = (Inr (x # ys), w2)"
    by (simp add: bindE_def)
  then show ?case
    by (rule succeedsI)
      (use x ys onward_trans [OF x(2) ys(2)] in \<open>auto intro!: exI [of _ "?ev ?vid # es"] simp: batch_events_def\<close>)
qed

lemma batch_length:
  assumes "distinct (map o_id rs)"
  shows "length (filter (\<lambda>r. o_id r \<in> set ids) rs) \<le> length ids"
proof -
  have "distinct (map o_id (filter (\<lambda>r. o_id r \<in> set ids) rs))"
    using assms by (simp add: distinct_map_filter)
  then have "length (filter (\<lambda>r. o_id r \<in> set ids) rs) =
      card (o_id ` set (filter (\<lambda>r. o_id r \<in> set ids) rs))"
    using distinct_card by fastforce
  also have "\<dots> \<le> card (set ids)" by (rule card_mono) auto
  also have "\<dots> \<le> length ids" by (rule card_length)
  finally show ?thesis .
qed

lemma ProcessPendingOrdersBatch_succeeds:
  assumes calm: "calm (w_env w)" and ok: "tables_ok (w_db w)" and fresh: "fresh_uuids w"
    and limit: "0 \<le> sint (BatchIn_Limit input)" and reason: "pg_null_text (BatchIn_Reason input)"
  defines "ids \<equiv> picked_orders (env_locked (w_env w) (Suc (w_tick w)))
      (nat (sint (BatchIn_Limit input))) (w_db w)"
    and "cmd \<equiv> \<lparr>BatchCmd_Limit = BatchIn_Limit input, BatchCmd_ActorID = BatchIn_ActorID input,
        BatchCmd_Reason = BatchIn_Reason input, BatchCmd_IPAddress = BatchIn_IPAddress input\<rparr>"
  shows "\<exists>now. succeeds (Service_ProcessPendingOrdersBatch pg_service input) w
    (\<lambda>xs d. xs = map (\<lambda>r. scan_order (set_status StatusProcessing now r))
         (filter (\<lambda>r. o_id r \<in> set ids) (orders (w_db w))) \<and>
       (\<exists>es. d = move_all ids StatusProcessing now es (w_db w) \<and>
         batch_events cmd now (map o_id (filter (\<lambda>r. o_id r \<in> set ids) (orders (w_db w)))) es))"
proof -
  let ?now = "now_at (w_env w) (w_tick w)"
  let ?rows = "filter (\<lambda>r. o_id r \<in> set ids) (orders (w_db w))"
  let ?moved = "map (set_status StatusProcessing ?now) ?rows"
  let ?d1 = "(w_db w)\<lparr>orders := map (\<lambda>r. if o_id r \<in> set ids then set_status StatusProcessing ?now r
      else r) (orders (w_db w))\<rparr>"
  let ?P = "\<lambda>xs d. xs = map (\<lambda>r. scan_order (set_status StatusProcessing ?now r)) ?rows \<and>
       (\<exists>es. d = move_all ids StatusProcessing ?now es (w_db w) \<and>
         batch_events cmd ?now (map o_id ?rows) es)"
  have distinct_ids: "distinct (map o_id (orders (w_db w)))"
    using ok by (simp add: tables_ok_def keys_ok_def)
  have picked_bound: "2 * length ?rows \<le> draw_window"
  proof -
    have "length ids \<le> nat (sint (BatchIn_Limit input))"
      by (simp add: ids_def picked_orders_def)
    moreover have "nat (sint (BatchIn_Limit input)) \<le> 2 ^ 31"
      using sint_less [of "BatchIn_Limit input"] by simp
    ultimately show ?thesis
      using batch_length [OF distinct_ids, of ids] by (simp add: draw_window_def)
  qed
  have "Queries_WorkerPickAndMovePendingOrdersToProcessing (Tx ?now) (BatchCmd_Limit cmd) (tick w) =
      (Inr (map scan_order ?moved), (tick (tick w))\<lparr>w_db := ?d1\<rparr>)"
    using calm limit
    by (simp add: Queries_WorkerPickAndMovePendingOrdersToProcessing_def run_stmt_calm
        pick_and_move_stmt_def update_orders_def Let_def cmd_def ids_def)
  then have pick: "succeeds (Queries_WorkerPickAndMovePendingOrdersToProcessing (Tx ?now) (BatchCmd_Limit cmd))
      (tick w) (\<lambda>xs d. xs = map scan_order ?moved \<and> d = ?d1)"
    by (rule succeedsI) (simp_all add: onward_def)
  have "succeeds (batch_tx cmd (Tx ?now)) (tick w) ?P"
    unfolding batch_tx_def
  proof (rule succeeds_bind [OF pick])
    fix xs w' assume w': "onward (tick w) w'" "xs = map scan_order ?moved \<and> w_db w' = ?d1"
    have ids: "o_id ` set (orders ?d1) = o_id ` set (orders (w_db w))"
      using updated_ids [of "\<lambda>r. o_id r \<in> set ids"] by simp
    have "succeeds (mapE (batch_event cmd (Tx ?now)) (map scan_order ?moved)) w'
      (\<lambda>_ d. \<exists>es. d = (w_db w')\<lparr>order_events := order_events (w_db w') @ es\<rparr> \<and>
         batch_events cmd ?now (map o_id ?moved) es)"
    proof (rule succeeds_batch_events)
      show "calm (w_env w')" using w'(1) calm by (simp add: onward_def)
      show "\<forall>r \<in> set ?moved. o_id r \<in> o_id ` set (orders (w_db w'))"
        using w'(2) ids by auto
      show "\<forall>n \<in> {w_tick w' ..< w_tick w' + 2 * length ?moved}.
          env_uuid (w_env w') n \<notin> v_id ` set (order_events (w_db w'))"
        using w' fresh by (auto simp: onward_def fresh_uuids_def)
      have "2 * length ?moved \<le> draw_window"
        using picked_bound by simp
      moreover have "inj_on (env_uuid (w_env w')) {w_tick w' ..< w_tick w' + draw_window}"
        using w'(1) fresh by (auto simp: onward_def fresh_uuids_def)
      ultimately show "inj_on (env_uuid (w_env w')) {w_tick w' ..< w_tick w' + 2 * length ?moved}"
        by (auto intro: inj_on_subset)
    qed (use reason in \<open>simp add: cmd_def\<close>)
    then show "succeeds (bindE (mapE (batch_event cmd (Tx ?now)) xs) (\<lambda>_. returnE xs)) w' ?P"
      using w'(2)
      by (auto intro!: succeeds_bind simp: move_all_def comp_def)
  qed
  then have "succeeds (Repository_ProcessPendingOrdersBatchWithAudit cmd) w ?P"
    unfolding Repository_ProcessPendingOrdersBatchWithAudit_def using calm by (rule succeeds_withTx_tick [rotated])
  moreover have "ValidateTransition StatusPending StatusProcessing = Inr ()"
    using ValidateTransition_Inr [of StatusPending StatusProcessing "()"] by simp
  ultimately show ?thesis
    unfolding Service_ProcessPendingOrdersBatch_def cmd_def [symmetric] by (intro exI) simp
qed

section \<open>Placing an order\<close>

lemma succeeds_create_items:
  assumes "calm (w_env w)" and "oid \<in> o_id ` set (orders (w_db w))"
    and "\<forall>it \<in> set its. item_row_ok (new_item_row oid now it) \<and> pg_text (ItemIn_SKU it)"
    and "distinct (map ItemIn_ID its)" and "ItemIn_ID ` set its \<inter> i_id ` set (order_items (w_db w)) = {}"
  shows "succeeds (create_items (Tx now) (Some oid) its) w (\<lambda>_ d.
     d = (w_db w)\<lparr>order_items := order_items (w_db w) @ map (new_item_row oid now) its\<rparr>)"
  using assms
proof (induction its arbitrary: w)
  case Nil
  show ?case by (simp add: create_items_def)
next
  case (Cons it its)
  let ?q = "Queries_CreateOrderItem (Tx now)
       \<lparr>ItemP_ID = toPgUUID (ItemIn_ID it), ItemP_OrderID = Some oid,
        ItemP_ProductID = toPgUUID (ItemIn_ProductID it), ItemP_Sku = ItemIn_SKU it,
        ItemP_Quantity = ItemIn_Quantity it, ItemP_UnitPriceCents = ItemIn_UnitPriceCents it\<rparr>"
  let ?row = "new_item_row oid now it"
  let ?d1 = "(w_db w)\<lparr>order_items := order_items (w_db w) @ [?row]\<rparr>"
  have "insert_item_row ?row (w_db w) = Inr ?d1"
    using Cons.prems by (auto simp: insert_item_Inr)
  moreover have "?row = \<lparr>i_id = ItemIn_ID it, i_order_id = oid, i_product_id = ItemIn_ProductID it,
      i_sku = ItemIn_SKU it, i_quantity = ItemIn_Quantity it,
      i_unit_price_cents = ItemIn_UnitPriceCents it, i_created_at = now\<rparr>"
    by (simp add: new_item_row_def)
  ultimately have "?q w = (Inr (scan_item ?row), (tick w)\<lparr>w_db := ?d1\<rparr>)"
    using Cons.prems by (simp add: Queries_CreateOrderItem_def run_stmt_calm create_item_stmt_def Let_def)
  then have first: "succeeds ?q w (\<lambda>_ d. d = ?d1)" by (rule succeedsI) simp_all
  have "succeeds (bindE ?q (\<lambda>y. bindE (create_items (Tx now) (Some oid) its) (\<lambda>ys. returnE (y # ys)))) w
    (\<lambda>_ d. d = (w_db w)\<lparr>order_items := order_items (w_db w) @ map (new_item_row oid now) (it # its)\<rparr>)"
  proof (rule succeeds_bind [OF first])
    fix y w' assume w': "onward w w'" "w_db w' = ?d1"
    have "succeeds (create_items (Tx now) (Some oid) its) w' (\<lambda>_ d.
        d = (w_db w')\<lparr>order_items := order_items (w_db w') @ map (new_item_row oid now) its\<rparr>)"
      by (rule Cons.IH) (use Cons.prems w' in \<open>auto simp: onward_calm\<close>)
    then show "succeeds (bindE (create_items (Tx now) (Some oid) its) (\<lambda>ys. returnE (y # ys))) w'
      (\<lambda>_ d. d = (w_db w)\<lparr>order_items := order_items (w_db w) @ map (new_item_row oid now) (it # its)\<rparr>)"
      using w'(2) by (auto intro!: succeeds_bind)
  qed
  then show ?case by (simp add: create_items_def)
qed

text \<open>The command carries what the constraints ask for.\<close>

definition command_accepted :: "CreateOrderCommand \<Rightarrow> tables \<Rightarrow> bool" where
  "command_accepted cmd d \<longleftrightarrow>
     pg_char3 (CreateCmd_Currency cmd) \<noteq> None \<and> pg_text (CreateCmd_Currency cmd) \<and>
     pg_text (CreateCmd_IdempotencyKey cmd) \<and> pg_null_text (CreateCmd_Reason cmd) \<and>
     0 \<le> sint (CreateCmd_TotalCents cmd) \<and> CreateCmd_OrderID cmd \<notin> o_id ` set (orders d) \<and>
     (\<forall>it \<in> set (CreateCmd_Items cmd). 0 < sint (ItemIn_Quantity it) \<and>
        0 \<le> sint (ItemIn_UnitPriceCents it) \<and> pg_text (ItemIn_SKU it)) \<and>
     distinct (map ItemIn_ID (CreateCmd_Items cmd)) \<and>
     ItemIn_ID ` set (CreateCmd_Items cmd) \<inter> i_id ` set (order_items d) = {}"

lemma key_taken_iff:
  "key_taken d cid key \<longleftrightarrow> (cid, key) \<in> (\<lambda>x. (o_customer_id x, o_idempotency_key x)) ` set (orders d)"
  by (auto simp: key_taken_def image_iff)

lemma create_order_runs:
  assumes calm: "calm (w_env w)" and cmd: "command_accepted cmd (w_db w)"
  shows "\<exists>cur. Queries_CreateOrder (Tx now)
       \<lparr>CreateP_ID = Some (CreateCmd_OrderID cmd), CreateP_CustomerID = Some (CreateCmd_CustomerID cmd),
        CreateP_Status = StatusPending, CreateP_IdempotencyKey = CreateCmd_IdempotencyKey cmd,
        CreateP_TotalCents = CreateCmd_TotalCents cmd, CreateP_Currency = CreateCmd_Currency cmd\<rparr> w =
    (if key_taken (w_db w) (CreateCmd_CustomerID cmd) (CreateCmd_IdempotencyKey cmd)
     then (Inl (unique_violation ''orders_customer_id_idempotency_key_key''), tick w)
     else (Inr (scan_order (new_order_row cmd cur now)),
           (tick w)\<lparr>w_db := (w_db w)\<lparr>orders := orders (w_db w) @ [new_order_row cmd cur now]\<rparr>\<rparr>))"
proof -
  from cmd obtain cur where cur: "pg_char3 (CreateCmd_Currency cmd) = Some cur"
    by (auto simp: command_accepted_def)
  let ?row = "new_order_row cmd cur now"
  have "insert_order_row ?row (w_db w) =
      (if key_taken (w_db w) (CreateCmd_CustomerID cmd) (CreateCmd_IdempotencyKey cmd)
       then Inl (unique_violation ''orders_customer_id_idempotency_key_key'')
       else Inr ((w_db w)\<lparr>orders := orders (w_db w) @ [?row]\<rparr>))"
    using cmd by (simp add: insert_order_row_def command_accepted_def new_order_row_def key_taken_iff)
  then show ?thesis using calm cmd cur
    by (intro exI [of _ cur])
      (auto simp: Queries_CreateOrder_def run_stmt_calm create_order_stmt_def command_accepted_def
        new_order_row_def Let_def)
qed

lemma create_tx_runs:
  assumes calm: "calm (w_env w)" and cmd: "command_accepted cmd (w_db w)" and fresh: "fresh_uuids w"
    and free: "\<not> key_taken (w_db w) (CreateCmd_CustomerID cmd) (CreateCmd_IdempotencyKey cmd)"
  shows "succeeds (create_tx cmd (Tx now)) w (\<lambda>_ _. True)"
proof -
  let ?oid = "CreateCmd_OrderID cmd"
  let ?q = "Queries_CreateOrder (Tx now)
       \<lparr>CreateP_ID = Some ?oid, CreateP_CustomerID = Some (CreateCmd_CustomerID cmd),
        CreateP_Status = StatusPending, CreateP_IdempotencyKey = CreateCmd_IdempotencyKey cmd,
        CreateP_TotalCents = CreateCmd_TotalCents cmd, CreateP_Currency = CreateCmd_Currency cmd\<rparr>"
  from create_order_runs [OF calm cmd, of now] free obtain cur where
    q: "?q w = (Inr (scan_order (new_order_row cmd cur now)),
       (tick w)\<lparr>w_db := (w_db w)\<lparr>orders := orders (w_db w) @ [new_order_row cmd cur now]\<rparr>\<rparr>)" by auto
  let ?d1 = "(w_db w)\<lparr>orders := orders (w_db w) @ [new_order_row cmd cur now]\<rparr>"
  have order: "succeeds ?q w (\<lambda>o1 d. Order_ID o1 = Some ?oid \<and> d = ?d1)"
    by (rule succeedsI, rule q) (simp_all add: scan_order_def new_order_row_def)
  let ?d2 = "?d1\<lparr>order_items := order_items (w_db w) @ map (new_item_row ?oid now) (CreateCmd_Items cmd)\<rparr>"
  have oid: "?oid \<in> o_id ` set (orders ?d1)" "?oid \<in> o_id ` set (orders ?d2)"
    by (simp_all add: new_order_row_def)
  have items: "succeeds (create_items (Tx now) (Some ?oid) (CreateCmd_Items cmd)) w1 (\<lambda>_ d. d = ?d2)"
    if "onward w w1" "w_db w1 = ?d1" for w1
    using succeeds_create_items [OF onward_calm [OF that(1) calm], of ?oid "CreateCmd_Items cmd" now]
      cmd that(2) oid(1)
    by (simp add: command_accepted_def item_row_ok_def)
  show ?thesis
    unfolding create_tx_def conversions nullStatus_simps(1) nullStatus_simps(2) [OF status_nonempty(1)]
  proof (rule succeeds_bind [OF order], elim conjE, rule succeeds_bind, simp only:)
    fix o1 :: Order and w1 assume w1: "onward w w1" "w_db w1 = ?d1"
    then show "succeeds (create_items (Tx now) (Some ?oid) (CreateCmd_Items cmd)) w1
        (\<lambda>_ d. d = ?d2)" by (rule items)
  next
    fix o1 :: Order and w1 its w2
    assume w2: "onward w w1" "onward w1 w2" "w_db w2 = ?d2" and o1: "Order_ID o1 = Some ?oid"
    then have on: "onward w w2" by (blast intro: onward_trans)
    have "env_uuid (w_env w2) (w_tick w2) \<notin> v_id ` set (order_events (w_db w2))"
      using w2(3) on fresh by (simp add: onward_def fresh_event)
    moreover have "?oid \<in> o_id ` set (orders (w_db w2))" using w2(3) oid(2) by simp
    ultimately show "succeeds (bindE uuid_New (\<lambda>eventID.
      bindE (Queries_CreateOrderEvent (Tx now)
       \<lparr>EventP_ID = Some eventID, EventP_OrderID = Order_ID o1,
        EventP_ActorType = actorTypeCustomer, EventP_ActorID = CreateCmd_ActorID cmd,
        EventP_FromStatus = None, EventP_ToStatus = Some StatusPending,
        EventP_Action = actionCreated, EventP_Reason = CreateCmd_Reason cmd,
        EventP_IpAddress = inetValue (CreateCmd_IPAddress cmd)\<rparr>)
      (\<lambda>_. returnE \<lparr>CreateRes_Order = o1, CreateRes_Items = its\<rparr>))) w2 (\<lambda>_ _. True)"
      unfolding o1 using onward_calm [OF on calm] cmd
      by (intro succeeds_mono [OF succeeds_draw_event])
        (auto simp: command_accepted_def actorTypeCustomer_def)
  qed
qed

lemma create_tx_conflict:
  assumes "calm (w_env w)" and "command_accepted cmd (w_db w)"
    and "key_taken (w_db w) (CreateCmd_CustomerID cmd) (CreateCmd_IdempotencyKey cmd)"
  shows "fails (create_tx cmd (Tx now)) w (\<lambda>e d. isIdempotencyConflictError e)"
proof -
  let ?q = "Queries_CreateOrder (Tx now)
       \<lparr>CreateP_ID = toPgUUID (CreateCmd_OrderID cmd), CreateP_CustomerID = toPgUUID (CreateCmd_CustomerID cmd),
        CreateP_Status = StatusPending, CreateP_IdempotencyKey = CreateCmd_IdempotencyKey cmd,
        CreateP_TotalCents = CreateCmd_TotalCents cmd, CreateP_Currency = CreateCmd_Currency cmd\<rparr>"
  from create_order_runs [OF assms(1,2), of now] assms(3)
  have "?q w = (Inl (unique_violation ''orders_customer_id_idempotency_key_key''), tick w)" by simp
  then have "fails ?q w (\<lambda>e d. isIdempotencyConflictError e)"
    by (rule failsI) (simp_all add: isIdempotencyConflictError_def unique_violation_def
        uniqueViolationCode_def idempotencyConstraintName_def)
  then show ?thesis unfolding create_tx_def by (rule fails_bind_first)
qed

text \<open>What a successful creation has stored and returned.\<close>

definition placed_order ::
    "(string \<Rightarrow> uuid option) \<Rightarrow> CreateOrderInput \<Rightarrow> tables \<Rightarrow> CreateOrderResult \<Rightarrow> tables \<Rightarrow> bool" where
  "placed_order uuid_Parse input d res d' \<longleftrightarrow>
     (\<exists>r its e. d' = place_order r its e d \<and>
        res = \<lparr>CreateRes_Order = scan_order r, CreateRes_Items = map scan_item its\<rparr> \<and>
        o_customer_id r = CreateIn_CustomerID input \<and>
        o_idempotency_key r = CreateIn_IdempotencyKey input \<and>
        o_currency r = CreateIn_Currency input \<and> o_status r = StatusPending \<and>
        sint (o_total_cents r) = exact_total (CreateIn_Items input) \<and>
        (\<forall>i \<in> set its. i_order_id i = o_id r) \<and>
        map i_sku its = map Item_SKU (CreateIn_Items input) \<and>
        map i_quantity its = map Item_Quantity (CreateIn_Items input) \<and>
        map i_unit_price_cents its = map Item_UnitPriceCents (CreateIn_Items input) \<and>
        map (Some \<circ> i_product_id) its = map (uuid_Parse \<circ> Item_ProductID) (CreateIn_Items input) \<and>
        v_order_id e = o_id r \<and> v_action e = actionCreated \<and> v_actor_type e = actorTypeCustomer \<and>
        v_actor_id e = CreateIn_ActorID input \<and> v_from_status e = None \<and>
        v_to_status e = Some StatusPending \<and> v_reason e = CreateIn_Reason input \<and>
        v_ip_address e = inetValue (CreateIn_IPAddress input))"

lemma currency_stored: "currencyCodePattern_MatchString c \<Longrightarrow> pg_char3 c = Some c"
  by (simp add: currencyCodePattern_MatchString_def pg_char3_def)

text \<open>The command \<open>CreateOrder\<close> sends to the repository.\<close>

definition create_command ::
    "CreateOrderInput \<Rightarrow> uuid \<Rightarrow> int64 \<Rightarrow> CreateOrderItemInput list \<Rightarrow> CreateOrderCommand" where
  "create_command input oid amount its =
     \<lparr>CreateCmd_OrderID = oid, CreateCmd_CustomerID = CreateIn_CustomerID input,
      CreateCmd_IdempotencyKey = CreateIn_IdempotencyKey input, CreateCmd_TotalCents = amount,
      CreateCmd_Currency = CreateIn_Currency input, CreateCmd_Items = its,
      CreateCmd_ActorID = CreateIn_ActorID input, CreateCmd_Reason = CreateIn_Reason input,
      CreateCmd_IPAddress = CreateIn_IPAddress input\<rparr>"

lemma place_order_placed:
  assumes "sint amount = exact_total (CreateIn_Items input)"
    and "pg_char3 (CreateIn_Currency input) = Some (CreateIn_Currency input)"
    and "map ItemIn_Quantity its = map Item_Quantity (CreateIn_Items input)"
      "map ItemIn_UnitPriceCents its = map Item_UnitPriceCents (CreateIn_Items input)"
      "map ItemIn_SKU its = map Item_SKU (CreateIn_Items input)"
      "map (Some \<circ> ItemIn_ProductID) its = map (uuid_Parse \<circ> Item_ProductID) (CreateIn_Items input)"
    and run: "create_tx (create_command input oid amount its) (Tx now) w = (Inr res, w')"
  shows "placed_order uuid_Parse input (w_db w) res (w_db w')"
  using run
proof (rule create_tx_effect)
  let ?cmd = "create_command input oid amount its"
  fix cur vid
  assume cur: "pg_char3 (CreateCmd_Currency ?cmd) = Some cur"
    and db: "w_db w' = place_order (new_order_row ?cmd cur now)
       (map (new_item_row (CreateCmd_OrderID ?cmd) now) (CreateCmd_Items ?cmd))
       (created_event ?cmd vid now) (w_db w)"
    and res: "res = \<lparr>CreateRes_Order = scan_order (new_order_row ?cmd cur now),
       CreateRes_Items = map (\<lambda>it. scan_item (new_item_row (CreateCmd_OrderID ?cmd) now it))
         (CreateCmd_Items ?cmd)\<rparr>"
  have "cur = CreateIn_Currency input" using cur assms(2) by (simp add: create_command_def)
  with assms(1,3-6) db res show ?thesis
    unfolding placed_order_def
    by (intro exI [of _ "new_order_row ?cmd cur now"]
        exI [of _ "map (new_item_row (CreateCmd_OrderID ?cmd) now) (CreateCmd_Items ?cmd)"]
        exI [of _ "created_event ?cmd vid now"])
      (simp add: create_command_def new_order_row_def created_event_def new_item_row_def comp_def)
qed

lemma command_items_db: "command_items p pg_service k items w = (r, w') \<Longrightarrow>
    w_db w' = w_db w \<and> w_env w' = w_env w"
  by (induction items arbitrary: k w r)
    (fastforce simp: bindE_def drawE_def draw_uuid_def split: option.splits prod.splits sum.splits)+

text \<open>Under any interference, a creation that returns an order has stored exactly it.\<close>

lemma CreateOrder_effect:
  assumes "Service_CreateOrder uuid_Parse pg_service input w = (Inr res, w')"
  shows "\<exists>n. placed_order uuid_Parse input (env_others (w_env w) n (w_db w)) res (w_db w')"
proof -
  let ?req = "\<lparr>Req_IdempotencyKey = CreateIn_IdempotencyKey input,
      Req_Currency = CreateIn_Currency input, Req_Items = CreateIn_Items input\<rparr>"
  from assms obtain u amount its w1 oid w2 where
    val: "ValidateCreateOrderRequest ?req = Inr u" and
    tot: "calculateTotalCents (CreateIn_Items input) = Inr amount" and
    its: "command_items uuid_Parse pg_service 0 (CreateIn_Items input) w = (Inr its, w1)" and
    oid: "draw_uuid w1 = (oid, w2)" and
    rep: "Repository_CreateOrderWithItemsAndAudit (create_command input oid amount its) w2 = (Inr res, w')"
    unfolding Service_CreateOrder_def create_command_def [symmetric]
    by (elim bindE_InrE) (auto simp: drawE_def elim!: onErrE_cases split: prod.splits if_splits)
  have req: "request_ok ?req" using val by (simp add: ValidateCreateOrderRequest_Inr)
  then have amount: "sint amount = exact_total (CreateIn_Items input)"
    using tot by (intro calculateTotalCents_sint) (simp_all add: request_ok_def)
  have w2: "w_db w2 = w_db w" "w_env w2 = w_env w"
    using command_items_db [OF its] oid by (auto simp: draw_uuid_def)
  from rep keeps_env_bodies(1) show ?thesis
    unfolding Repository_CreateOrderWithItemsAndAudit_def
  proof (rule withTx_elim)
    fix x w3
    assume tx: "create_tx (create_command input oid amount its) (Tx (now_at (w_env w2) (w_tick w2)))
        (tick (begin_session w2)) = (Inr x, w3)" and
      db: "w_db w' = w_db w3" and res: "Inr res = Inr x \<or> (\<exists>t. Inr res = Inl (OtherError t))"
    have "placed_order uuid_Parse input (w_db (tick (begin_session w2))) x (w_db w3)"
      using pg.command_items_result [OF its] req amount tx
      by (intro place_order_placed) (auto simp: request_ok_def currency_stored)
    with db res w2 show ?thesis by auto
  qed simp_all
qed

section \<open>Creation succeeds or reports the conflict\<close>

text \<open>A request the service can store: valid, with product ids that parse, a total that
  fits, no zero bytes, which PostgreSQL text cannot hold, and no more items than the window
  of distinct UUIDs (a request of that many items would not fit the body limit).\<close>

definition storable :: "(string \<Rightarrow> uuid option) \<Rightarrow> CreateOrderInput \<Rightarrow> bool" where
  "storable uuid_Parse input \<longleftrightarrow>
     request_ok \<lparr>Req_IdempotencyKey = CreateIn_IdempotencyKey input,
        Req_Currency = CreateIn_Currency input, Req_Items = CreateIn_Items input\<rparr> \<and>
     exact_total (CreateIn_Items input) < 2 ^ 63 \<and>
     list_all (\<lambda>it. uuid_Parse (Item_ProductID it) \<noteq> None \<and> pg_text (Item_SKU it)) (CreateIn_Items input) \<and>
     pg_text (CreateIn_IdempotencyKey input) \<and> pg_null_text (CreateIn_Reason input) \<and>
     length (CreateIn_Items input) \<le> draw_window"

lemma command_items_draws:
  assumes "list_all (\<lambda>it. uuid_Parse (Item_ProductID it) \<noteq> None) items"
  shows "\<exists>its w'. command_items uuid_Parse pg_service k items w = (Inr its, w') \<and>
     w_tick w' = w_tick w + length items \<and>
     map ItemIn_ID its = map (env_uuid (w_env w)) [w_tick w ..< w_tick w + length items]"
  using assms
proof (induction items arbitrary: k w)
  case Nil
  show ?case by simp
next
  case (Cons item items)
  from Cons.prems obtain pid where pid: "uuid_Parse (Item_ProductID item) = Some pid" by auto
  from Cons.IH [of "Suc k" "tick w"] Cons.prems obtain its w' where
    "command_items uuid_Parse pg_service (Suc k) items (tick w) = (Inr its, w')"
    "w_tick w' = Suc (w_tick w) + length items"
    "map ItemIn_ID its = map (env_uuid (w_env w)) [Suc (w_tick w) ..< Suc (w_tick w) + length items]"
    by auto
  moreover have "[w_tick w ..< w_tick w + length (item # items)] =
      w_tick w # [Suc (w_tick w) ..< Suc (w_tick w) + length items]"
    by (simp add: upt_conv_Cons del: upt_Suc)
  ultimately show ?case
    by (simp add: pid bindE_def drawE_def draw_uuid_def del: upt_Suc)
qed

lemma fresh_range:
  assumes fresh: "fresh_uuids w" and n: "n \<le> draw_window"
  shows "distinct (map (env_uuid (w_env w)) [w_tick w ..< w_tick w + n])"
    and "set (map (env_uuid (w_env w)) [w_tick w ..< w_tick w + n]) \<inter> i_id ` set (order_items (w_db w)) = {}"
proof -
  have "inj_on (env_uuid (w_env w)) (set [w_tick w ..< w_tick w + n])"
    using fresh n by (auto simp: fresh_uuids_def intro: inj_on_subset [of _ "{w_tick w ..< w_tick w + draw_window}"])
  then show "distinct (map (env_uuid (w_env w)) [w_tick w ..< w_tick w + n])"
    by (simp add: distinct_map)
  show "set (map (env_uuid (w_env w)) [w_tick w ..< w_tick w + n]) \<inter> i_id ` set (order_items (w_db w)) = {}"
    using fresh by (auto simp: fresh_uuids_def)
qed

text \<open>From a storable request the service builds a command the constraints accept.\<close>

lemma CreateOrder_prepares:
  assumes st: "storable uuid_Parse input" and fresh: "fresh_uuids w"
  obtains cmd w2 where "onward w w2" and "w_db w2 = w_db w" and "command_accepted cmd (w_db w)"
    and "CreateCmd_CustomerID cmd = CreateIn_CustomerID input"
    and "CreateCmd_IdempotencyKey cmd = CreateIn_IdempotencyKey input"
    and "Service_CreateOrder uuid_Parse pg_service input w =
       onErrE (Repository_CreateOrderWithItemsAndAudit cmd)
         (\<lambda>err. if isIdempotencyConflictError err then failE (Sentinel ErrIdempotencyConflict)
                else failE err) w2"
proof -
  let ?items = "CreateIn_Items input"
  have req: "request_ok \<lparr>Req_IdempotencyKey = CreateIn_IdempotencyKey input,
      Req_Currency = CreateIn_Currency input, Req_Items = ?items\<rparr>"
    using st by (simp add: storable_def)
  then have val: "ValidateCreateOrderRequest \<lparr>Req_IdempotencyKey = CreateIn_IdempotencyKey input,
      Req_Currency = CreateIn_Currency input, Req_Items = ?items\<rparr> = Inr ()"
    by (simp add: ValidateCreateOrderRequest_Inr)
  have ok: "list_all item_ok ?items" using req by (simp add: request_ok_def)
  obtain amount where tot: "calculateTotalCents ?items = Inr amount"
    using st ok by (simp add: calculateTotalCents_exact storable_def)
  then have amount: "sint amount = exact_total ?items" using ok by (intro calculateTotalCents_sint)
  obtain its w1 where its: "command_items uuid_Parse pg_service 0 ?items w = (Inr its, w1)"
      "w_tick w1 = w_tick w + length ?items"
      "map ItemIn_ID its = map (env_uuid (w_env w)) [w_tick w ..< w_tick w + length ?items]"
    using command_items_draws [of uuid_Parse ?items 0 w] st by (auto simp: storable_def list_all_iff)
  have w1: "w_db w1 = w_db w" "w_env w1 = w_env w" using command_items_db [OF its(1)] by simp_all
  let ?oid = "env_uuid (w_env w) (w_tick w1)"
  let ?cmd = "create_command input ?oid amount its"
  have fields: "\<forall>it \<in> set its. 0 < sint (ItemIn_Quantity it) \<and> 0 \<le> sint (ItemIn_UnitPriceCents it) \<and>
      pg_text (ItemIn_SKU it)"
  proof -
    note eqs = pg.command_items_result [OF its(1)]
    have "set (map ItemIn_Quantity its) \<subseteq> {q. 0 < sint q}"
      using eqs ok by (auto simp: list_all_iff item_ok_def)
    moreover have "set (map ItemIn_UnitPriceCents its) \<subseteq> {p. 0 \<le> sint p}"
      using eqs ok by (auto simp: list_all_iff item_ok_def)
    moreover have "set (map ItemIn_SKU its) \<subseteq> {s. pg_text s}"
      using eqs st by (auto simp: list_all_iff storable_def)
    ultimately show ?thesis by auto
  qed
  have char3: "pg_char3 (CreateIn_Currency input) = Some (CreateIn_Currency input)"
    using req by (simp add: request_ok_def currency_stored)
  have cur: "pg_text (CreateIn_Currency input)"
    using req by (auto simp: request_ok_def currencyCodePattern_MatchString_def pg_text_def list_all_iff)
  have ids: "distinct (map ItemIn_ID its)"
      "ItemIn_ID ` set its \<inter> i_id ` set (order_items (w_db w)) = {}"
    using fresh_range [OF fresh, of "length ?items"] st unfolding its(3) [symmetric] storable_def by simp_all
  have "?oid \<notin> o_id ` set (orders (w_db w))" using fresh its(2) by (simp add: fresh_uuids_def)
  moreover have "0 \<le> sint amount" unfolding amount using ok by (rule exact_total_nonneg)
  ultimately have acc: "command_accepted ?cmd (w_db w)"
    using st fields ids char3 cur by (simp add: command_accepted_def create_command_def storable_def)
  have "Service_CreateOrder uuid_Parse pg_service input w =
     onErrE (Repository_CreateOrderWithItemsAndAudit ?cmd)
       (\<lambda>err. if isIdempotencyConflictError err then failE (Sentinel ErrIdempotencyConflict)
              else failE err) (tick w1)"
    by (simp add: Service_CreateOrder_def val tot its(1) bindE_def drawE_def draw_uuid_def w1
        create_command_def)
  then show ?thesis
    by (intro that [OF _ _ acc]) (simp_all add: onward_def w1 its(2) create_command_def)
qed

lemma CreateOrder_succeeds:
  assumes calm: "calm (w_env w)" and fresh: "fresh_uuids w" and st: "storable uuid_Parse input"
    and free: "\<not> key_taken (w_db w) (CreateIn_CustomerID input) (CreateIn_IdempotencyKey input)"
  shows "succeeds (Service_CreateOrder uuid_Parse pg_service input) w
    (\<lambda>res d. placed_order uuid_Parse input (w_db w) res d)"
proof -
  obtain cmd w2 where w2: "onward w w2" "w_db w2 = w_db w" and acc: "command_accepted cmd (w_db w)"
    and ids: "CreateCmd_CustomerID cmd = CreateIn_CustomerID input"
      "CreateCmd_IdempotencyKey cmd = CreateIn_IdempotencyKey input"
    and run: "Service_CreateOrder uuid_Parse pg_service input w =
       onErrE (Repository_CreateOrderWithItemsAndAudit cmd)
         (\<lambda>err. if isIdempotencyConflictError err then failE (Sentinel ErrIdempotencyConflict)
                else failE err) w2"
    using st fresh by (rule CreateOrder_prepares)
  have "succeeds (Repository_CreateOrderWithItemsAndAudit cmd) w2 (\<lambda>_ _. True)"
    unfolding Repository_CreateOrderWithItemsAndAudit_def
  proof (rule succeeds_withTx)
    show "calm (w_env w2)" using w2(1) calm by (rule onward_calm)
    fix w' assume w': "onward w2 w'" "w_db w' = w_db w2"
    have on: "onward w w'" using w2(1) w'(1) by (rule onward_trans)
    show "succeeds (create_tx cmd (Tx (now_at (w_env w2) (w_tick w2)))) w' (\<lambda>_ _. True)"
      using onward_calm [OF on calm] onward_fresh [OF on fresh] w2(2) w'(2) acc free ids
      by (intro create_tx_runs) simp_all
  qed
  then obtain res w3 where "Repository_CreateOrderWithItemsAndAudit cmd w2 = (Inr res, w3)" "onward w2 w3"
    by (auto simp: succeeds_def)
  then have eq: "Service_CreateOrder uuid_Parse pg_service input w = (Inr res, w3)" and on: "onward w w3"
    using w2(1) by (auto simp: run onErrE_def intro: onward_trans)
  from CreateOrder_effect [OF eq] calm
  have "placed_order uuid_Parse input (w_db w) res (w_db w3)" by (simp add: calm_def)
  with eq on show ?thesis by (rule succeedsI)
qed

lemma CreateOrder_reports_conflict:
  assumes calm: "calm (w_env w)" and fresh: "fresh_uuids w" and st: "storable uuid_Parse input"
    and taken: "key_taken (w_db w) (CreateIn_CustomerID input) (CreateIn_IdempotencyKey input)"
  shows "fails (Service_CreateOrder uuid_Parse pg_service input) w
    (\<lambda>e d. e = Sentinel ErrIdempotencyConflict \<and> d = w_db w)"
proof -
  obtain cmd w2 where w2: "onward w w2" "w_db w2 = w_db w" and acc: "command_accepted cmd (w_db w)"
    and ids: "CreateCmd_CustomerID cmd = CreateIn_CustomerID input"
      "CreateCmd_IdempotencyKey cmd = CreateIn_IdempotencyKey input"
    and run: "Service_CreateOrder uuid_Parse pg_service input w =
       onErrE (Repository_CreateOrderWithItemsAndAudit cmd)
         (\<lambda>err. if isIdempotencyConflictError err then failE (Sentinel ErrIdempotencyConflict)
                else failE err) w2"
    using st fresh by (rule CreateOrder_prepares)
  have "fails (Repository_CreateOrderWithItemsAndAudit cmd) w2
      (\<lambda>e d. isIdempotencyConflictError e \<and> d = w_db w2)"
    unfolding Repository_CreateOrderWithItemsAndAudit_def
    by (rule fails_withTx, rule onward_calm [OF w2(1) calm], rule create_tx_conflict)
      (use w2 acc taken ids calm in \<open>simp_all add: onward_def\<close>)
  then obtain e w3 where "Repository_CreateOrderWithItemsAndAudit cmd w2 = (Inl e, w3)" "onward w2 w3"
      "isIdempotencyConflictError e" "w_db w3 = w_db w2" by (auto simp: fails_def)
  then have "Service_CreateOrder uuid_Parse pg_service input w = (Inl (Sentinel ErrIdempotencyConflict), w3)"
    by (simp add: run onErrE_def)
  then show ?thesis
    by (rule failsI) (use w2 \<open>onward w2 w3\<close> \<open>w_db w3 = w_db w2\<close> in \<open>auto intro: onward_trans\<close>)
qed

end
