(* ===== verification/HandlerLaws.thy ===== *)
theory HandlerLaws
  imports Handler Outcomes
begin

text \<open>
  The \<open>handlerService\<close> interface as a contract: every method keeps the shared store's
  guarantee, and what a method hands to a customer is an order of that customer.  From
  the contract alone: what the handlers let a caller see and do.  The contract is then
  discharged for the service over PostgreSQL.
\<close>

section \<open>Errors and status codes\<close>

lemma writeJSONError_status [simp]: "resp_status (writeJSONError n c m) = n"
  by (simp add: writeJSONError_def writeJSON_def)

lemma writeJSON_simps [simp]: "resp_status (writeJSON n b) = n" "resp_body (writeJSON n b) = b"
  by (simp_all add: writeJSON_def)

definition bad_request_error :: "go_error \<Rightarrow> bool" where
  "bad_request_error e \<longleftrightarrow>
     errors_Is e ErrRequestBodyTooLarge \<or> errors_Is e ErrMalformedJSON \<or>
     errors_Is e ErrUnknownJSONField \<or> IsValidationError e"

lemma writeHandlerError_codes:
  "resp_status (writeHandlerError e) = 400 \<longleftrightarrow> bad_request_error e"
  "resp_status (writeHandlerError e) = 404 \<longleftrightarrow> errors_Is e ErrOrderNotFound"
  "resp_status (writeHandlerError e) = 409 \<longleftrightarrow>
     errors_Is e ErrInvalidTransition \<or> errors_Is e ErrIdempotencyConflict"
  "resp_status (writeHandlerError e) = 500 \<longleftrightarrow>
     \<not> bad_request_error e \<and> \<not> errors_Is e ErrOrderNotFound \<and>
     \<not> errors_Is e ErrInvalidTransition \<and> \<not> errors_Is e ErrIdempotencyConflict"
  by (cases e; auto simp: writeHandlerError_def bad_request_error_def http_status_defs)+

text \<open>The orders a response shows.\<close>

definition response_orders :: "http_response \<Rightarrow> orderResponse list" where
  "response_orders resp =
     (case resp_body resp of
        OrderResponse x \<Rightarrow> [x] | OrderListResponse l \<Rightarrow> List_Orders l | _ \<Rightarrow> [])"

lemma response_orders_simps [simp]:
  "response_orders (writeJSONError n c m) = []"
  "response_orders (writeHandlerError e) = []"
  "response_orders unauthorized = []" "response_orders forbidden = []"
  "response_orders service_unavailable = []" "response_orders (invalid_request t) = []"
  "response_orders (writeJSON n (OrderResponse x)) = [x]"
  "response_orders (writeJSON n (OrderListResponse l)) = List_Orders l"
  by (simp_all add: response_orders_def writeHandlerError_def writeJSONError_def writeJSON_def
      unauthorized_def forbidden_def service_unavailable_def invalid_request_def)

lemma answer_cases:
  obtains (err) e t where "m s = (Inl e, t)" and "answer m f s = (writeHandlerError e, t)"
    | (ok) x t where "m s = (Inr x, t)" and "answer m f s = (f x, t)"
  by (cases "m s"; cases "fst (m s)") (auto simp: answer_def)

section \<open>The contract\<close>

locale order_api = shared_store ok grows
    for ok :: "'s \<Rightarrow> bool" and grows :: "'s \<Rightarrow> 's \<Rightarrow> bool" +
  fixes svc :: "'s handlerService" and db_of :: "'s \<Rightarrow> tables"
  assumes create: "guaranteesE ok grows (hs_CreateOrder svc ci)"
    and get: "guaranteesE ok grows (hs_GetOrder svc oid cid)"
    and list: "guaranteesE ok grows (hs_ListOrderDetails svc li)"
    and cancel: "guaranteesE ok grows (hs_CancelOrderDetails svc ca)"
    and update: "guaranteesE ok grows (hs_UpdateOrderStatusByTarget svc oid st actor aid reason ip)"
    and create_own: "ok s \<Longrightarrow> hs_CreateOrder svc ci s = (Inr res, t) \<Longrightarrow>
          \<exists>r. CreateRes_Order res = scan_order r \<and> o_customer_id r = CreateIn_CustomerID ci"
    and get_own: "ok s \<Longrightarrow> hs_GetOrder svc oid cid s = (Inr d, t) \<Longrightarrow>
          \<exists>r. Details_Order d = scan_order r \<and> o_customer_id r = cid \<and> o_id r = oid"
    and list_own: "ok s \<Longrightarrow> hs_ListOrderDetails svc li s = (Inr ds, t) \<Longrightarrow>
          \<forall>d \<in> set ds. \<exists>r. Details_Order d = scan_order r \<and> o_customer_id r = ListIn_CustomerID li"
    and cancel_own: "ok s \<Longrightarrow> hs_CancelOrderDetails svc ca s = (Inr d, t) \<Longrightarrow>
          \<exists>r. Details_Order d = scan_order r \<and> o_customer_id r = CancelIn_CustomerID ca \<and>
              o_id r = CancelIn_OrderID ca"
    and get_missing: "ok s \<Longrightarrow> hs_GetOrder svc oid cid s = (Inl e, t) \<Longrightarrow>
          errors_Is e ErrOrderNotFound \<Longrightarrow> \<not> owned_order (db_of t) oid cid r"
    and create_taken: "ok s \<Longrightarrow> hs_CreateOrder svc ci s = (Inl e, t) \<Longrightarrow>
          errors_Is e ErrIdempotencyConflict \<Longrightarrow>
          key_taken (db_of t) (CreateIn_CustomerID ci) (CreateIn_IdempotencyKey ci)"
begin

lemma answer_grows: "guaranteesE ok grows m \<Longrightarrow> ok s \<Longrightarrow> grows s (snd (answer m f s))"
  by (cases rule: answer_cases [of m s f]) (auto intro: run_leads)

text \<open>Every handler, on every path, keeps the guarantee.\<close>

lemma handlers_grow:
  assumes "ok s" and "h_service h = Some svc"
  shows "grows s (snd (Handler_CreateOrder pkg h r s))"
    and "grows s (snd (Handler_GetOrder pkg h r s))"
    and "grows s (snd (Handler_ListOrders pkg h r s))"
    and "grows s (snd (Handler_CancelOrder pkg h r s))"
    and "grows s (snd (Handler_UpdateOrderStatus pkg h r s))"
  using assms
  by (auto simp: Handler_CreateOrder_def Handler_GetOrder_def Handler_ListOrders_def
      Handler_CancelOrder_def Handler_UpdateOrderStatus_def Let_def
      intro!: answer_grows create get list cancel update split: option.splits sum.splits prod.splits)

text \<open>What a customer route shows belongs to the caller.\<close>

definition belongs :: "packages \<Rightarrow> uuid \<Rightarrow> orderResponse \<Rightarrow> bool" where
  "belongs pkg cid x \<longleftrightarrow> Res_CustomerID x = pkg_pgUUID_String pkg (Some cid)"

lemma mapOrderResponse_owner:
  "Details_Order d = scan_order r \<Longrightarrow> belongs pkg (o_customer_id r) (mapOrderResponse pkg d)"
  by (simp add: belongs_def mapOrderResponse_def scan_order_def)

lemma answer_shows:
  assumes "x \<in> set (response_orders (fst (answer m f s)))"
    and "\<And>y t. m s = (Inr y, t) \<Longrightarrow> x \<in> set (response_orders (f y)) \<Longrightarrow> P"
  shows P
  using assms by (cases rule: answer_cases [of m s f]) auto

lemma create_isolated:
  assumes "ok s" and "h_service h = Some svc"
    and "x \<in> set (response_orders (fst (Handler_CreateOrder pkg h r s)))"
  shows "\<exists>cid. CustomerIDFromContext r = Some cid \<and> belongs pkg cid x"
  using assms
  by (auto simp: Handler_CreateOrder_def split: option.splits sum.splits elim!: answer_shows
      dest!: create_own [OF assms(1)] intro!: mapOrderResponse_owner)

lemma get_isolated:
  assumes "ok s" and "h_service h = Some svc"
    and "x \<in> set (response_orders (fst (Handler_GetOrder pkg h r s)))"
  shows "\<exists>cid. CustomerIDFromContext r = Some cid \<and> belongs pkg cid x"
  using assms
  by (auto simp: Handler_GetOrder_def split: option.splits sum.splits elim!: answer_shows
      dest!: get_own [OF assms(1)] intro!: mapOrderResponse_owner)

lemma cancel_isolated:
  assumes "ok s" and "h_service h = Some svc"
    and "x \<in> set (response_orders (fst (Handler_CancelOrder pkg h r s)))"
  shows "\<exists>cid. CustomerIDFromContext r = Some cid \<and> belongs pkg cid x"
  using assms
  by (auto simp: Handler_CancelOrder_def split: option.splits sum.splits elim!: answer_shows
      dest!: cancel_own [OF assms(1)] intro!: mapOrderResponse_owner)

lemma list_isolated:
  assumes "ok s" and "h_service h = Some svc"
    and "x \<in> set (response_orders (fst (Handler_ListOrders pkg h r s)))"
  shows "\<exists>cid. CustomerIDFromContext r = Some cid \<and> belongs pkg cid x"
  using assms
  by (auto simp: Handler_ListOrders_def list_response_def split: option.splits sum.splits prod.splits
      elim!: answer_shows dest!: list_own [OF assms(1)] dest: bspec intro!: mapOrderResponse_owner)

end

section \<open>The service over PostgreSQL meets the contract\<close>

lemma service_methods_simps [simp]:
  "hs_CreateOrder (service_methods p svc) = Service_CreateOrder p svc"
  "hs_GetOrder (service_methods p svc) = Service_GetOrder svc"
  "hs_ListOrderDetails (service_methods p svc) = Service_ListOrderDetails svc"
  "hs_CancelOrderDetails (service_methods p svc) = Service_CancelOrderDetails svc"
  "hs_UpdateOrderStatusByTarget (service_methods p svc) = Service_UpdateOrderStatusByTarget svc"
  by (simp_all add: service_methods_def)

lemma list_page_rows:
  assumes "db_call Pool (list_page P limit) w = (Inr xs, w')" and "x \<in> set xs"
  shows "\<exists>r. x = scan_order r \<and> P r"
  using assms unfolding db_call_Pool
  by (auto elim!: run_stmt_InrE simp: list_page_def split: if_splits dest!: in_set_takeD) blast+

lemma list_page_text_rows:
  assumes "db_call Pool (\<lambda>now d. if b then Inl e else list_page P limit now d) w = (Inr xs, w')"
    and "x \<in> set xs"
  shows "\<exists>r. x = scan_order r \<and> P r"
  using assms unfolding db_call_Pool
  by (auto elim!: run_stmt_InrE simp: list_page_def split: if_splits dest!: in_set_takeD) blast+

lemma ListOrders_rows:
  assumes "Repository_ListOrders cmd w = (Inr xs, w')" and "x \<in> set xs"
  shows "\<exists>r. x = scan_order r \<and> o_customer_id r = ListCmd_CustomerID cmd"
  using assms
  by (auto simp: Repository_ListOrders_def Queries_ListOrdersByCustomerID_def
      Queries_ListOrdersByCustomerIDAndStatus_def split: if_splits
      dest!: list_page_rows list_page_text_rows)

lemma hydrate_orders:
  "hydrateOrderDetails svc os w = (Inr ds, w') \<Longrightarrow> map Details_Order ds = os"
  unfolding hydrateOrderDetails_def
  by (induction os arbitrary: w ds) (auto elim!: bindE_InrE)

lemma ListOrderDetails_own:
  assumes "Service_ListOrderDetails pg_service li w = (Inr ds, w')" and "d \<in> set ds"
  shows "\<exists>r. Details_Order d = scan_order r \<and> o_customer_id r = ListIn_CustomerID li"
proof -
  from assms(1) obtain os u where
    "Service_ListOrders pg_service li w = (Inr os, u)" and
    "hydrateOrderDetails pg_service os u = (Inr ds, w')"
    unfolding Service_ListOrderDetails_def by (auto elim!: bindE_InrE)
  moreover from this(2) assms(2) have "Details_Order d \<in> set os"
    by (auto dest!: hydrate_orders)
  ultimately show ?thesis
    by (auto simp: Service_ListOrders_def dest!: ListOrders_rows)
qed

lemma CancelOrderDetails_own:
  assumes "good w" and "Service_CancelOrderDetails pg_service ca w = (Inr d, w')"
  shows "\<exists>r. Details_Order d = scan_order r \<and> o_customer_id r = CancelIn_CustomerID ca \<and>
     o_id r = CancelIn_OrderID ca"
proof -
  let ?cmd = "\<lparr>CancelCmd_OrderID = CancelIn_OrderID ca, CancelCmd_CustomerID = CancelIn_CustomerID ca,
      CancelCmd_ActorID = CancelIn_ActorID ca, CancelCmd_Reason = CancelIn_Reason ca,
      CancelCmd_IPAddress = CancelIn_IPAddress ca\<rparr>"
  from assms(2) obtain x u where
    c: "Service_CancelOrder pg_service ca w = (Inr x, u)" and "Details_Order d = x"
    unfolding Service_CancelOrderDetails_def with_items_def by (auto elim!: bindE_InrE)
  from c obtain y v where g: "Repository_GetOrderByIDAndCustomerID (CancelIn_OrderID ca)
      (CancelIn_CustomerID ca) w = (Inr y, v)" and
    r: "Repository_CancelOrderWithAudit ?cmd v = (Inr x, u)"
    unfolding Service_CancelOrder_def
    by (auto elim!: bindE_InrE onErrE_cases split: if_splits)
  have "good v" using g assms(1) by (auto intro: session.run_ok [OF guarantees_get])
  then have ok: "tables_ok (w_db (tick (begin_session v)))"
    using leads_session [of v] leads_good [of v "begin_session v"] by (auto simp: good_def)
  from r keeps_env_bodies(2) obtain w2 where
    "cancel_tx ?cmd (Tx (now_at (w_env v) (w_tick v))) (tick (begin_session v)) = (Inr x, w2)"
    unfolding Repository_CancelOrderWithAudit_def by (rule withTx_elim) auto
  then obtain r where "o_customer_id r = CancelIn_CustomerID ca" "o_id r = CancelIn_OrderID ca"
      "x = scan_order (set_status StatusCancelled (now_at (w_env v) (w_tick v)) r)"
    by (rule cancel_tx_effect [OF _ ok]) auto
  with \<open>Details_Order d = x\<close> show ?thesis
    by (intro exI [of _ "set_status StatusCancelled (now_at (w_env v) (w_tick v)) r"]) simp
qed

lemma CreateOrder_own:
  assumes "Service_CreateOrder p pg_service ci w = (Inr res, w')"
  shows "\<exists>r. CreateRes_Order res = scan_order r \<and> o_customer_id r = CreateIn_CustomerID ci"
  using CreateOrder_effect [OF assms] by (auto simp: placed_order_def)

interpretation api: order_api good leads "service_methods p pg_service" w_db for p
proof (unfold_locales, unfold service_methods_simps)
  fix s t :: world and ci res ds d li ca oid cid e
  show "good s \<Longrightarrow> Service_CreateOrder p pg_service ci s = (Inr res, t) \<Longrightarrow>
      \<exists>r. CreateRes_Order res = scan_order r \<and> o_customer_id r = CreateIn_CustomerID ci"
    by (rule CreateOrder_own)
  show "good s \<Longrightarrow> Service_GetOrder pg_service oid cid s = (Inr d, t) \<Longrightarrow>
      \<exists>r. Details_Order d = scan_order r \<and> o_customer_id r = cid \<and> o_id r = oid"
    by (drule (1) pg.GetOrder_own) (auto simp: owned_order_def)
  show "good s \<Longrightarrow> Service_ListOrderDetails pg_service li s = (Inr ds, t) \<Longrightarrow>
      \<forall>d \<in> set ds. \<exists>r. Details_Order d = scan_order r \<and> o_customer_id r = ListIn_CustomerID li"
    by (blast dest: ListOrderDetails_own)
  show "good s \<Longrightarrow> Service_CancelOrderDetails pg_service ca s = (Inr d, t) \<Longrightarrow>
      \<exists>r. Details_Order d = scan_order r \<and> o_customer_id r = CancelIn_CustomerID ca \<and>
        o_id r = CancelIn_OrderID ca"
    by (rule CancelOrderDetails_own)
qed (auto intro: pg.CreateOrder_guarantee pg.GetOrder_guarantee pg.ListOrderDetails_guarantee
    pg.CancelOrderDetails_guarantee pg.UpdateOrderStatusByTarget_guarantee
    dest: pg.GetOrder_not_found pg.CreateOrder_conflict)

end
