(* ===== verification/Worker.thy ===== *)
theory Worker
  imports Systems PgStore
begin

text \<open>
  \<open>internal/orders/worker.go\<close>: the background worker.  \<open>Run\<close> is a state machine: the
  select loop, the goroutine each tick may start, the \<open>isRunning\<close> flag taken by
  compare-and-swap, the \<open>activeRuns\<close> wait group, and the cancellation of the context.
  Every step below is one atomic action of one goroutine; they interleave freely, and
  between any two of them other sessions may work on the store.
\<close>

section \<open>The worker\<close>

record 's workerService =
  ws_ProcessPendingOrdersBatch :: "ProcessPendingOrdersBatchInput \<Rightarrow> ('s, go_error, Order list) op"

record 's Worker =
  wk_service :: "'s workerService option"
  wk_batchSize :: int32
  wk_interval :: int

definition workerInterval :: int where
  "workerInterval = 5 * 60 * 10 ^ 9"

definition NewWorker :: "'s workerService option \<Rightarrow> int32 \<Rightarrow> 's Worker" where
  "NewWorker svc batchSize =
     \<lparr>wk_service = svc, wk_batchSize = batchSize, wk_interval = workerInterval\<rparr>"

text \<open>What a run writes to the log.\<close>

datatype run_log = RunCanceled | RunFailed go_error | RunCompleted nat

definition runOnce :: "'s workerService \<Rightarrow> int32 \<Rightarrow> bool \<Rightarrow> 's \<Rightarrow> run_log \<times> 's" where
  "runOnce svc batchSize ctxDone s =
     (case ws_ProcessPendingOrdersBatch svc
             \<lparr>BatchIn_Limit = batchSize, BatchIn_ActorID = None, BatchIn_Reason = None,
              BatchIn_IPAddress = None\<rparr> s of
        (Inl err, t) \<Rightarrow> (if ctxDone then RunCanceled else RunFailed err, t)
      | (Inr moved, t) \<Rightarrow> (RunCompleted (length moved), t))"

text \<open>The checks at the head of \<open>Run\<close>: \<open>None\<close> when the loop starts.\<close>

definition Run_error :: "'s Worker \<Rightarrow> string option" where
  "Run_error w =
     (if wk_service w = None then Some ''worker service is required''
      else if sint (wk_batchSize w) < 1 then Some ''worker batch size must be positive''
      else None)"

section \<open>The loop\<close>

text \<open>Where the goroutine of \<open>Run\<close> is: in \<open>select\<close>, between a successful compare-and-swap and
  the \<open>go\<close> statement, in \<open>activeRuns.Wait\<close>, or returned.\<close>

datatype phase = Selecting | Launching | Waiting | Returned

text \<open>Where the goroutine of a tick is: before the service call, before the deferred
  \<open>isRunning.Store(false)\<close>, or before the deferred \<open>activeRuns.Done()\<close>.\<close>

datatype run_stage = Called | Processed | Cleared

record 's worker_state =
  wk_phase :: phase
  wk_isRunning :: bool
  wk_activeRuns :: nat
  wk_runs :: "run_stage list"
  wk_ctxDone :: bool
  wk_log :: "run_log list"
  wk_store :: 's

definition worker_start :: "'s \<Rightarrow> 's worker_state" where
  "worker_start s =
     \<lparr>wk_phase = Selecting, wk_isRunning = False, wk_activeRuns = 0, wk_runs = [],
      wk_ctxDone = False, wk_log = [], wk_store = s\<rparr>"

text \<open>\<open>select\<close> takes any ready case: a tick may still be taken after the cancellation.  A tick
  is the ticker's doing, so it need not come.\<close>

inductive worker_tick :: "'s worker_state \<Rightarrow> 's worker_state \<Rightarrow> bool" where
  tick_skipped: "wk_phase s = Selecting \<Longrightarrow> wk_isRunning s \<Longrightarrow> worker_tick s s"
| tick_taken: "wk_phase s = Selecting \<Longrightarrow> \<not> wk_isRunning s \<Longrightarrow>
    worker_tick s (s\<lparr>wk_isRunning := True, wk_phase := Launching\<rparr>)"

text \<open>What the worker's goroutines do by themselves.\<close>

inductive worker_own :: "'s workerService \<Rightarrow> int32 \<Rightarrow> 's worker_state \<Rightarrow> 's worker_state \<Rightarrow> bool"
  for svc n where
  launch: "wk_phase s = Launching \<Longrightarrow>
    worker_own svc n s (s\<lparr>wk_phase := Selecting, wk_activeRuns := wk_activeRuns s + 1,
                          wk_runs := wk_runs s @ [Called]\<rparr>)"
| ctx_done: "wk_phase s = Selecting \<Longrightarrow> wk_ctxDone s \<Longrightarrow> worker_own svc n s (s\<lparr>wk_phase := Waiting\<rparr>)"
| all_done: "wk_phase s = Waiting \<Longrightarrow> wk_activeRuns s = 0 \<Longrightarrow>
    worker_own svc n s (s\<lparr>wk_phase := Returned\<rparr>)"
| process: "i < length (wk_runs s) \<Longrightarrow> wk_runs s ! i = Called \<Longrightarrow>
    runOnce svc n (wk_ctxDone s) (wk_store s) = (l, t) \<Longrightarrow>
    worker_own svc n s (s\<lparr>wk_runs := (wk_runs s)[i := Processed], wk_log := wk_log s @ [l],
                          wk_store := t\<rparr>)"
| store_false: "i < length (wk_runs s) \<Longrightarrow> wk_runs s ! i = Processed \<Longrightarrow>
    worker_own svc n s (s\<lparr>wk_isRunning := False, wk_runs := (wk_runs s)[i := Cleared]\<rparr>)"
| run_done: "i < length (wk_runs s) \<Longrightarrow> wk_runs s ! i = Cleared \<Longrightarrow>
    worker_own svc n s (s\<lparr>wk_activeRuns := wk_activeRuns s - 1,
                          wk_runs := take i (wk_runs s) @ drop (Suc i) (wk_runs s)\<rparr>)"

definition worker_step :: "'s workerService \<Rightarrow> int32 \<Rightarrow> 's worker_state \<Rightarrow> 's worker_state \<Rightarrow> bool" where
  "worker_step svc n s t \<longleftrightarrow> worker_tick s t \<or> worker_own svc n s t"

text \<open>The surroundings: the context is cancelled, other sessions change the store.\<close>

inductive world_step :: "('s \<Rightarrow> 's \<Rightarrow> bool) \<Rightarrow> 's worker_state \<Rightarrow> 's worker_state \<Rightarrow> bool"
  for others where
  cancel: "world_step others s (s\<lparr>wk_ctxDone := True\<rparr>)"
| others: "others (wk_store s) t \<Longrightarrow> world_step others s (s\<lparr>wk_store := t\<rparr>)"

definition system_step ::
    "'s workerService \<Rightarrow> int32 \<Rightarrow> ('s \<Rightarrow> 's \<Rightarrow> bool) \<Rightarrow> 's worker_state \<Rightarrow> 's worker_state \<Rightarrow> bool" where
  "system_step svc n others s t \<longleftrightarrow> worker_step svc n s t \<or> world_step others s t"

inductive_cases worker_tickE: "worker_tick s t"
inductive_cases worker_ownE: "worker_own svc n s t"
inductive_cases world_stepE: "world_step others s t"

section \<open>The invariant\<close>

text \<open>Runs that hold the \<open>isRunning\<close> flag.\<close>

definition holders :: "run_stage list \<Rightarrow> nat" where
  "holders rs = length (filter (\<lambda>x. x \<noteq> Cleared) rs)"

lemma holders_simps [simp]:
  "holders [] = 0" "holders (rs @ [x]) = holders rs + (if x = Cleared then 0 else 1)"
  by (simp_all add: holders_def)

lemma split_at: "i < length xs \<Longrightarrow> xs = take i xs @ xs ! i # drop (Suc i) xs"
  by (rule id_take_nth_drop)

lemma holders_at:
  assumes "i < length rs"
  shows "holders rs = holders (take i rs @ drop (Suc i) rs) + (if rs ! i = Cleared then 0 else 1)"
    and "holders (rs[i := x]) = holders (take i rs @ drop (Suc i) rs) + (if x = Cleared then 0 else 1)"
proof -
  show "holders rs = holders (take i rs @ drop (Suc i) rs) + (if rs ! i = Cleared then 0 else 1)"
    by (subst split_at [OF assms]) (simp add: holders_def)
  show "holders (rs[i := x]) = holders (take i rs @ drop (Suc i) rs) + (if x = Cleared then 0 else 1)"
    using assms by (simp add: upd_conv_take_nth_drop holders_def)
qed

definition worker_inv :: "'s worker_state \<Rightarrow> bool" where
  "worker_inv s \<longleftrightarrow>
     wk_activeRuns s = length (wk_runs s) \<and>
     holders (wk_runs s) = (if wk_isRunning s \<and> wk_phase s \<noteq> Launching then 1 else 0) \<and>
     (wk_phase s = Launching \<longrightarrow> wk_isRunning s) \<and>
     (wk_phase s = Returned \<longrightarrow> wk_runs s = [])"

lemma worker_inv_start [simp]: "worker_inv (worker_start s)"
  by (simp add: worker_inv_def worker_start_def)

lemma worker_tick_inv: "worker_tick s t \<Longrightarrow> worker_inv s \<Longrightarrow> worker_inv t"
  by (erule worker_tickE) (auto simp: worker_inv_def split: if_splits)

lemma worker_own_inv: "worker_own svc n s t \<Longrightarrow> worker_inv s \<Longrightarrow> worker_inv t"
proof (induction rule: worker_own.cases)
  case (process i s l t)
  then show ?case using holders_at [of i "wk_runs s"]
    by (auto simp: worker_inv_def split: if_splits)
next
  case (store_false i s)
  then show ?case using holders_at [of i "wk_runs s"]
    by (auto simp: worker_inv_def split: if_splits)
next
  case (run_done i s)
  then show ?case using holders_at [of i "wk_runs s"]
    by (auto simp: worker_inv_def split: if_splits)
qed (auto simp: worker_inv_def split: if_splits)

lemma worker_step_inv: "worker_step svc n s t \<Longrightarrow> worker_inv s \<Longrightarrow> worker_inv t"
  by (auto simp: worker_step_def intro: worker_tick_inv worker_own_inv)

lemma world_step_inv: "world_step others s t \<Longrightarrow> worker_inv s \<Longrightarrow> worker_inv t"
  by (erule world_stepE) (auto simp: worker_inv_def)

lemma system_step_inv: "system_step svc n others s t \<Longrightarrow> worker_inv s \<Longrightarrow> worker_inv t"
  by (auto simp: system_step_def intro: worker_step_inv world_step_inv)

interpretation worker: inductive_invariant "system_step svc n others" worker_inv
  for svc n others
  by unfold_locales (rule system_step_inv)

text \<open>Mutual exclusion: the runs that are before their \<open>isRunning.Store(false)\<close> are at most one.\<close>

lemma one_holder: "worker_inv s \<Longrightarrow> holders (wk_runs s) \<le> 1"
  by (simp add: worker_inv_def)

section \<open>Stopping\<close>

text \<open>What is left to do for a worker that has been told to stop: the stages of its runs, and
  the way of its loop to the return.\<close>

fun stage_work :: "run_stage \<Rightarrow> nat" where
  "stage_work Called = 3" | "stage_work Processed = 2" | "stage_work Cleared = 1"

fun phase_work :: "phase \<Rightarrow> nat" where
  "phase_work Launching = 6" | "phase_work Selecting = 2" | "phase_work Waiting = 1"
| "phase_work Returned = 0"

definition work_left :: "'s worker_state \<Rightarrow> nat" where
  "work_left s = sum_list (map stage_work (wk_runs s)) + phase_work (wk_phase s)"

lemma sum_list_at:
  assumes "i < length rs"
  shows "sum_list (map f rs) = sum_list (map f (take i rs @ drop (Suc i) rs)) + (f (rs ! i) :: nat)"
  by (subst split_at [OF assms]) simp

lemma sum_list_upd:
  assumes "i < length rs"
  shows "sum_list (map f (rs[i := x])) = sum_list (map f (take i rs @ drop (Suc i) rs)) + (f x :: nat)"
  using assms by (simp add: upd_conv_take_nth_drop)

lemma worker_own_work: "worker_own svc n s t \<Longrightarrow> work_left t < work_left s"
proof (induction rule: worker_own.cases)
  case (process i s l t)
  then show ?case
    using sum_list_at [of i "wk_runs s" stage_work] sum_list_upd [of i "wk_runs s" stage_work Processed]
    by (auto simp: work_left_def)
next
  case (store_false i s)
  then show ?case
    using sum_list_at [of i "wk_runs s" stage_work] sum_list_upd [of i "wk_runs s" stage_work Cleared]
    by (auto simp: work_left_def)
next
  case (run_done i s)
  then show ?case using sum_list_at [of i "wk_runs s" stage_work] by (auto simp: work_left_def)
qed (auto simp: work_left_def)

lemma worker_tick_work: "worker_tick s t \<Longrightarrow> work_left t \<le> work_left s + 4"
  by (erule worker_tickE) (simp_all add: work_left_def)

lemma worker_step_keeps:
  assumes "worker_step svc n s t"
  shows "wk_ctxDone t = wk_ctxDone s" and "wk_phase s = Returned \<Longrightarrow> wk_phase t = Returned"
  using assms unfolding worker_step_def by (auto elim!: worker_tickE worker_ownE)

definition told :: "'s worker_state \<Rightarrow> bool" where
  "told s \<longleftrightarrow> worker_inv s \<and> wk_ctxDone s"

lemma told_moves:
  assumes "told s" and "wk_phase s \<noteq> Returned"
  shows "\<exists>t. worker_own svc n s t"
proof (cases "wk_phase s")
  case Waiting
  show ?thesis
  proof (cases "wk_runs s")
    case Nil
    with assms Waiting have "wk_activeRuns s = 0" by (simp add: told_def worker_inv_def)
    with Waiting show ?thesis by (blast intro: all_done)
  next
    case (Cons x xs)
    then have i: "0 < length (wk_runs s)" and x: "wk_runs s ! 0 = x" by simp_all
    obtain l t where "runOnce svc n (wk_ctxDone s) (wk_store s) = (l, t)" by fastforce
    with i x show ?thesis by (cases x) (blast intro: process store_false run_done)+
  qed
qed (use assms in \<open>auto simp: told_def intro: launch ctx_done\<close>)

interpretation stopping_worker: stopping_system "worker_own svc n" worker_tick "world_step others" told
    work_left 4 "\<lambda>s. wk_phase s = Returned" for svc n others
proof
  fix s t :: "'a worker_state"
  assume told: "told s"
  show "worker_own svc n s t \<Longrightarrow> told t \<and> work_left t < work_left s"
    using told worker_own_inv worker_own_work worker_step_keeps(1) by (fastforce simp: told_def worker_step_def)
  show "worker_tick s t \<Longrightarrow> told t \<and> work_left t \<le> work_left s + 4"
    using told worker_tick_inv worker_tick_work worker_step_keeps(1) by (fastforce simp: told_def worker_step_def)
  show "world_step others s t \<Longrightarrow> told t \<and> work_left t \<le> work_left s"
    using told by (auto simp: told_def work_left_def worker_inv_def elim!: world_stepE)
qed (rule told_moves)

text \<open>A worker that has returned is at rest.\<close>

lemma returned_stays:
  assumes "worker_inv s" and "wk_phase s = Returned"
  shows "\<not> worker_step svc n s t"
  using assms by (auto simp: worker_step_def worker_inv_def elim!: worker_tickE worker_ownE)

section \<open>The store\<close>

text \<open>A batch service over a shared store: every run keeps the store's guarantee, so the
  whole worker does.\<close>

locale batch_service = shared_store ok grows
    for ok :: "'s \<Rightarrow> bool" and grows :: "'s \<Rightarrow> 's \<Rightarrow> bool" +
  fixes svc :: "'s workerService" and n :: int32
  assumes batch: "guaranteesE ok grows (ws_ProcessPendingOrdersBatch svc input)"
begin

lemma runOnce_grows: "runOnce svc n c s = (l, t) \<Longrightarrow> ok s \<Longrightarrow> grows s t"
  unfolding runOnce_def using run_leads [OF batch]
  by (auto split: prod.splits sum.splits)

lemma system_step_grows: "system_step svc n grows s t \<Longrightarrow> ok (wk_store s) \<Longrightarrow> grows (wk_store s) (wk_store t)"
  unfolding system_step_def
  worker_step_def
  by (elim disjE worker_tickE worker_ownE world_stepE) (auto intro: runOnce_grows)

sublocale steps: progress_relation "system_step svc n grows" "\<lambda>s. ok (wk_store s)"
    "\<lambda>s t. grows (wk_store s) (wk_store t)"
  by unfold_locales (auto intro: system_step_grows leads_ok leads_trans)

end

definition batch_methods :: "'s Service \<Rightarrow> 's workerService" where
  "batch_methods svc = \<lparr>ws_ProcessPendingOrdersBatch = Service_ProcessPendingOrdersBatch svc\<rparr>"

interpretation pg_worker: batch_service good leads "batch_methods pg_service" n for n
  by unfold_locales (simp add: batch_methods_def pg.ProcessPendingOrdersBatch_guarantee)

end
