(* ===== verification/JWT.thy ===== *)
theory JWT
  imports Auth
begin

text \<open>
  \<open>internal/auth/jwt.go\<close>: the start of the JWT middleware (discovery document, key set,
  HTTPS only, bounded responses) and its work per request.  Outside the repository and
  hence arguments: \<open>uuid.Parse\<close>, the HTTP exchange behind the client's transport, and
  go-oidc's \<open>verifier.Verify\<close> with the claims of the token it returns.
\<close>

section \<open>Configuration\<close>

record auth_Config =
  Auth_Mode :: Mode
  Auth_Issuer :: string
  Auth_Audience :: string
  Auth_JWKSURL :: string
  Auth_OIDCDiscoveryURL :: string
  Auth_AllowedAlgorithms :: "string list"
  Auth_SubjectClaim :: string
  Auth_CustomerIDClaim :: string
  Auth_RoleClaim :: string
  Auth_RoleCustomerValue :: string
  Auth_RoleAdminValue :: string
  Auth_RoleSystemValue :: string
  Auth_HTTPTimeout :: int

record discoveryDocument =
  Disc_Issuer :: string
  Disc_JWKSURL :: string

definition validateHTTPSURL :: "string \<Rightarrow> string + unit" where
  "validateHTTPSURL value =
     (case url_Parse value of
        None \<Rightarrow> Inl ''JWKS URL must be a valid HTTPS URL''
      | Some (sch, host) \<Rightarrow>
          if sch \<noteq> ''https'' \<or> host = [] then Inl ''JWKS URL must be a valid HTTPS URL'' else Inr ())"

section \<open>Bounded responses\<close>

definition maxJWTMetadataResponseBytes :: int where
  "maxJWTMetadataResponseBytes = push_bit 20 1"

definition errJWTMetadataResponseTooLarge :: string where
  "errJWTMetadataResponseTooLarge = ''JWT metadata response exceeds size limit''"

text \<open>One \<open>Read\<close> of \<open>maxBytesReadCloser\<close> over an inner \<open>Read\<close>, which fills at most \<open>n\<close> bytes
  of the buffer it is given and may return an error (\<open>Some []\<close> stands for \<open>io.EOF\<close>) with
  or without bytes.  The \<open>int64\<close> of bytes that remain is an \<open>int\<close>: it starts at \<open>2 ^ 20\<close> and only
  falls, so it cannot overflow.\<close>

type_synonym 'r read_op = "nat \<Rightarrow> 'r \<Rightarrow> (string \<times> string option) \<times> 'r"

record 'r maxBytesReadCloser =
  mb_reader :: 'r
  mb_remaining :: int

definition maxBytes_Read :: "'r read_op \<Rightarrow> 'r maxBytesReadCloser read_op" where
  "maxBytes_Read inner n m =
     (if mb_remaining m \<le> 0 then
        (let ((bs, err), r) = inner 1 (mb_reader m) in
         if 0 < length bs then (([], Some errJWTMetadataResponseTooLarge), m\<lparr>mb_reader := r\<rparr>)
         else (([], err), m\<lparr>mb_reader := r\<rparr>))
      else
        (let n' = (if int n > mb_remaining m + 1 then nat (mb_remaining m + 1) else n);
             ((bs, err), r) = inner n' (mb_reader m)
         in if int (length bs) > mb_remaining m
            then ((take (nat (mb_remaining m)) bs, Some errJWTMetadataResponseTooLarge),
                  \<lparr>mb_reader = r, mb_remaining = 0\<rparr>)
            else ((bs, err), \<lparr>mb_reader = r, mb_remaining = mb_remaining m - int (length bs)\<rparr>)))"

text \<open>What a client that reads to the end gets through the bound, given all the inner
  reader will deliver.\<close>

definition bounded_body :: "reader \<Rightarrow> reader" where
  "bounded_body r =
     (if int (length (rd_bytes r)) \<le> maxJWTMetadataResponseBytes then r
      else \<lparr>rd_bytes = take (nat maxJWTMetadataResponseBytes) (rd_bytes r),
            rd_error = Some errJWTMetadataResponseTooLarge\<rparr>)"

section \<open>Metadata documents\<close>

text \<open>An HTTP exchange: an error, or the status and the body.\<close>

type_synonym http_client = "string \<Rightarrow> string + (nat \<times> reader)"

text \<open>\<open>boundedJWTHTTPClient\<close> wraps the transport so that every response body is bounded.\<close>

definition RoundTrip :: "http_client \<Rightarrow> http_client" where
  "RoundTrip base url =
     (case base url of Inl e \<Rightarrow> Inl e | Inr (status, bd) \<Rightarrow> Inr (status, bounded_body bd))"

definition boundedJWTHTTPClient :: "http_client \<Rightarrow> http_client" where
  "boundedJWTHTTPClient client = RoundTrip client"

text \<open>\<open>json.NewDecoder(resp.Body).Decode(dst)\<close>: the first value of the stream, unknown fields
  ignored.  A value that ends by itself is decoded even if the stream fails later.  The texts
  of the package's errors, which only reach the log, are shortened.\<close>

definition decode_first :: "'a fields \<Rightarrow> reader \<Rightarrow> 'a \<Rightarrow> string + 'a" where
  "decode_first fs r dst =
     (case parse_json (rd_bytes r) of
        Scanned v rest \<Rightarrow>
          if rest = [] \<and> rd_error r \<noteq> None \<and> \<not> (case v of JObject _ \<Rightarrow> True | JArray _ \<Rightarrow> True | _ \<Rightarrow> False)
          then Inl (the (rd_error r))
          else (case store_body False fs (rd_bytes r) rest v dst of
                  Inl _ \<Rightarrow> Inl ''json: cannot unmarshal'' | Inr x \<Rightarrow> Inr x)
      | BadByte _ \<Rightarrow> Inl ''invalid character''
      | _ \<Rightarrow> Inl (case rd_error r of Some t \<Rightarrow> t | None \<Rightarrow> ''unexpected EOF''))"

definition fetchMetadataDocument :: "http_client \<Rightarrow> string \<Rightarrow> 'a fields \<Rightarrow> 'a \<Rightarrow> string + 'a" where
  "fetchMetadataDocument client metadataURL fs destination =
     (if url_Parse metadataURL = None then Inl ''invalid URL''
      else
        (case client metadataURL of
           Inl e \<Rightarrow> Inl e
         | Inr (status, bd) \<Rightarrow>
             if status \<noteq> StatusOK then Inl (''unexpected status '' @ show_nat status)
             else decode_first fs bd destination))"

text \<open>Of the key set only the number of keys matters here.\<close>

fun store_keys :: "string list \<Rightarrow> json \<Rightarrow> nat \<Rightarrow> decode_error + nat" where
  "store_keys path (JArray ks) n = Inr (length ks)"
| "store_keys path JNull n = Inr 0"
| "store_keys path _ n = Inl (type_error path)"

definition probeJWKS :: "http_client \<Rightarrow> string \<Rightarrow> string + unit" where
  "probeJWKS client jwksURL =
     (case fetchMetadataDocument client jwksURL [(''keys'', store_keys)] 0 of
        Inl e \<Rightarrow> Inl e
      | Inr n \<Rightarrow> if n = 0 then Inl ''JWKS document contains no keys'' else Inr ())"

definition discovery_fields :: "discoveryDocument fields" where
  "discovery_fields =
     [(''issuer'', \<lambda>p v d. setting (\<lambda>s. d\<lparr>Disc_Issuer := s\<rparr>) (store_string p v (Disc_Issuer d))),
      (''jwks_uri'', \<lambda>p v d. setting (\<lambda>s. d\<lparr>Disc_JWKSURL := s\<rparr>) (store_string p v (Disc_JWKSURL d)))]"

definition fetchDiscoveryDocument :: "http_client \<Rightarrow> string \<Rightarrow> string + discoveryDocument" where
  "fetchDiscoveryDocument client discoveryURL =
     fetchMetadataDocument client discoveryURL discovery_fields \<lparr>Disc_Issuer = [], Disc_JWKSURL = []\<rparr>"

section \<open>Tokens and claims\<close>

definition bearerToken :: "string \<Rightarrow> string option" where
  "bearerToken value =
     (case Fields value of
        [scheme, token] \<Rightarrow> if scheme = ''Bearer'' \<and> token \<noteq> [] then Some token else None
      | _ \<Rightarrow> None)"

type_synonym claims = "string \<rightharpoonup> json"

text \<open>\<open>json.Unmarshal\<close> of a claim into a string and into a string slice; \<open>null\<close> leaves the
  zero value.\<close>

fun unmarshal_string :: "json \<Rightarrow> string option" where
  "unmarshal_string (JString s) = Some s"
| "unmarshal_string JNull = Some []"
| "unmarshal_string _ = None"

fun unmarshal_strings :: "json \<Rightarrow> string list option" where
  "unmarshal_strings (JArray js) = parse_all unmarshal_string js"
| "unmarshal_strings JNull = Some []"
| "unmarshal_strings _ = None"

definition stringClaim :: "claims \<Rightarrow> string \<Rightarrow> string option" where
  "stringClaim claims name = (case claims name of None \<Rightarrow> None | Some raw \<Rightarrow> unmarshal_string raw)"

text \<open>The role one claim value stands for; the cases of the Go switch are tried in order.\<close>

definition role_of_value :: "auth_Config \<Rightarrow> string \<Rightarrow> Role option" where
  "role_of_value cfg value =
     (if value = Auth_RoleCustomerValue cfg then Some RoleCustomer
      else if value = Auth_RoleAdminValue cfg then Some RoleAdmin
      else if value = Auth_RoleSystemValue cfg then Some RoleSystem
      else None)"

text \<open>The loop over the values; the empty role stands for none matched yet.\<close>

fun match_roles :: "auth_Config \<Rightarrow> Role \<Rightarrow> string list \<Rightarrow> string + Role" where
  "match_roles cfg matched [] = Inr matched"
| "match_roles cfg matched (value # vs) =
     (case role_of_value cfg value of
        None \<Rightarrow> match_roles cfg matched vs
      | Some role \<Rightarrow>
          if matched \<noteq> [] \<and> matched \<noteq> role then Inl ''role claim resolves to multiple OMS roles''
          else match_roles cfg role vs)"

definition resolveRole :: "json option \<Rightarrow> auth_Config \<Rightarrow> string + Role" where
  "resolveRole raw cfg =
     (case raw of
        None \<Rightarrow> Inl ''missing role claim''
      | Some j \<Rightarrow>
          (case (case unmarshal_string j of Some single \<Rightarrow> Some [single] | None \<Rightarrow> unmarshal_strings j) of
             None \<Rightarrow> Inl ''role claim must be a string or string array''
           | Some values \<Rightarrow>
               (case match_roles cfg [] values of
                  Inl e \<Rightarrow> Inl e
                | Inr matched \<Rightarrow>
                    if matched = [] then Inl ''role claim does not resolve to an OMS role''
                    else Inr matched)))"

text \<open>A verified token: \<open>token.Claims\<close> gives its claims or an error.\<close>

type_synonym IDToken = "string + claims"

definition identityFromJWT :: "(string \<Rightarrow> uuid option) \<Rightarrow> IDToken \<Rightarrow> auth_Config \<Rightarrow> string + Identity" where
  "identityFromJWT uuid_Parse token cfg =
     (case token of
        Inl e \<Rightarrow> Inl e
      | Inr claims \<Rightarrow>
          (case stringClaim claims (Auth_SubjectClaim cfg) of
             None \<Rightarrow> Inl ''missing subject claim''
           | Some subject \<Rightarrow>
               if TrimSpace subject = [] then Inl ''missing subject claim''
               else
                 (case resolveRole (claims (Auth_RoleClaim cfg)) cfg of
                    Inl e \<Rightarrow> Inl e
                  | Inr role \<Rightarrow>
                      (let identity = zero_identity\<lparr>Id_Role := role, Id_Subject := subject,
                                                    Id_HasSubject := True\<rparr> in
                       if role = RoleCustomer then
                         (case stringClaim claims (Auth_CustomerIDClaim cfg) of
                            None \<Rightarrow> Inl ''missing customer id claim''
                          | Some customerIDValue \<Rightarrow>
                              (case uuid_Parse customerIDValue of
                                 None \<Rightarrow> Inl ''invalid customer id claim''
                               | Some customerID \<Rightarrow>
                                   Inr (identity\<lparr>Id_CustomerID := customerID, Id_HasCustomerID := True\<rparr>)))
                       else if role = RoleAdmin \<or> role = RoleSystem then
                         (case uuid_Parse subject of
                            None \<Rightarrow> Inl ''privileged subject claim must be a UUID''
                          | Some subjectID \<Rightarrow>
                              Inr (identity\<lparr>Id_SubjectID := subjectID, Id_HasSubjectID := True\<rparr>))
                       else Inr identity))))"

section \<open>The middleware\<close>

text \<open>\<open>verify s t\<close>: what the verifier, configured with the issuer, the audience, the key set
  and the allowed algorithms, says of the raw token \<open>t\<close> in state \<open>s\<close>.\<close>

definition jwt_authenticate ::
    "(string \<Rightarrow> uuid option) \<Rightarrow> ('s \<Rightarrow> string \<Rightarrow> string + IDToken) \<Rightarrow> auth_Config \<Rightarrow> 's \<Rightarrow> http_request \<Rightarrow>
     Identity option" where
  "jwt_authenticate uuid_Parse verify cfg s r =
     (case bearerToken (Header_Get (req_header r) ''Authorization'') of
        None \<Rightarrow> None
      | Some rawToken \<Rightarrow>
          (case verify s rawToken of
             Inl _ \<Rightarrow> None
           | Inr token \<Rightarrow>
               (case identityFromJWT uuid_Parse token cfg of Inl _ \<Rightarrow> None | Inr identity \<Rightarrow> Some identity)))"

definition jwt_middleware ::
    "(string \<Rightarrow> uuid option) \<Rightarrow> ('s \<Rightarrow> string \<Rightarrow> string + IDToken) \<Rightarrow> auth_Config \<Rightarrow> 's middleware" where
  "jwt_middleware uuid_Parse verify cfg next r s =
     (case jwt_authenticate uuid_Parse verify cfg s r of
        None \<Rightarrow> (unauthorized, s)
      | Some identity \<Rightarrow> next (WithIdentity r identity) s)"

text \<open>The URL of the key set, from the configuration or from the discovery document.\<close>

definition resolve_jwks_url :: "http_client \<Rightarrow> auth_Config \<Rightarrow> string + string" where
  "resolve_jwks_url client cfg =
     (if Auth_OIDCDiscoveryURL cfg = [] then Inr (Auth_JWKSURL cfg)
      else
        (case fetchDiscoveryDocument client (Auth_OIDCDiscoveryURL cfg) of
           Inl e \<Rightarrow> Inl (''load OIDC discovery document: '' @ e)
         | Inr discovery \<Rightarrow>
             if Disc_Issuer discovery \<noteq> Auth_Issuer cfg
             then Inl ''OIDC discovery issuer does not match OMS_JWT_ISSUER''
             else if Disc_JWKSURL discovery = [] then Inl ''OIDC discovery document is missing jwks_uri''
             else Inr (Disc_JWKSURL discovery)))"

definition newJWTIdentityMiddleware ::
    "(string \<Rightarrow> uuid option) \<Rightarrow> (string \<Rightarrow> 's \<Rightarrow> string \<Rightarrow> string + IDToken) \<Rightarrow> http_client \<Rightarrow> auth_Config \<Rightarrow>
     string + 's middleware" where
  "newJWTIdentityMiddleware uuid_Parse newVerifier client cfg =
     (if Auth_HTTPTimeout cfg \<le> 0 then Inl ''JWT HTTP timeout must be positive''
      else
        (let bounded = boundedJWTHTTPClient client in
         case resolve_jwks_url bounded cfg of
           Inl e \<Rightarrow> Inl e
         | Inr jwksURL \<Rightarrow>
             (case validateHTTPSURL jwksURL of
                Inl e \<Rightarrow> Inl e
              | Inr _ \<Rightarrow>
                  (case probeJWKS bounded jwksURL of
                     Inl e \<Rightarrow> Inl (''load JWKS document: '' @ e)
                   | Inr _ \<Rightarrow> Inr (jwt_middleware uuid_Parse (newVerifier jwksURL) cfg)))))"

definition newIdentityMiddleware ::
    "(string \<Rightarrow> uuid option) \<Rightarrow> (string \<Rightarrow> 's \<Rightarrow> string \<Rightarrow> string + IDToken) \<Rightarrow> http_client \<Rightarrow> auth_Config \<Rightarrow>
     string + 's middleware" where
  "newIdentityMiddleware uuid_Parse newVerifier client cfg =
     (if Auth_Mode cfg = ModeLocked then Inr (IdentityMiddleware uuid_Parse ModeLocked)
      else if Auth_Mode cfg = ModeDev then Inr (IdentityMiddleware uuid_Parse ModeDev)
      else if Auth_Mode cfg = ModeJWT then newJWTIdentityMiddleware uuid_Parse newVerifier client cfg
      else Inl (''unsupported auth mode '' @ go_quote (Auth_Mode cfg)))"

text \<open>The exported constructor takes \<open>http.DefaultClient\<close>.\<close>

definition NewIdentityMiddleware ::
    "(string \<Rightarrow> uuid option) \<Rightarrow> (string \<Rightarrow> 's \<Rightarrow> string \<Rightarrow> string + IDToken) \<Rightarrow> http_client \<Rightarrow> auth_Config \<Rightarrow>
     string + 's middleware" where
  "NewIdentityMiddleware uuid_Parse newVerifier DefaultClient cfg =
     newIdentityMiddleware uuid_Parse newVerifier DefaultClient cfg"

section \<open>Facts\<close>

lemma match_roles_roles:
  "match_roles cfg matched vs = Inr role \<Longrightarrow>
     role = matched \<or> role \<in> {RoleCustomer, RoleAdmin, RoleSystem}"
  by (induction cfg matched vs rule: match_roles.induct)
    (auto simp: role_of_value_def split: if_splits option.splits)

lemma resolveRole_role:
  "resolveRole raw cfg = Inr role \<Longrightarrow> role \<in> {RoleCustomer, RoleAdmin, RoleSystem}"
  by (auto simp: resolveRole_def dest: match_roles_roles split: option.splits sum.splits if_splits)

lemma identityFromJWT_ok:
  assumes "identityFromJWT uuid_Parse token cfg = Inr i"
  shows "identity_ok i"
  using assms
  by (auto simp: identityFromJWT_def identity_ok_def zero_identity_def Let_def
      dest: resolveRole_role split: sum.splits option.splits if_splits)

interpretation jwt: authenticator "jwt_middleware uuid_Parse verify cfg" "jwt_authenticate uuid_Parse verify cfg"
  for uuid_Parse verify cfg
  by unfold_locales
    (auto simp: jwt_middleware_def jwt_authenticate_def dest: identityFromJWT_ok
      split: sum.splits option.splits)

end
