(* ===== verification/Config.thy ===== *)
theory Config
  imports JWT
begin

text \<open>
  \<open>internal/platform/config.go\<close>: the configuration read from the environment.
  \<open>getenv\<close> gives the value of a variable, empty when unset; \<open>iter\<close> is the order in which
  Go ranges over a map, which the language leaves open.
\<close>

section \<open>Defaults\<close>

record Config =
  Cfg_HTTPAddr :: string
  Cfg_ShutdownTimeout :: int
  Cfg_ReadTimeout :: int
  Cfg_WriteTimeout :: int
  Cfg_IdleTimeout :: int
  Cfg_DatabaseURL :: string
  Cfg_WorkerBatchSize :: int32
  Cfg_AuthMode :: Mode
  Cfg_AuthConfig :: auth_Config

definition time_Second :: int where "time_Second = 10 ^ 9"

definition defaultHTTPAddr :: string where "defaultHTTPAddr = '':8080''"
definition defaultShutdownTimeout :: int where "defaultShutdownTimeout = 10 * time_Second"
definition defaultWorkerBatchSize :: int32 where "defaultWorkerBatchSize = 500"
definition defaultReadTimeout :: int where "defaultReadTimeout = 5 * time_Second"
definition defaultWriteTimeout :: int where "defaultWriteTimeout = 10 * time_Second"
definition defaultIdleTimeout :: int where "defaultIdleTimeout = 60 * time_Second"
definition defaultJWTHTTPTimeout :: int where "defaultJWTHTTPTimeout = 5 * time_Second"

lemmas config_defaults = defaultShutdownTimeout_def defaultReadTimeout_def defaultWriteTimeout_def
  defaultIdleTimeout_def defaultJWTHTTPTimeout_def time_Second_def

type_synonym getenv = "string \<Rightarrow> string"
type_synonym map_order = "(string \<times> string) list \<Rightarrow> (string \<times> string) list"

section \<open>Helpers\<close>

definition parsePositiveDurationEnv :: "getenv \<Rightarrow> string \<Rightarrow> int \<Rightarrow> string + int" where
  "parsePositiveDurationEnv getenv name fallback =
     (let value = getenv name in
      if value = [] then Inr fallback
      else
        (case ParseDuration value of
           None \<Rightarrow> Inl (name @ '' must be a valid duration'')
         | Some parsed \<Rightarrow>
             if parsed \<le> 0 then Inl (name @ '' must be a positive duration'') else Inr parsed))"

definition envTrimmed :: "getenv \<Rightarrow> string \<Rightarrow> string" where
  "envTrimmed getenv name = TrimSpace (getenv name)"

definition config_validateHTTPSURL :: "string \<Rightarrow> string \<Rightarrow> string + unit" where
  "config_validateHTTPSURL name value =
     (case url_Parse value of
        None \<Rightarrow> Inl (name @ '' must be a valid HTTPS URL'')
      | Some (sch, host) \<Rightarrow>
          if sch \<noteq> ''https'' \<or> host = [] then Inl (name @ '' must be a valid HTTPS URL'') else Inr ())"

fun collect_algorithms :: "string list \<Rightarrow> string list \<Rightarrow> string + string list" where
  "collect_algorithms algorithms [] = Inr algorithms"
| "collect_algorithms algorithms (part # parts) =
     (let algorithm = TrimSpace part in
      if algorithm = [] then Inl ''OMS_JWT_ALLOWED_ALGS must not contain empty values''
      else if EqualFold_ascii algorithm ''none'' \<or> take 2 (ToUpper algorithm) = ''HS''
      then Inl (''OMS_JWT_ALLOWED_ALGS contains unsupported algorithm '' @ go_quote algorithm)
      else if algorithm \<in> set algorithms then collect_algorithms algorithms parts
      else collect_algorithms (algorithms @ [algorithm]) parts)"

definition parseAllowedAlgorithms :: "string \<Rightarrow> string + string list" where
  "parseAllowedAlgorithms value =
     (if TrimSpace value = []
      then Inl (''OMS_JWT_ALLOWED_ALGS is required when OMS_AUTH_MODE='' @ go_quote ModeJWT)
      else collect_algorithms [] (Split CHR '','' value))"

section \<open>The auth configuration\<close>

definition zero_auth_config :: "Mode \<Rightarrow> auth_Config" where
  "zero_auth_config mode =
     \<lparr>Auth_Mode = mode, Auth_Issuer = [], Auth_Audience = [], Auth_JWKSURL = [],
      Auth_OIDCDiscoveryURL = [], Auth_AllowedAlgorithms = [], Auth_SubjectClaim = [],
      Auth_CustomerIDClaim = [], Auth_RoleClaim = [], Auth_RoleCustomerValue = [],
      Auth_RoleAdminValue = [], Auth_RoleSystemValue = [], Auth_HTTPTimeout = 0\<rparr>"

definition read_auth_config :: "getenv \<Rightarrow> Mode \<Rightarrow> auth_Config" where
  "read_auth_config getenv mode =
     \<lparr>Auth_Mode = mode, Auth_Issuer = envTrimmed getenv ''OMS_JWT_ISSUER'',
      Auth_Audience = envTrimmed getenv ''OMS_JWT_AUDIENCE'',
      Auth_JWKSURL = envTrimmed getenv ''OMS_JWT_JWKS_URL'',
      Auth_OIDCDiscoveryURL = envTrimmed getenv ''OMS_OIDC_DISCOVERY_URL'',
      Auth_AllowedAlgorithms = [],
      Auth_SubjectClaim = (let claim = envTrimmed getenv ''OMS_JWT_SUBJECT_CLAIM'' in
                           if claim = [] then ''sub'' else claim),
      Auth_CustomerIDClaim = envTrimmed getenv ''OMS_JWT_CUSTOMER_ID_CLAIM'',
      Auth_RoleClaim = envTrimmed getenv ''OMS_JWT_ROLE_CLAIM'',
      Auth_RoleCustomerValue = envTrimmed getenv ''OMS_JWT_ROLE_CUSTOMER_VALUE'',
      Auth_RoleAdminValue = envTrimmed getenv ''OMS_JWT_ROLE_ADMIN_VALUE'',
      Auth_RoleSystemValue = envTrimmed getenv ''OMS_JWT_ROLE_SYSTEM_VALUE'',
      Auth_HTTPTimeout = 0\<rparr>"

definition required_values :: "auth_Config \<Rightarrow> (string \<times> string) list" where
  "required_values cfg =
     [(''OMS_JWT_ISSUER'', Auth_Issuer cfg), (''OMS_JWT_AUDIENCE'', Auth_Audience cfg),
      (''OMS_JWT_CUSTOMER_ID_CLAIM'', Auth_CustomerIDClaim cfg),
      (''OMS_JWT_ROLE_CLAIM'', Auth_RoleClaim cfg),
      (''OMS_JWT_ROLE_CUSTOMER_VALUE'', Auth_RoleCustomerValue cfg),
      (''OMS_JWT_ROLE_ADMIN_VALUE'', Auth_RoleAdminValue cfg),
      (''OMS_JWT_ROLE_SYSTEM_VALUE'', Auth_RoleSystemValue cfg)]"

definition url_values :: "auth_Config \<Rightarrow> (string \<times> string) list" where
  "url_values cfg =
     [(''OMS_JWT_ISSUER'', Auth_Issuer cfg), (''OMS_JWT_JWKS_URL'', Auth_JWKSURL cfg),
      (''OMS_OIDC_DISCOVERY_URL'', Auth_OIDCDiscoveryURL cfg)]"

text \<open>A loop that checks each pair and returns at the first error.\<close>

fun check_all :: "('a \<Rightarrow> string + unit) \<Rightarrow> 'a list \<Rightarrow> string + unit" where
  "check_all check [] = Inr ()"
| "check_all check (x # xs) = (case check x of Inl e \<Rightarrow> Inl e | Inr _ \<Rightarrow> check_all check xs)"

definition check_required :: "string \<times> string \<Rightarrow> string + unit" where
  "check_required nv =
     (if TrimSpace (snd nv) = []
      then Inl (fst nv @ '' is required when OMS_AUTH_MODE='' @ go_quote ModeJWT) else Inr ())"

definition check_url :: "string \<times> string \<Rightarrow> string + unit" where
  "check_url nv = (if snd nv \<noteq> [] then config_validateHTTPSURL (fst nv) (snd nv) else Inr ())"

definition loadAuthConfig :: "map_order \<Rightarrow> getenv \<Rightarrow> Mode \<Rightarrow> string + auth_Config" where
  "loadAuthConfig iter getenv mode =
     (if mode \<noteq> ModeJWT then Inr (zero_auth_config mode)
      else
        (let cfg = read_auth_config getenv mode in
         case parsePositiveDurationEnv getenv ''OMS_JWT_HTTP_TIMEOUT'' defaultJWTHTTPTimeout of
           Inl e \<Rightarrow> Inl e
         | Inr jwtHTTPTimeout \<Rightarrow>
             (case check_all check_required (iter (required_values cfg)) of
                Inl e \<Rightarrow> Inl e
              | Inr _ \<Rightarrow>
                  if (Auth_JWKSURL cfg = []) = (Auth_OIDCDiscoveryURL cfg = [])
                  then Inl (''exactly one of OMS_JWT_JWKS_URL or OMS_OIDC_DISCOVERY_URL is required when OMS_AUTH_MODE='' @
                            go_quote ModeJWT)
                  else
                    (case check_all check_url (iter (url_values cfg)) of
                       Inl e \<Rightarrow> Inl e
                     | Inr _ \<Rightarrow>
                         if Auth_RoleCustomerValue cfg = Auth_RoleAdminValue cfg \<or>
                            Auth_RoleCustomerValue cfg = Auth_RoleSystemValue cfg \<or>
                            Auth_RoleAdminValue cfg = Auth_RoleSystemValue cfg
                         then Inl ''OMS JWT role values must be distinct''
                         else
                           (case parseAllowedAlgorithms (getenv ''OMS_JWT_ALLOWED_ALGS'') of
                              Inl e \<Rightarrow> Inl e
                            | Inr allowedAlgorithms \<Rightarrow>
                                Inr (cfg\<lparr>Auth_HTTPTimeout := jwtHTTPTimeout,
                                         Auth_AllowedAlgorithms := allowedAlgorithms\<rparr>))))))"

section \<open>The configuration\<close>

definition load_batch_size :: "getenv \<Rightarrow> string + int32" where
  "load_batch_size getenv =
     (let workerBatchSize = getenv ''WORKER_BATCH_SIZE'' in
      if workerBatchSize = [] then Inr defaultWorkerBatchSize
      else
        (case Atoi workerBatchSize of
           None \<Rightarrow> Inl ''WORKER_BATCH_SIZE must be a positive integer''
         | Some parsed \<Rightarrow>
             if parsed < 1 then Inl ''WORKER_BATCH_SIZE must be a positive integer''
             else Inr (word_of_int parsed)))"

definition load_shutdown_timeout :: "getenv \<Rightarrow> int" where
  "load_shutdown_timeout getenv =
     (let shutdownTimeout = getenv ''SHUTDOWN_TIMEOUT'' in
      if shutdownTimeout = [] then defaultShutdownTimeout
      else (case ParseDuration shutdownTimeout of
              None \<Rightarrow> defaultShutdownTimeout | Some parsed \<Rightarrow> parsed))"

definition load_auth_mode :: "getenv \<Rightarrow> string + Mode" where
  "load_auth_mode getenv =
     (let authMode = getenv ''OMS_AUTH_MODE'' in
      if authMode = [] then Inr ModeLocked
      else if authMode = ModeDev then Inr ModeDev
      else if authMode = ModeJWT then Inr ModeJWT
      else Inl (''OMS_AUTH_MODE must be empty, '' @ go_quote ModeDev @ '', or '' @ go_quote ModeJWT))"

definition LoadConfig :: "map_order \<Rightarrow> getenv \<Rightarrow> string + Config" where
  "LoadConfig iter getenv =
     (case parsePositiveDurationEnv getenv ''HTTP_READ_TIMEOUT'' defaultReadTimeout of
        Inl e \<Rightarrow> Inl e
      | Inr readTimeout \<Rightarrow>
     (case parsePositiveDurationEnv getenv ''HTTP_WRITE_TIMEOUT'' defaultWriteTimeout of
        Inl e \<Rightarrow> Inl e
      | Inr writeTimeout \<Rightarrow>
     (case parsePositiveDurationEnv getenv ''HTTP_IDLE_TIMEOUT'' defaultIdleTimeout of
        Inl e \<Rightarrow> Inl e
      | Inr idleTimeout \<Rightarrow>
          if getenv ''DATABASE_URL'' = [] then Inl ''DATABASE_URL is required''
          else
     (case load_batch_size getenv of
        Inl e \<Rightarrow> Inl e
      | Inr batchSize \<Rightarrow>
     (case load_auth_mode getenv of
        Inl e \<Rightarrow> Inl e
      | Inr mode \<Rightarrow>
     (case loadAuthConfig iter getenv mode of
        Inl e \<Rightarrow> Inl e
      | Inr authConfig \<Rightarrow>
          Inr \<lparr>Cfg_HTTPAddr = (if getenv ''HTTP_ADDR'' = [] then defaultHTTPAddr else getenv ''HTTP_ADDR''),
               Cfg_ShutdownTimeout = load_shutdown_timeout getenv, Cfg_ReadTimeout = readTimeout,
               Cfg_WriteTimeout = writeTimeout, Cfg_IdleTimeout = idleTimeout,
               Cfg_DatabaseURL = getenv ''DATABASE_URL'', Cfg_WorkerBatchSize = batchSize,
               Cfg_AuthMode = mode, Cfg_AuthConfig = authConfig\<rparr>))))))"

section \<open>What a loaded configuration satisfies\<close>

lemma check_all_Inr: "check_all check xs = Inr u \<longleftrightarrow> (\<forall>x \<in> set xs. check x = Inr ())"
  by (induction xs) (auto split: sum.splits)

lemma parsePositiveDurationEnv_pos:
  "parsePositiveDurationEnv getenv name d = Inr t \<Longrightarrow> 0 < d \<Longrightarrow> 0 < t"
  by (auto simp: parsePositiveDurationEnv_def Let_def split: if_splits option.splits)

lemma collect_algorithms_ok:
  assumes "collect_algorithms done parts = Inr algs" and "distinct done"
    and "\<And>a. a \<in> set done \<Longrightarrow> a \<noteq> [] \<and> \<not> EqualFold_ascii a ''none'' \<and> take 2 (ToUpper a) \<noteq> ''HS''"
  shows "distinct algs \<and> set algs = set done \<union> TrimSpace ` set parts \<and>
    (\<forall>a \<in> set algs. a \<noteq> [] \<and> \<not> EqualFold_ascii a ''none'' \<and> take 2 (ToUpper a) \<noteq> ''HS'')"
  using assms
proof (induction "done" parts rule: collect_algorithms.induct)
  case (1 algorithms)
  then show ?case by simp
next
  case (2 algorithms part parts)
  let ?a = "TrimSpace part"
  from "2.prems"(1) have a: "?a \<noteq> []" "\<not> EqualFold_ascii ?a ''none''" "take 2 (ToUpper ?a) \<noteq> ''HS''"
    by (auto simp: Let_def split: if_splits)
  show ?case
  proof (cases "?a \<in> set algorithms")
    case True
    with 2 a show ?thesis by (auto simp: Let_def)
  next
    case False
    have "distinct algs \<and> set algs = set (algorithms @ [?a]) \<union> TrimSpace ` set parts \<and>
      (\<forall>a \<in> set algs. a \<noteq> [] \<and> \<not> EqualFold_ascii a ''none'' \<and> take 2 (ToUpper a) \<noteq> ''HS'')"
      using False a "2.prems" by (intro "2.IH"(2)) (auto simp: Let_def)
    then show ?thesis by auto
  qed
qed

text \<open>A JWT configuration that loads is complete, talks HTTPS only, tells the three roles
  apart and admits no symmetric or missing signature.\<close>

definition https_url :: "string \<Rightarrow> bool" where
  "https_url u \<longleftrightarrow> (\<exists>host. url_Parse u = Some (''https'', host) \<and> host \<noteq> [])"

definition asymmetric :: "string \<Rightarrow> bool" where
  "asymmetric a \<longleftrightarrow> a \<noteq> [] \<and> \<not> EqualFold_ascii a ''none'' \<and> take 2 (ToUpper a) \<noteq> ''HS''"

definition jwt_config_ok :: "auth_Config \<Rightarrow> bool" where
  "jwt_config_ok cfg \<longleftrightarrow>
     0 < Auth_HTTPTimeout cfg \<and> https_url (Auth_Issuer cfg) \<and> Auth_Audience cfg \<noteq> [] \<and>
     ((Auth_JWKSURL cfg = [] \<and> https_url (Auth_OIDCDiscoveryURL cfg)) \<or>
      (Auth_OIDCDiscoveryURL cfg = [] \<and> https_url (Auth_JWKSURL cfg))) \<and>
     Auth_SubjectClaim cfg \<noteq> [] \<and> Auth_CustomerIDClaim cfg \<noteq> [] \<and> Auth_RoleClaim cfg \<noteq> [] \<and>
     distinct [Auth_RoleCustomerValue cfg, Auth_RoleAdminValue cfg, Auth_RoleSystemValue cfg, []] \<and>
     Auth_AllowedAlgorithms cfg \<noteq> [] \<and> distinct (Auth_AllowedAlgorithms cfg) \<and>
     list_all asymmetric (Auth_AllowedAlgorithms cfg)"

lemma parseAllowedAlgorithms_ok:
  assumes "parseAllowedAlgorithms value = Inr algs"
  shows "algs \<noteq> [] \<and> distinct algs \<and> list_all asymmetric algs"
proof -
  from assms have "collect_algorithms [] (Split CHR '','' value) = Inr algs"
    by (auto simp: parseAllowedAlgorithms_def split: if_splits)
  from collect_algorithms_ok [OF this] show ?thesis
    by (auto simp: asymmetric_def list_all_iff)
qed

lemma config_validateHTTPSURL_Inr: "config_validateHTTPSURL name u = Inr x \<longleftrightarrow> https_url u"
  by (auto simp: config_validateHTTPSURL_def https_url_def split: option.splits if_splits)

lemma check_url_Inr: "check_url (name, u) = Inr x \<longleftrightarrow> u = [] \<or> https_url u"
  by (auto simp: check_url_def config_validateHTTPSURL_Inr)

lemma check_required_Inr: "check_required (name, v) = Inr x \<longleftrightarrow> TrimSpace v \<noteq> []"
  by (auto simp: check_required_def)

lemma loadAuthConfig_jwt:
  assumes iter: "\<And>xs. set (iter xs) = set xs" and load: "loadAuthConfig iter getenv ModeJWT = Inr cfg"
  shows "jwt_config_ok cfg \<and> Auth_Mode cfg = ModeJWT"
proof -
  let ?cfg = "read_auth_config getenv ModeJWT"
  from load obtain t u v algs where
    t: "parsePositiveDurationEnv getenv ''OMS_JWT_HTTP_TIMEOUT'' defaultJWTHTTPTimeout = Inr t" and
    req: "check_all check_required (iter (required_values ?cfg)) = Inr u" and
    one: "(Auth_JWKSURL ?cfg = []) \<noteq> (Auth_OIDCDiscoveryURL ?cfg = [])" and
    urls: "check_all check_url (iter (url_values ?cfg)) = Inr v" and
    roles: "Auth_RoleCustomerValue ?cfg \<noteq> Auth_RoleAdminValue ?cfg"
      "Auth_RoleCustomerValue ?cfg \<noteq> Auth_RoleSystemValue ?cfg"
      "Auth_RoleAdminValue ?cfg \<noteq> Auth_RoleSystemValue ?cfg" and
    algs: "parseAllowedAlgorithms (getenv ''OMS_JWT_ALLOWED_ALGS'') = Inr algs" and
    cfg: "cfg = ?cfg\<lparr>Auth_HTTPTimeout := t, Auth_AllowedAlgorithms := algs\<rparr>"
    by (auto simp: loadAuthConfig_def Let_def split: sum.splits if_splits)
  have "0 < t" using parsePositiveDurationEnv_pos [OF t] by (simp add: config_defaults)
  moreover have "Auth_Issuer ?cfg \<noteq> []" "Auth_Audience ?cfg \<noteq> []" "Auth_CustomerIDClaim ?cfg \<noteq> []"
    "Auth_RoleClaim ?cfg \<noteq> []" "Auth_RoleCustomerValue ?cfg \<noteq> []" "Auth_RoleAdminValue ?cfg \<noteq> []"
    "Auth_RoleSystemValue ?cfg \<noteq> []"
    using req by (auto simp: check_all_Inr iter required_values_def check_required_Inr)
  moreover have "Auth_Issuer ?cfg = [] \<or> https_url (Auth_Issuer ?cfg)"
    "Auth_JWKSURL ?cfg = [] \<or> https_url (Auth_JWKSURL ?cfg)"
    "Auth_OIDCDiscoveryURL ?cfg = [] \<or> https_url (Auth_OIDCDiscoveryURL ?cfg)"
    using urls by (auto simp: check_all_Inr iter url_values_def check_url_Inr)
  moreover have "Auth_SubjectClaim ?cfg \<noteq> []" "Auth_Mode ?cfg = ModeJWT"
    by (simp_all add: read_auth_config_def Let_def)
  ultimately show ?thesis using one roles parseAllowedAlgorithms_ok [OF algs] cfg
    by (auto simp: jwt_config_ok_def)
qed

end
