(* ===== verification/Demo.thy ===== *)
theory Demo
  imports PgStore
begin

text \<open>
  A concrete session for the witnesses: a calm environment (no faults, no other sessions,
  no locks, distinct UUIDs), one customer, one order of two items.
\<close>

text \<open>
  UUIDs 100, 101, ... for the calls of a demonstration; the later ones stay away from them
  and repeat only after \<open>2 ^ 64\<close> draws.
\<close>

definition demo_draw :: "nat \<Rightarrow> uuid" where
  "demo_draw n = (if n < 50 then of_nat (100 + n) else of_nat (1000 + n mod 2 ^ 64))"

definition calm_env :: env where
  "calm_env =
     \<lparr>env_fault = (\<lambda>_. NoFault), env_now = (\<lambda>n. 1000 + int n), env_uuid = demo_draw,
      env_locked = (\<lambda>_ _. False), env_others = (\<lambda>_ d. d)\<rparr>"

text \<open>A stand-in for \<open>uuid.Parse\<close>: accepts two product names.\<close>

definition demo_parse :: "string \<Rightarrow> uuid option" where
  "demo_parse s = (if s = ''p1'' then Some 11 else if s = ''p2'' then Some 12 else None)"

definition demo_items :: "CreateOrderItemRequest list" where
  "demo_items =
     [\<lparr>Item_ProductID = ''p1'', Item_SKU = ''coffee'', Item_Quantity = 2, Item_UnitPriceCents = 1250\<rparr>,
      \<lparr>Item_ProductID = ''p2'', Item_SKU = ''mug'', Item_Quantity = 1, Item_UnitPriceCents = 900\<rparr>]"

definition demo_input :: CreateOrderInput where
  "demo_input =
     \<lparr>CreateIn_CustomerID = 7, CreateIn_IdempotencyKey = ''checkout'', CreateIn_Currency = ''USD'',
      CreateIn_Items = demo_items, CreateIn_ActorID = Some 7, CreateIn_Reason = None,
      CreateIn_IPAddress = None\<rparr>"

end
