(* ===== verification/System.thy ===== *)
theory System
  imports PgStore Demo
begin

text \<open>
  Runs of the order service: any number of calls of its methods, by any callers, in any
  order, against an environment that may inject driver faults, lose commit answers, lock
  rows and let other sessions of the same program commit in between.
\<close>

section \<open>Calls\<close>

datatype service_call =
    CallCreateOrder CreateOrderInput
  | CallGetOrder uuid uuid
  | CallListOrderDetails ListOrdersInput
  | CallCancelOrderDetails CancelOrderInput
  | CallUpdateOrderStatusDetails UpdateOrderStatusInput
  | CallUpdateOrderStatusByTarget uuid OrderStatus string "uuid option" "string option" "string option"
  | CallProcessPendingOrdersBatch ProcessPendingOrdersBatchInput

text \<open>The world a call leaves behind, whatever it returns.\<close>

fun perform :: "(string \<Rightarrow> uuid option) \<Rightarrow> service_call \<Rightarrow> world \<Rightarrow> world" where
  "perform uuid_Parse (CallCreateOrder input) w =
     snd (Service_CreateOrder uuid_Parse pg_service input w)"
| "perform uuid_Parse (CallGetOrder oid cid) w = snd (Service_GetOrder pg_service oid cid w)"
| "perform uuid_Parse (CallListOrderDetails input) w =
     snd (Service_ListOrderDetails pg_service input w)"
| "perform uuid_Parse (CallCancelOrderDetails input) w =
     snd (Service_CancelOrderDetails pg_service input w)"
| "perform uuid_Parse (CallUpdateOrderStatusDetails input) w =
     snd (Service_UpdateOrderStatusDetails pg_service input w)"
| "perform uuid_Parse (CallUpdateOrderStatusByTarget oid st actor aid reason ip) w =
     snd (Service_UpdateOrderStatusByTarget pg_service oid st actor aid reason ip w)"
| "perform uuid_Parse (CallProcessPendingOrdersBatch input) w =
     snd (Service_ProcessPendingOrdersBatch pg_service input w)"

definition run_calls :: "(string \<Rightarrow> uuid option) \<Rightarrow> service_call list \<Rightarrow> world \<Rightarrow> world" where
  "run_calls uuid_Parse calls w = fold (perform uuid_Parse) calls w"

definition start :: "env \<Rightarrow> world" where
  "start E = \<lparr>w_db = empty_tables, w_tick = 0, w_env = E\<rparr>"

section \<open>Every run follows the specification\<close>

lemmas service_guarantees =
  pg.CreateOrder_guarantee pg.GetOrder_guarantee pg.ListOrderDetails_guarantee
  pg.CancelOrderDetails_guarantee pg.UpdateOrderStatusDetails_guarantee
  pg.UpdateOrderStatusByTarget_guarantee pg.ProcessPendingOrdersBatch_guarantee

lemma guarantees_snd: "guarantees m \<Longrightarrow> good w \<Longrightarrow> leads w (snd (m w))"
  by (simp add: guaranteesE_def)

lemma perform_leads: "good w \<Longrightarrow> leads w (perform uuid_Parse c w)"
  by (cases c) (simp_all add: guarantees_snd service_guarantees)

lemma run_calls_leads: "good w \<Longrightarrow> leads w (run_calls uuid_Parse calls w)"
proof (induction calls arbitrary: w)
  case Nil
  show ?case by (simp add: run_calls_def)
next
  case (Cons c calls)
  have step: "leads w (perform uuid_Parse c w)" using Cons.prems by (rule perform_leads)
  then have "leads (perform uuid_Parse c w) (run_calls uuid_Parse calls (perform uuid_Parse c w))"
    using Cons.prems by (blast intro: Cons.IH leads_good)
  with step show ?case by (simp add: run_calls_def leads_trans)
qed

lemma start_good: "rely E \<Longrightarrow> good (start E)"
  by (simp add: good_def start_def)

lemma run_start_good: "rely E \<Longrightarrow> good (run_calls uuid_Parse calls (start E))"
  by (blast intro: start_good run_calls_leads leads_good)

lemma run_start_ok: "rely E \<Longrightarrow> tables_ok (w_db (run_calls uuid_Parse calls (start E)))"
  using run_start_good by (simp add: good_def)

lemma run_calls_append: "run_calls p (xs @ ys) w = run_calls p ys (run_calls p xs w)"
  by (simp add: run_calls_def)

lemma run_start_extends:
  "rely E \<Longrightarrow>
     extends (w_db (run_calls p xs (start E))) (w_db (run_calls p (xs @ ys) (start E)))"
  unfolding run_calls_append by (intro leads_extends run_start_good run_calls_leads)

section \<open>A concrete run\<close>

lemma rely_calm [simp]: "rely calm_env"
  by (simp add: rely_def calm_env_def)

definition demo_calls :: "service_call list" where
  "demo_calls =
     [CallCreateOrder demo_input,
      CallProcessPendingOrdersBatch
        \<lparr>BatchIn_Limit = 10, BatchIn_ActorID = None, BatchIn_Reason = None, BatchIn_IPAddress = None\<rparr>,
      CallUpdateOrderStatusByTarget 102 ''SHIPPED'' ''ADMIN'' (Some 9) None None]"

definition demo_run :: world where
  "demo_run = run_calls demo_parse demo_calls (start calm_env)"

definition demo_row :: orders_row where
  "demo_row =
     \<lparr>o_id = 102, o_customer_id = 7, o_status = ''SHIPPED'', o_idempotency_key = ''checkout'',
      o_total_cents = 3400, o_currency = ''USD'', o_created_at = 1003000, o_updated_at = 1015000\<rparr>"

lemma demo_run_orders: "orders (w_db demo_run) = [demo_row]"
  by code_simp

lemma demo_row_placed [simp]: "demo_row \<in> set (orders (w_db demo_run))"
  by (simp add: demo_run_orders)

text \<open>A second run: the order is cancelled by its owner, then a worker batch and an
  administrator try to move it on.\<close>

definition cancel_calls :: "service_call list" where
  "cancel_calls =
     [CallCreateOrder demo_input,
      CallCancelOrderDetails
        \<lparr>CancelIn_OrderID = 102, CancelIn_CustomerID = 7, CancelIn_ActorID = Some 7,
         CancelIn_Reason = None, CancelIn_IPAddress = None\<rparr>]"

definition late_calls :: "service_call list" where
  "late_calls =
     [CallProcessPendingOrdersBatch
        \<lparr>BatchIn_Limit = 10, BatchIn_ActorID = None, BatchIn_Reason = None, BatchIn_IPAddress = None\<rparr>,
      CallUpdateOrderStatusByTarget 102 ''SHIPPED'' ''ADMIN'' (Some 9) None None]"

definition cancelled_run :: world where
  "cancelled_run = run_calls demo_parse cancel_calls (start calm_env)"

definition late_run :: world where
  "late_run = run_calls demo_parse (cancel_calls @ late_calls) (start calm_env)"

definition cancelled_row :: orders_row where
  "cancelled_row =
     \<lparr>o_id = 102, o_customer_id = 7, o_status = ''CANCELLED'', o_idempotency_key = ''checkout'',
      o_total_cents = 3400, o_currency = ''USD'', o_created_at = 1003000, o_updated_at = 1011000\<rparr>"

lemma cancelled_run_orders: "orders (w_db cancelled_run) = [cancelled_row]"
  by code_simp

lemma late_run_orders: "orders (w_db late_run) = [cancelled_row]"
  by code_simp

lemma cancelled_row_placed [simp]:
  "cancelled_row \<in> set (orders (w_db cancelled_run))" "cancelled_row \<in> set (orders (w_db late_run))"
  by (simp_all add: cancelled_run_orders late_run_orders)

section \<open>What every run satisfies\<close>

text \<open>The rows of a final status have no successor.\<close>

lemma terminal_no_move:
  "s = StatusDelivered \<or> s = StatusCancelled \<Longrightarrow> \<not> CanTransition s t"
  by (auto simp: CanTransition_iff)

lemma terminal_stays:
  "CanTransition\<^sup>*\<^sup>* s t \<Longrightarrow> s = StatusDelivered \<or> s = StatusCancelled \<Longrightarrow> t = s"
  by (erule converse_rtranclpE) (simp, simp add: terminal_no_move)

lemma extends_history: "extends d d' \<Longrightarrow> \<exists>es. history d' oid = history d oid @ es"
  by (auto simp: extends_def history_def prefix_def)

lemma replay_terminal_stuck:
  "replay (Some s) es = Some c \<Longrightarrow> s = StatusDelivered \<or> s = StatusCancelled \<Longrightarrow> es = []"
  by (cases es) (auto simp: legal_move_def CanTransition_iff split: option.splits if_splits)

lemma terminal_row_kept:
  assumes ok: "tables_ok d" "tables_ok d'" and ext: "extends d d'"
    and r: "r \<in> set (orders d)" "o_status r = StatusDelivered \<or> o_status r = StatusCancelled"
    and r': "r' \<in> set (orders d')" "o_id r' = o_id r"
  shows "o_status r' = o_status r" and "history d' (o_id r) = history d (o_id r)"
proof -
  from ext r(1) obtain x where "x \<in> set (orders d')" "same_order r x"
      "CanTransition\<^sup>*\<^sup>* (o_status r) (o_status x)" by (auto simp: extends_def)
  moreover then have "x = r'"
    using ok(2) r' by (auto simp: same_order_def dest: tables_ok_unique)
  ultimately show s: "o_status r' = o_status r" using r(2) by (auto dest: terminal_stays)
  from extends_history [OF ext] obtain es where es: "history d' (o_id r) = history d (o_id r) @ es"
    by blast
  have "replay None (history d (o_id r)) = Some (Some (o_status r))"
    and "replay None (history d' (o_id r')) = Some (Some (o_status r'))"
    using ok r(1) r'(1) by (auto simp: tables_ok_def order_ok_def)
  with es r'(2) have "replay (Some (o_status r)) es = Some (Some (o_status r'))"
    by (simp add: replay_append)
  with r(2) have "es = []" by (blast dest: replay_terminal_stuck)
  with es show "history d' (o_id r) = history d (o_id r)" by simp
qed

end
