(* ===== verification/App.thy ===== *)
theory App
  imports HandlerLaws Worker Config System
begin

text \<open>
  The whole process: the routes of \<open>RegisterRoutes\<close> (\<open>internal/orders/handler.go\<close>), the
  server of \<open>internal/platform/httpserver.go\<close>, and \<open>cmd/api/main.go\<close>, which starts the
  components, waits for an error or a signal, and stops them.  The chi router is a
  third-party package: which registered route it picks for a request, or how it refuses
  it, is an argument.
\<close>

section \<open>Routing\<close>

datatype routing = Routed nat "string \<rightharpoonup> string" | NotRouted http_response

type_synonym chi = "(string \<times> string) list \<Rightarrow> http_request \<Rightarrow> routing"

type_synonym 's routes = "(string \<times> string \<times> 's handler) list"

definition chi_serve :: "chi \<Rightarrow> http_response \<Rightarrow> 's routes \<Rightarrow> 's handler" where
  "chi_serve chi notFound routes r s =
     (case chi (map (\<lambda>(m, p, _). (m, p)) routes) r of
        NotRouted resp \<Rightarrow> (resp, s)
      | Routed i params \<Rightarrow>
          if i < length routes then snd (snd (routes ! i)) (r\<lparr>req_url_params := params\<rparr>) s
          else (notFound, s))"

definition RegisterRoutes :: "packages \<Rightarrow> 's Handler \<Rightarrow> 's routes" where
  "RegisterRoutes pkg h =
     [(''POST'', ''/'', Handler_CreateOrder pkg h),
      (''GET'', ''/'', Handler_ListOrders pkg h),
      (''GET'', ''/{order_id}'', Handler_GetOrder pkg h),
      (''POST'', ''/{order_id}/cancel'', Handler_CancelOrder pkg h),
      (''PATCH'', ''/{order_id}/status'',
         RequireRole [RoleAdmin, RoleSystem] (Handler_UpdateOrderStatus pkg h))]"

definition not_found_page :: http_response where
  "not_found_page =
     \<lparr>resp_status = StatusNotFound, resp_content_type = ''text/plain; charset=utf-8'',
      resp_body = TextBody ''404 page not found''\<rparr>"

definition healthz :: "'s handler" where
  "healthz r s =
     (\<lparr>resp_status = StatusOK, resp_content_type = ''text/plain; charset=utf-8'',
       resp_body = TextBody ''ok''\<rparr>, s)"

text \<open>\<open>r.Use\<close> puts the identity middleware before everything of the mounted router, its
  refusals included.\<close>

definition orders_router :: "chi \<Rightarrow> packages \<Rightarrow> 's Handler \<Rightarrow> 's middleware \<Rightarrow> 's handler" where
  "orders_router chi pkg h identityMiddleware =
     identityMiddleware (chi_serve chi not_found_page (RegisterRoutes pkg h))"

definition root_router :: "chi \<Rightarrow> packages \<Rightarrow> 's Handler \<Rightarrow> 's middleware \<Rightarrow> 's handler" where
  "root_router chi pkg h identityMiddleware =
     chi_serve chi not_found_page
       [(''GET'', ''/healthz'', healthz),
        (''*'', ''/api/v1/orders'', orders_router chi pkg h identityMiddleware)]"

record 's http_server =
  srv_Addr :: string
  srv_Handler :: "'s handler"
  srv_ReadTimeout :: int
  srv_WriteTimeout :: int
  srv_ReadHeaderTimeout :: int
  srv_IdleTimeout :: int

definition NewHTTPServer :: "chi \<Rightarrow> packages \<Rightarrow> Config \<Rightarrow> 's Handler \<Rightarrow> 's middleware \<Rightarrow> 's http_server" where
  "NewHTTPServer chi pkg cfg orderHandler identityMiddleware =
     \<lparr>srv_Addr = Cfg_HTTPAddr cfg,
      srv_Handler = root_router chi pkg orderHandler identityMiddleware,
      srv_ReadTimeout = Cfg_ReadTimeout cfg, srv_WriteTimeout = Cfg_WriteTimeout cfg,
      srv_ReadHeaderTimeout = 5 * time_Second, srv_IdleTimeout = Cfg_IdleTimeout cfg\<rparr>"

section \<open>Starting\<close>

text \<open>What surrounds the process at its start: environment variables, the HTTP client, the
  token verifier, the pool constructor and the database ping, each failing with an error
  text or not.\<close>

record 's surroundings =
  sur_getenv :: getenv
  sur_map_order :: map_order
  sur_client :: http_client
  sur_newVerifier :: "string \<Rightarrow> 's \<Rightarrow> string \<Rightarrow> string + IDToken"
  sur_newPool :: "string \<Rightarrow> string + unit"
  sur_Ping :: "string + unit"

definition pingDatabase :: "'s surroundings \<Rightarrow> string + unit" where
  "pingDatabase sur = sur_Ping sur"

text \<open>The components \<open>main\<close> runs, or the message it logs before it returns.\<close>

record 's components =
  co_server :: "'s http_server"
  co_worker :: "'s Worker"
  co_config :: Config

definition start_components ::
    "chi \<Rightarrow> packages \<Rightarrow> world surroundings \<Rightarrow> string + world components" where
  "start_components chi pkg sur =
     (case LoadConfig (sur_map_order sur) (sur_getenv sur) of
        Inl e \<Rightarrow> Inl (''load config failed: '' @ e)
      | Inr cfg \<Rightarrow>
          (case NewIdentityMiddleware (pkg_uuid_Parse pkg) (sur_newVerifier sur) (sur_client sur)
                  (Cfg_AuthConfig cfg) of
             Inl e \<Rightarrow> Inl (''initialize auth middleware failed: '' @ e)
           | Inr identityMiddleware \<Rightarrow>
               (case sur_newPool sur (Cfg_DatabaseURL cfg) of
                  Inl e \<Rightarrow> Inl (''create database pool failed: '' @ e)
                | Inr _ \<Rightarrow>
                    (case pingDatabase sur of
                       Inl e \<Rightarrow> Inl (''connect database failed: '' @ e)
                     | Inr _ \<Rightarrow>
                         (let service = NewService pgRepository;
                              orderHandler = NewHandler (Some (service_methods (pkg_uuid_Parse pkg) service))
                          in Inr \<lparr>co_server = NewHTTPServer chi pkg cfg orderHandler identityMiddleware,
                                  co_worker = NewWorker (Some (batch_methods service)) (Cfg_WorkerBatchSize cfg),
                                  co_config = cfg\<rparr>)))))"

section \<open>Running and stopping\<close>

text \<open>Where \<open>main\<close> is: in its \<open>select\<close>, before \<open>cancel()\<close>, in \<open>server.Shutdown\<close>, in
  \<open>wg.Wait\<close>, returned after everything stopped, or returned because the shutdown failed.
  \<open>pr_serving\<close>: the server accepts requests; \<open>pr_inflight\<close>: those accepted whose handlers
  have not returned.\<close>

datatype main_phase = MainSelecting | MainCancelling | MainShutdown | MainJoining | ExitedClean | ExitedEarly

record 's process =
  pr_main :: main_phase
  pr_serving :: bool
  pr_inflight :: nat
  pr_errors :: "string list"
  pr_signal :: bool
  pr_worker :: "'s worker_state"

text \<open>The worker's goroutine reports an error of \<open>Run\<close> and is done at once.\<close>

definition process_start :: "'s Worker \<Rightarrow> 's \<Rightarrow> 's process" where
  "process_start wk s =
     (case Run_error wk of
        None \<Rightarrow> \<lparr>pr_main = MainSelecting, pr_serving = True, pr_inflight = 0, pr_errors = [], pr_signal = False,
                 pr_worker = worker_start s\<rparr>
      | Some e \<Rightarrow> \<lparr>pr_main = MainSelecting, pr_serving = True, pr_inflight = 0, pr_errors = [e], pr_signal = False,
                   pr_worker = (worker_start s)\<lparr>wk_phase := Returned\<rparr>\<rparr>)"

text \<open>What \<open>main\<close> and the goroutines it waits for do by themselves: the worker's own steps, a
  handler that answers its request, \<open>main\<close> through its \<open>select\<close>, \<open>cancel()\<close>, and the shutdown,
  which closes the listeners, waits for the requests in flight, and is followed by the join.\<close>

inductive process_own ::
    "'s handler \<Rightarrow> 's workerService \<Rightarrow> int32 \<Rightarrow> 's process \<Rightarrow> 's process \<Rightarrow> bool"
  for h svc n where
  worker_moves: "worker_own svc n (pr_worker p) w \<Longrightarrow> process_own h svc n p (p\<lparr>pr_worker := w\<rparr>)"
| request: "0 < pr_inflight p \<Longrightarrow>
    process_own h svc n p (p\<lparr>pr_inflight := pr_inflight p - 1,
      pr_worker := (pr_worker p)\<lparr>wk_store := snd (h r (wk_store (pr_worker p)))\<rparr>\<rparr>)"
| main_error: "pr_main p = MainSelecting \<Longrightarrow> pr_errors p = e # es \<Longrightarrow>
    process_own h svc n p (p\<lparr>pr_main := MainCancelling, pr_errors := es\<rparr>)"
| main_signal: "pr_main p = MainSelecting \<Longrightarrow> pr_signal p \<Longrightarrow>
    process_own h svc n p (p\<lparr>pr_main := MainCancelling\<rparr>)"
| main_cancel: "pr_main p = MainCancelling \<Longrightarrow>
    process_own h svc n p (p\<lparr>pr_main := MainShutdown,
                             pr_worker := (pr_worker p)\<lparr>wk_ctxDone := True\<rparr>\<rparr>)"
| close_listeners: "pr_main p = MainShutdown \<Longrightarrow> pr_serving p \<Longrightarrow>
    process_own h svc n p (p\<lparr>pr_serving := False\<rparr>)"
| shutdown_ok: "pr_main p = MainShutdown \<Longrightarrow> \<not> pr_serving p \<Longrightarrow> pr_inflight p = 0 \<Longrightarrow>
    process_own h svc n p (p\<lparr>pr_main := MainJoining\<rparr>)"
| joined: "pr_main p = MainJoining \<Longrightarrow> \<not> pr_serving p \<Longrightarrow> wk_phase (pr_worker p) = Returned \<Longrightarrow>
    process_own h svc n p (p\<lparr>pr_main := ExitedClean\<rparr>)"

text \<open>New work: ticks, and requests the listening server accepts.\<close>

inductive process_arrival :: "'s process \<Rightarrow> 's process \<Rightarrow> bool" where
  ticks: "worker_tick (pr_worker p) w \<Longrightarrow> process_arrival p (p\<lparr>pr_worker := w\<rparr>)"
| accept: "pr_serving p \<Longrightarrow> process_arrival p (p\<lparr>pr_inflight := pr_inflight p + 1\<rparr>)"

text \<open>What may happen to the process: a signal, which cancels the root context and with it the
  context of the worker; a server that fails, while requests it has accepted go on; a
  shutdown whose time runs out.\<close>

inductive process_event :: "'s process \<Rightarrow> 's process \<Rightarrow> bool" where
  signal: "process_event p (p\<lparr>pr_signal := True, pr_worker := (pr_worker p)\<lparr>wk_ctxDone := True\<rparr>\<rparr>)"
| server_fails: "pr_serving p \<Longrightarrow> process_event p (p\<lparr>pr_serving := False, pr_errors := pr_errors p @ [e]\<rparr>)"
| shutdown_fails: "pr_main p = MainShutdown \<Longrightarrow> process_event p (p\<lparr>pr_main := ExitedEarly\<rparr>)"

definition process_step ::
    "'s handler \<Rightarrow> 's workerService \<Rightarrow> int32 \<Rightarrow> 's process \<Rightarrow> 's process \<Rightarrow> bool" where
  "process_step h svc n p q \<longleftrightarrow> process_own h svc n p q \<or> process_arrival p q \<or> process_event p q"

inductive_cases process_ownE: "process_own h svc n p q"
inductive_cases process_arrivalE: "process_arrival p q"
inductive_cases process_eventE: "process_event p q"

section \<open>Every request is authenticated before it reaches a handler\<close>

text \<open>A request to the order routes is answered by the identity middleware, by the router, or
  by one handler run with the identity the middleware established; what a handler needs of
  its caller it finds in the context.\<close>

context authenticator
begin

lemma orders_router_refuses:
  "authenticate s r = None \<Longrightarrow> orders_router chi pkg h mw r s = (unauthorized, s)"
  by (simp add: orders_router_def refused)

lemma orders_router_admits:
  "authenticate s r = Some i \<Longrightarrow>
     orders_router chi pkg h mw r s =
     chi_serve chi not_found_page (RegisterRoutes pkg h) (WithIdentity r i) s"
  by (simp add: orders_router_def admitted)

end

lemma context_simps [simp]:
  "IdentityFromContext (WithIdentity r i) = Some i"
  "IdentityFromContext (r\<lparr>req_url_params := params\<rparr>) = IdentityFromContext r"
  "CustomerIDFromContext (r\<lparr>req_url_params := params\<rparr>) = CustomerIDFromContext r"
  by (simp_all add: IdentityFromContext_def WithIdentity_def CustomerIDFromContext_def)

lemma RegisterRoutes_nth:
  "i < length (RegisterRoutes pkg h) \<Longrightarrow>
     snd (snd (RegisterRoutes pkg h ! i)) \<in>
       {Handler_CreateOrder pkg h, Handler_ListOrders pkg h, Handler_GetOrder pkg h,
        Handler_CancelOrder pkg h,
        RequireRole [RoleAdmin, RoleSystem] (Handler_UpdateOrderStatus pkg h)}"
  by (auto simp: RegisterRoutes_def less_Suc_eq numeral_eq_Suc)

text \<open>The router runs a registered handler, with URL parameters, or changes nothing.\<close>

lemma chi_serve_cases:
  obtains (refused) resp where "chi_serve chi notFound routes r s = (resp, s)"
      and "resp = notFound \<or> chi (map (\<lambda>(m, p, _). (m, p)) routes) r = NotRouted resp"
    | (served) i params where "i < length routes"
      and "chi_serve chi notFound routes r s = snd (snd (routes ! i)) (r\<lparr>req_url_params := params\<rparr>) s"
proof (cases "chi (map (\<lambda>(m, p, _). (m, p)) routes) r")
  case (Routed i params)
  show ?thesis
  proof (cases "i < length routes")
    case True
    with Routed show ?thesis by (intro served) (simp_all add: chi_serve_def)
  next
    case False
    with Routed show ?thesis by (intro refused) (simp_all add: chi_serve_def)
  qed
next
  case (NotRouted resp)
  then show ?thesis by (intro refused [of resp]) (auto simp: chi_serve_def)
qed

context order_api
begin

lemma RequireRole_grows:
  "ok s \<Longrightarrow> (\<And>r. grows s (snd (h r s))) \<Longrightarrow> grows s (snd (RequireRole roles h r s))"
  by (auto simp: RequireRole_def split: option.splits)

lemma routes_grow:
  assumes "ok s" and "h_service h = Some svc"
  shows "grows s (snd (chi_serve chi nf (RegisterRoutes pkg h) r s))"
proof (cases rule: chi_serve_cases [of chi nf "RegisterRoutes pkg h" r s])
  case (refused resp)
  then show ?thesis by simp
next
  case (served i params)
  have "grows s (snd (RequireRole roles (Handler_UpdateOrderStatus pkg h) r' s))" for roles r'
    using assms by (intro RequireRole_grows handlers_grow)
  with RegisterRoutes_nth [OF served(1)] served(2) show ?thesis
    using handlers_grow [OF assms] by auto
qed

lemma server_grows:
  assumes "ok s" and "h_service h = Some svc" and auth: "authenticator mw authenticate"
  shows "grows s (snd (root_router chi pkg h mw r s))"
proof -
  have orders: "grows s (snd (orders_router chi pkg h mw r s))" for r
    using auth routes_grow [OF assms(1,2)]
    by (cases "authenticate s r")
      (simp_all add: authenticator.orders_router_refuses authenticator.orders_router_admits)
  show ?thesis
  proof (cases rule: chi_serve_cases [of chi not_found_page
        "[(''GET'', ''/healthz'', healthz), (''*'', ''/api/v1/orders'', orders_router chi pkg h mw)]" r s])
    case (refused resp)
    then show ?thesis by (simp add: root_router_def)
  next
    case (served i params)
    then show ?thesis using orders by (auto simp: root_router_def less_Suc_eq healthz_def)
  qed
qed

end

section \<open>Stopping\<close>

definition process_inv :: "'s process \<Rightarrow> bool" where
  "process_inv p \<longleftrightarrow>
     worker_inv (pr_worker p) \<and>
     (pr_main p \<in> {MainShutdown, MainJoining, ExitedClean, ExitedEarly} \<longrightarrow> wk_ctxDone (pr_worker p)) \<and>
     (pr_main p \<in> {MainJoining, ExitedClean} \<longrightarrow> \<not> pr_serving p \<and> pr_inflight p = 0) \<and>
     (pr_main p = ExitedClean \<longrightarrow> wk_phase (pr_worker p) = Returned)"

lemma worker_inv_ctx: "worker_inv (s\<lparr>wk_ctxDone := b\<rparr>) = worker_inv s"
  "worker_inv (s\<lparr>wk_store := d\<rparr>) = worker_inv s"
  by (simp_all add: worker_inv_def)

lemmas worker_own_keeps = worker_step_keeps [unfolded worker_step_def, OF disjI2]
lemmas worker_tick_keeps = worker_step_keeps [unfolded worker_step_def, OF disjI1]

lemma process_own_inv: "process_own h svc n p q \<Longrightarrow> process_inv p \<Longrightarrow> process_inv q"
  by (erule process_ownE) (auto simp: process_inv_def worker_inv_ctx worker_own_keeps intro: worker_own_inv)

lemma process_arrival_inv: "process_arrival p q \<Longrightarrow> process_inv p \<Longrightarrow> process_inv q"
  by (erule process_arrivalE)
    (auto simp: process_inv_def worker_tick_keeps intro: worker_tick_inv)

lemma process_event_inv: "process_event p q \<Longrightarrow> process_inv p \<Longrightarrow> process_inv q"
  by (erule process_eventE) (auto simp: process_inv_def worker_inv_ctx)

lemma process_step_inv: "process_step h svc n p q \<Longrightarrow> process_inv p \<Longrightarrow> process_inv q"
  by (auto simp: process_step_def intro: process_own_inv process_arrival_inv process_event_inv)

interpretation process: inductive_invariant "process_step h svc n" process_inv for h svc n
  by unfold_locales (rule process_step_inv)

lemma process_inv_start [simp]: "process_inv (process_start wk s)"
  by (auto simp: process_start_def process_inv_def worker_inv_def worker_start_def split: option.splits)

text \<open>A process that has been asked to stop, by a signal or by a component that reported an
  error, and what it has left to do.\<close>

definition asked_to_stop :: "'s process \<Rightarrow> bool" where
  "asked_to_stop p \<longleftrightarrow> pr_signal p \<or> pr_errors p \<noteq> [] \<or> pr_main p \<noteq> MainSelecting"

fun main_work :: "main_phase \<Rightarrow> nat" where
  "main_work MainSelecting = 4" | "main_work MainCancelling = 3" | "main_work MainShutdown = 2"
| "main_work MainJoining = 1" | "main_work ExitedClean = 0" | "main_work ExitedEarly = 0"

definition process_work :: "'s process \<Rightarrow> nat" where
  "process_work p =
     work_left (pr_worker p) + pr_inflight p + main_work (pr_main p) + (if pr_serving p then 1 else 0)"

definition exited :: "'s process \<Rightarrow> bool" where
  "exited p \<longleftrightarrow> pr_main p = ExitedClean \<or> pr_main p = ExitedEarly"

lemma work_left_ctx [simp]: "work_left (s\<lparr>wk_ctxDone := b\<rparr>) = work_left s"
  "work_left (s\<lparr>wk_store := d\<rparr>) = work_left s"
  by (simp_all add: work_left_def)

lemma stopping_moves:
  assumes inv: "process_inv p" and asked: "asked_to_stop p" and "\<not> exited p"
  shows "\<exists>q. process_own h svc n p q"
proof (cases "pr_main p")
  case MainSelecting
  with asked show ?thesis
    by (cases "pr_errors p") (auto simp: asked_to_stop_def intro: main_signal main_error)
next
  case MainCancelling
  then show ?thesis by (blast intro: main_cancel)
next
  case MainShutdown
  then show ?thesis by (cases "pr_serving p"; cases "pr_inflight p = 0")
      (auto intro: close_listeners shutdown_ok request)
next
  case MainJoining
  show ?thesis
  proof (cases "wk_phase (pr_worker p) = Returned")
    case True
    with MainJoining inv show ?thesis by (auto simp: process_inv_def intro: joined)
  next
    case False
    have "told (pr_worker p)" using inv MainJoining by (simp add: process_inv_def told_def)
    from told_moves [OF this False] show ?thesis by (blast intro: worker_moves)
  qed
qed (use assms(3) in \<open>simp_all add: exited_def\<close>)

interpretation stopping_process: stopping_system "process_own h svc n" process_arrival process_event
    "\<lambda>p. process_inv p \<and> asked_to_stop p" process_work 4 exited for h svc n
proof
  fix p q :: "'a process"
  assume p: "process_inv p \<and> asked_to_stop p"
  show "process_own h svc n p q \<Longrightarrow> (process_inv q \<and> asked_to_stop q) \<and> process_work q < process_work p"
    using p process_own_inv [of h svc n p q]
    by (auto simp: asked_to_stop_def process_work_def dest!: worker_own_work elim!: process_ownE)
  show "process_arrival p q \<Longrightarrow> (process_inv q \<and> asked_to_stop q) \<and> process_work q \<le> process_work p + 4"
    using p process_arrival_inv [of p q]
    by (auto simp: asked_to_stop_def process_work_def dest!: worker_tick_work elim!: process_arrivalE)
  show "process_event p q \<Longrightarrow> (process_inv q \<and> asked_to_stop q) \<and> process_work q \<le> process_work p"
    using p process_event_inv [of p q]
    by (auto simp: asked_to_stop_def process_work_def elim!: process_eventE)
qed (blast intro: stopping_moves)

end
