(* ===== verification/AuthLaws.thy ===== *)
theory AuthLaws
  imports JWT
begin

text \<open>
  What authentication guarantees: every configured mode yields a middleware that meets the
  \<open>authenticator\<close> contract, roles in a token are unambiguous, an identity taken from a token
  carries no more than the token says, and metadata responses are bounded.
\<close>

section \<open>Every mode is an authenticator\<close>

lemma newJWTIdentityMiddleware_Inr:
  assumes "newJWTIdentityMiddleware up nv client cfg = Inr mw"
  obtains url where "mw = jwt_middleware up (nv url) cfg" and "validateHTTPSURL url = Inr ()"
    and "0 < Auth_HTTPTimeout cfg"
  using assms
  by (auto simp: newJWTIdentityMiddleware_def Let_def split: if_splits sum.splits)

lemma newIdentityMiddleware_cases:
  assumes "newIdentityMiddleware up nv client cfg = Inr mw"
  obtains (locked) "Auth_Mode cfg = ModeLocked" and "mw = IdentityMiddleware up ModeLocked"
    | (dev) "Auth_Mode cfg = ModeDev" and "mw = IdentityMiddleware up ModeDev"
    | (jwt) url where "Auth_Mode cfg = ModeJWT" and "mw = jwt_middleware up (nv url) cfg"
        and "validateHTTPSURL url = Inr ()"
proof -
  consider "Auth_Mode cfg = ModeLocked" | "Auth_Mode cfg = ModeDev" "Auth_Mode cfg \<noteq> ModeLocked"
    | "Auth_Mode cfg = ModeJWT" "Auth_Mode cfg \<noteq> ModeLocked" "Auth_Mode cfg \<noteq> ModeDev"
    using assms by (auto simp: newIdentityMiddleware_def split: if_splits)
  then show ?thesis
  proof cases
    case 1
    with assms show ?thesis by (intro locked) (simp_all add: newIdentityMiddleware_def)
  next
    case 2
    with assms show ?thesis by (intro dev) (simp_all add: newIdentityMiddleware_def)
  next
    case 3
    with assms have "newJWTIdentityMiddleware up nv client cfg = Inr mw"
      by (simp add: newIdentityMiddleware_def)
    then obtain url where "mw = jwt_middleware up (nv url) cfg" "validateHTTPSURL url = Inr ()"
      by (rule newJWTIdentityMiddleware_Inr)
    with 3(1) show ?thesis by (rule jwt)
  qed
qed

lemma newIdentityMiddleware_authenticator:
  assumes "newIdentityMiddleware up nv client cfg = Inr mw"
  obtains authenticate where "authenticator mw authenticate"
  using assms
proof (cases rule: newIdentityMiddleware_cases)
  case locked
  then show ?thesis using that dev.authenticator_axioms [of up ModeLocked] by simp
next
  case dev
  then show ?thesis using that dev.authenticator_axioms [of up ModeDev] by simp
next
  case (jwt url)
  then show ?thesis using that jwt.authenticator_axioms [of up "nv url" cfg] by simp
qed

section \<open>Roles and claims\<close>

text \<open>The values a role claim offers: a single string or a list of strings.\<close>

definition claim_values :: "json \<Rightarrow> string list option" where
  "claim_values j =
     (case unmarshal_string j of Some v \<Rightarrow> Some [v] | None \<Rightarrow> unmarshal_strings j)"

lemma role_of_value_nonempty: "role_of_value cfg v \<noteq> Some []"
  by (auto simp: role_of_value_def role_defs)

lemma match_roles_Inr:
  "match_roles cfg matched vs = Inr role \<longleftrightarrow>
     (if matched = [] then
        (role = [] \<and> role_of_value cfg ` set vs \<subseteq> {None}) \<or>
        (Some role \<in> role_of_value cfg ` set vs \<and> role_of_value cfg ` set vs \<subseteq> {None, Some role})
      else role = matched \<and> role_of_value cfg ` set vs \<subseteq> {None, Some role})"
proof (induction cfg matched vs rule: match_roles.induct)
  case (1 cfg matched)
  then show ?case by auto
next
  case (2 cfg matched v vs)
  show ?case
  proof (cases "role_of_value cfg v")
    case None
    with 2 show ?thesis by simp
  next
    case (Some role')
    with role_of_value_nonempty [of cfg v] have "role' \<noteq> []" by auto
    with 2 Some show ?thesis by auto
  qed
qed

lemma resolveRole_Inr:
  "resolveRole (Some j) cfg = Inr role \<longleftrightarrow>
     (\<exists>vs. claim_values j = Some vs \<and> Some role \<in> role_of_value cfg ` set vs \<and>
        role_of_value cfg ` set vs \<subseteq> {None, Some role})"
proof -
  have match: "match_roles cfg [] vs = Inr role \<and> role \<noteq> [] \<longleftrightarrow>
      Some role \<in> role_of_value cfg ` set vs \<and> role_of_value cfg ` set vs \<subseteq> {None, Some role}" for vs
  proof -
    have "Some role \<in> role_of_value cfg ` set vs \<Longrightarrow> role \<noteq> []"
      by (metis imageE role_of_value_nonempty)
    then show ?thesis by (auto simp only: match_roles_Inr simp_thms if_True)
  qed
  have unfold: "resolveRole (Some j) cfg =
      (case claim_values j of
         None \<Rightarrow> Inl ''role claim must be a string or string array''
       | Some vs \<Rightarrow>
           (case match_roles cfg [] vs of
              Inl e \<Rightarrow> Inl e
            | Inr matched \<Rightarrow>
                if matched = [] then Inl ''role claim does not resolve to an OMS role'' else Inr matched))"
    unfolding resolveRole_def claim_values_def by (simp cong: option.case_cong)
  show ?thesis
  proof (cases "claim_values j")
    case None
    then show ?thesis by (simp add: unfold)
  next
    case (Some vs)
    then have "resolveRole (Some j) cfg = Inr role \<longleftrightarrow> match_roles cfg [] vs = Inr role \<and> role \<noteq> []"
      by (cases "match_roles cfg [] vs") (auto simp: unfold)
    with Some match show ?thesis by simp
  qed
qed

lemma identityFromJWT_Inr:
  assumes "identityFromJWT up (Inr claims) cfg = Inr i"
  shows "stringClaim claims (Auth_SubjectClaim cfg) = Some (Id_Subject i) \<and>
    TrimSpace (Id_Subject i) \<noteq> [] \<and>
    resolveRole (claims (Auth_RoleClaim cfg)) cfg = Inr (Id_Role i) \<and>
    (if Id_Role i = RoleCustomer
     then Id_HasCustomerID i \<and> \<not> Id_HasSubjectID i \<and>
       (\<exists>c. stringClaim claims (Auth_CustomerIDClaim cfg) = Some c \<and> up c = Some (Id_CustomerID i))
     else Id_Role i \<in> {RoleAdmin, RoleSystem} \<and> \<not> Id_HasCustomerID i \<and> Id_HasSubjectID i \<and>
       up (Id_Subject i) = Some (Id_SubjectID i))"
proof -
  from assms obtain subject where subject: "stringClaim claims (Auth_SubjectClaim cfg) = Some subject"
      "TrimSpace subject \<noteq> []"
    by (auto simp: identityFromJWT_def split: option.splits if_splits)
  with assms obtain role where role: "resolveRole (claims (Auth_RoleClaim cfg)) cfg = Inr role"
    by (cases "resolveRole (claims (Auth_RoleClaim cfg)) cfg") (auto simp: identityFromJWT_def)
  note known = resolveRole_role [OF role]
  show ?thesis
  proof (cases "role = RoleCustomer")
    case True
    with assms subject role show ?thesis
      by (auto simp: identityFromJWT_def zero_identity_def Let_def split: option.splits)
  next
    case False
    with known have "role = RoleAdmin \<or> role = RoleSystem" by simp
    with False assms subject role show ?thesis
      by (auto simp: identityFromJWT_def zero_identity_def Let_def split: option.splits)
  qed
qed

section \<open>Bounded reading\<close>

text \<open>A transport stream that arrives in chunks, and a client that reads it to its end with
  buffers of the sizes \<open>ns\<close>: what it collects, and the error that ended it, if it ended.\<close>

fun chunk_read :: "(string list \<times> string) read_op" where
  "chunk_read n ([], e) = (([], Some e), ([], e))"
| "chunk_read n (c # cs, e) =
     (if length c \<le> n then ((c, None), (cs, e)) else ((take n c, None), (drop n c # cs, e)))"

fun read_until :: "'r read_op \<Rightarrow> nat list \<Rightarrow> 'r \<Rightarrow> string \<times> string option" where
  "read_until rd [] r = ([], None)"
| "read_until rd (n # ns) r =
     (case rd n r of
        ((bs, Some e), _) \<Rightarrow> (bs, Some e)
      | ((bs, None), r') \<Rightarrow> (bs @ fst (read_until rd ns r'), snd (read_until rd ns r')))"

lemma chunk_read_cases:
  assumes "1 \<le> n" and "chunks \<noteq> []"
  obtains bs cs where "chunk_read n (chunks, e) = ((bs, None), (cs, e))" and "length bs \<le> n"
    and "concat chunks = bs @ concat cs"
    and "length cs + length (concat cs) < length chunks + length (concat chunks)"
proof (cases chunks)
  case (Cons c cs)
  show ?thesis
  proof (cases "length c \<le> n")
    case True
    with Cons show ?thesis by (intro that [of c cs]) auto
  next
    case False
    with Cons assms(1) show ?thesis
      by (intro that [of "take n c" "drop n c # cs"]) (auto simp: min_def)
  qed
qed (use assms in simp)

lemma maxBytes_step:
  assumes "inner (if k \<le> 0 then 1 else if int n > k + 1 then nat (k + 1) else n) r = ((bs, err), r')"
  shows "maxBytes_Read inner n \<lparr>mb_reader = r, mb_remaining = k\<rparr> =
    (if k \<le> 0 then (if bs = [] then ([], err) else ([], Some errJWTMetadataResponseTooLarge),
                    \<lparr>mb_reader = r', mb_remaining = k\<rparr>)
     else if int (length bs) > k
     then ((take (nat k) bs, Some errJWTMetadataResponseTooLarge), \<lparr>mb_reader = r', mb_remaining = 0\<rparr>)
     else ((bs, err), \<lparr>mb_reader = r', mb_remaining = k - int (length bs)\<rparr>))"
proof (cases "k \<le> 0")
  case True
  with assms have "inner 1 r = ((bs, err), r')" by simp
  with True show ?thesis by (simp add: maxBytes_Read_def Let_def)
next
  case False
  show ?thesis
  proof (cases "int n > k + 1")
    case True
    with False assms have "inner (nat (k + 1)) r = ((bs, err), r')" by simp
    with False True show ?thesis by (simp add: maxBytes_Read_def Let_def)
  next
    case n: False
    with False assms have "inner n r = ((bs, err), r')" by simp
    with False n show ?thesis by (simp add: maxBytes_Read_def Let_def)
  qed
qed

lemma read_until_bounded:
  assumes "list_all (\<lambda>n. 1 \<le> n) ns" and "length chunks + length (concat chunks) < length ns" and "0 \<le> k"
  shows "read_until (maxBytes_Read chunk_read) ns \<lparr>mb_reader = (chunks, e), mb_remaining = k\<rparr> =
    (if int (length (concat chunks)) \<le> k then (concat chunks, Some e)
     else (take (nat k) (concat chunks), Some errJWTMetadataResponseTooLarge))"
  using assms
proof (induction ns arbitrary: chunks k)
  case Nil
  then show ?case by simp
next
  case (Cons n ns)
  show ?case
  proof (cases "chunks = []")
    case True
    with Cons.prems maxBytes_step [of chunk_read k n "(chunks, e)" "[]" "Some e"] show ?thesis
      by (simp split: if_splits)
  next
    case False
    define b where "b = (if k \<le> 0 then 1 else if int n > k + 1 then nat (k + 1) else n)"
    have "1 \<le> b" using Cons.prems by (auto simp: b_def)
    then obtain bs cs where rd: "chunk_read b (chunks, e) = ((bs, None), (cs, e))" and len: "length bs \<le> b"
      and all: "concat chunks = bs @ concat cs"
      and less: "length cs + length (concat cs) < length chunks + length (concat chunks)"
      using False by (rule chunk_read_cases)
    have IH: "read_until (maxBytes_Read chunk_read) ns \<lparr>mb_reader = (cs, e), mb_remaining = k'\<rparr> =
        (if int (length (concat cs)) \<le> k' then (concat cs, Some e)
         else (take (nat k') (concat cs), Some errJWTMetadataResponseTooLarge))" if "0 \<le> k'" for k'
      using Cons.prems less that by (intro Cons.IH) auto
    have total: "int (length (concat chunks)) = int (length bs) + int (length (concat cs))"
      using all by simp
    note step = maxBytes_step [of chunk_read k n "(chunks, e)", folded b_def, OF rd]
    have eq: "read_until (maxBytes_Read chunk_read) (n # ns) \<lparr>mb_reader = (chunks, e), mb_remaining = k\<rparr> =
      (let m = (if k \<le> 0 then (if bs = [] then ([], None) else ([], Some errJWTMetadataResponseTooLarge),
                      \<lparr>mb_reader = (cs, e), mb_remaining = k\<rparr>)
                else if int (length bs) > k
                then ((take (nat k) bs, Some errJWTMetadataResponseTooLarge),
                      \<lparr>mb_reader = (cs, e), mb_remaining = 0\<rparr>)
                else ((bs, None), \<lparr>mb_reader = (cs, e), mb_remaining = k - int (length bs)\<rparr>))
       in case m of ((xs, Some e'), _) \<Rightarrow> (xs, Some e')
          | ((xs, None), r') \<Rightarrow> (xs @ fst (read_until (maxBytes_Read chunk_read) ns r'),
                                  snd (read_until (maxBytes_Read chunk_read) ns r')))"
      by (simp only: read_until.simps step Let_def)
    consider "k = 0" "bs = []" | "k = 0" "bs \<noteq> []" | "0 < k" "k < int (length bs)"
      | "0 < k" "int (length bs) \<le> k"
      using Cons.prems(3) by linarith
    then show ?thesis
    proof cases
      case 1
      with all IH [of 0] show ?thesis unfolding eq by (simp add: total)
    next
      case 2
      then have "\<not> int (length bs) + int (length (concat cs)) \<le> 0" by (cases bs) auto
      with 2 all show ?thesis unfolding eq by (simp add: total)
    next
      case 3
      with all show ?thesis unfolding eq by (simp add: total)
    next
      case 4
      then have "nat k - length bs = nat (k - int (length bs))" by (simp add: nat_diff_distrib')
      with 4 all IH [of "k - int (length bs)"] show ?thesis
        unfolding eq by (simp add: total algebra_simps)
    qed
  qed
qed

section \<open>Properties\<close>

text \<open>C20: Authentication fails closed: whichever mode a middleware is built for, each request
  either gets 401 without reaching the handler and without a change of state, or it reaches
  the handler with a well-formed identity, whatever the request carried before; the locked
  mode lets nothing through.\<close>

theorem auth_fail_closed:
  assumes "newIdentityMiddleware up nv client cfg = Inr mw"
  shows "((\<forall>next. mw next r s = (unauthorized, s)) \<or>
      (\<exists>i. identity_ok i \<and> (\<forall>next. mw next r s = next (WithIdentity r i) s))) \<and>
    (Auth_Mode cfg = ModeLocked \<longrightarrow> mw next r s = (unauthorized, s))"
proof -
  from assms obtain authenticate where "authenticator mw authenticate"
    by (rule newIdentityMiddleware_authenticator)
  then have outcome: "(\<forall>next. mw next r s = (unauthorized, s)) \<or>
      (\<exists>i. identity_ok i \<and> (\<forall>next. mw next r s = next (WithIdentity r i) s))"
  proof (cases "authenticate s r")
    case None
    then show ?thesis using \<open>authenticator mw authenticate\<close> by (simp add: authenticator.refused)
  next
    case (Some i)
    then have "identity_ok i \<and> (\<forall>next. mw next r s = next (WithIdentity r i) s)"
      using \<open>authenticator mw authenticate\<close>
      by (simp add: authenticator.admitted authenticator.authenticated_ok)
    then show ?thesis by blast
  qed
  moreover have "Auth_Mode cfg = ModeLocked \<Longrightarrow> mw next r s = (unauthorized, s)"
    using assms by (auto simp: newIdentityMiddleware_def IdentityMiddleware_def ModeLocked_def ModeDev_def)
  ultimately show ?thesis by blast
qed

definition plain_request :: "header \<Rightarrow> http_request" where
  "plain_request hdr =
     \<lparr>req_method = ''GET'', req_path = ''/'', req_raw_query = [], req_header = hdr,
      req_body = \<lparr>rd_bytes = [], rd_error = None\<rparr>, req_remote_addr = ''192.0.2.7:4711'',
      req_url_params = Map.empty, req_identity = None\<rparr>"

definition locked_config :: auth_Config where
  "locked_config =
     \<lparr>Auth_Mode = ModeLocked, Auth_Issuer = [], Auth_Audience = [], Auth_JWKSURL = [],
      Auth_OIDCDiscoveryURL = [], Auth_AllowedAlgorithms = [], Auth_SubjectClaim = [],
      Auth_CustomerIDClaim = [], Auth_RoleClaim = [], Auth_RoleCustomerValue = [],
      Auth_RoleAdminValue = [], Auth_RoleSystemValue = [], Auth_HTTPTimeout = 0\<rparr>"

lemma auth_fail_closed_witness:
  "IdentityMiddleware (\<lambda>_. Some 7) ModeLocked (\<lambda>_ s. (forbidden, s)) (plain_request Map.empty) (5::nat) =
     (unauthorized, 5)"
  using auth_fail_closed [of "\<lambda>_. Some 7" "\<lambda>_ _ _. Inl []" "\<lambda>_. Inl []" locked_config
      "IdentityMiddleware (\<lambda>_. Some 7) ModeLocked" "plain_request Map.empty" "5::nat" "\<lambda>_ s. (forbidden, s)"]
  by (simp add: newIdentityMiddleware_def locked_config_def)

text \<open>C22: A role claim resolves to a role exactly when one of its values stands for that role
  and none stands for another: a token that names two roles is refused, unknown values are
  ignored.\<close>

theorem jwt_role_unambiguous:
  "resolveRole raw cfg = Inr role \<longleftrightarrow>
     (\<exists>j vs. raw = Some j \<and> claim_values j = Some vs \<and> Some role \<in> role_of_value cfg ` set vs \<and>
        role_of_value cfg ` set vs \<subseteq> {None, Some role})"
  by (cases raw) (simp add: resolveRole_def, simp add: resolveRole_Inr)

text \<open>C21: The identity of a request in JWT mode carries what its verified token says and no
  more: the subject is the token's subject claim, the role its role claim; a customer has
  the customer id claim and no privileged subject id, while administrators and the system
  have a subject id and no customer id, so no single token can act as both.\<close>

theorem jwt_identity_sound:
  assumes "jwt_authenticate up verify cfg s r = Some i"
  shows "\<exists>t claims. bearerToken (Header_Get (req_header r) ''Authorization'') = Some t \<and>
    verify s t = Inr (Inr claims) \<and>
    stringClaim claims (Auth_SubjectClaim cfg) = Some (Id_Subject i) \<and> TrimSpace (Id_Subject i) \<noteq> [] \<and>
    resolveRole (claims (Auth_RoleClaim cfg)) cfg = Inr (Id_Role i) \<and>
    (if Id_Role i = RoleCustomer
     then Id_HasCustomerID i \<and> \<not> Id_HasSubjectID i \<and>
       (\<exists>c. stringClaim claims (Auth_CustomerIDClaim cfg) = Some c \<and> up c = Some (Id_CustomerID i))
     else Id_Role i \<in> {RoleAdmin, RoleSystem} \<and> \<not> Id_HasCustomerID i \<and> Id_HasSubjectID i \<and>
       up (Id_Subject i) = Some (Id_SubjectID i))"
proof -
  from assms obtain t token where t: "bearerToken (Header_Get (req_header r) ''Authorization'') = Some t"
    "verify s t = Inr token" and i: "identityFromJWT up token cfg = Inr i"
    by (auto simp: jwt_authenticate_def split: option.splits sum.splits)
  from i obtain claims where "token = Inr claims" by (cases token) (auto simp: identityFromJWT_def)
  with i have i: "identityFromJWT up (Inr claims) cfg = Inr i" by simp
  from identityFromJWT_Inr [OF i] show ?thesis
    using t \<open>token = Inr claims\<close> by blast
qed

definition demo_claims :: claims where
  "demo_claims = [''sub'' \<mapsto> JString ''u9'', ''roles'' \<mapsto> JArray [JString ''guest'', JString ''ops'']]"

definition demo_jwt_config :: auth_Config where
  "demo_jwt_config = locked_config\<lparr>Auth_Mode := ModeJWT, Auth_SubjectClaim := ''sub'',
     Auth_RoleClaim := ''roles'', Auth_CustomerIDClaim := ''cust'', Auth_RoleCustomerValue := ''buyer'',
     Auth_RoleAdminValue := ''ops'', Auth_RoleSystemValue := ''job''\<rparr>"

definition demo_verify :: "nat \<Rightarrow> string \<Rightarrow> string + IDToken" where
  "demo_verify s t = (if t = ''abc'' then Inr (Inr demo_claims) else Inl [])"

definition demo_uuid :: "string \<Rightarrow> uuid option" where
  "demo_uuid t = (if t = ''u9'' then Some 9 else None)"

definition demo_admin :: Identity where
  "demo_admin = zero_identity\<lparr>Id_Role := RoleAdmin, Id_Subject := ''u9'', Id_HasSubject := True,
     Id_SubjectID := 9, Id_HasSubjectID := True\<rparr>"

lemma demo_authenticated:
  "jwt_authenticate demo_uuid demo_verify demo_jwt_config 0
     (plain_request [''Authorization'' \<mapsto> [''Bearer abc'']]) = Some demo_admin"
  by code_simp

lemma jwt_identity_sound_witness: "demo_uuid (Id_Subject demo_admin) = Some 9 \<and> Id_Role demo_admin = ''ADMIN''"
  using jwt_identity_sound [OF demo_authenticated] by (auto simp: demo_admin_def role_defs)

text \<open>C23: Whatever the server of the metadata sends and however it is cut into chunks, a client
  that reads through the bound ends, and has read either the whole body, when it fits the
  limit, or exactly the limit's bytes followed by the size error: the stream implements
  \<open>bounded_body\<close>, and no response fills the memory.\<close>

theorem metadata_reads_bounded:
  assumes "list_all (\<lambda>n. 1 \<le> n) ns" and "length chunks + length (concat chunks) < length ns"
    and "b = bounded_body \<lparr>rd_bytes = concat chunks, rd_error = (if e = [] then None else Some e)\<rparr>"
  shows "read_until (maxBytes_Read chunk_read) ns
      \<lparr>mb_reader = (chunks, e), mb_remaining = maxJWTMetadataResponseBytes\<rparr> =
    (rd_bytes b, Some (case rd_error b of None \<Rightarrow> [] | Some t \<Rightarrow> t)) \<and>
    length (rd_bytes b) \<le> 2 ^ 20"
proof -
  have limit: "0 \<le> maxJWTMetadataResponseBytes" "nat maxJWTMetadataResponseBytes = 2 ^ 20"
    by (simp_all add: maxJWTMetadataResponseBytes_def push_bit_eq_mult)
  have "read_until (maxBytes_Read chunk_read) ns
      \<lparr>mb_reader = (chunks, e), mb_remaining = maxJWTMetadataResponseBytes\<rparr> =
    (if int (length (concat chunks)) \<le> maxJWTMetadataResponseBytes then (concat chunks, Some e)
     else (take (nat maxJWTMetadataResponseBytes) (concat chunks), Some errJWTMetadataResponseTooLarge))"
    using assms(1,2) limit(1) by (rule read_until_bounded)
  moreover have "int (length (concat chunks)) \<le> maxJWTMetadataResponseBytes \<longleftrightarrow> length (concat chunks) \<le> 2 ^ 20"
    using limit by linarith
  ultimately show ?thesis using assms(3) limit(2) by (simp add: bounded_body_def)
qed

lemma metadata_reads_bounded_witness:
  "read_until (maxBytes_Read chunk_read) (replicate 9 512)
     \<lparr>mb_reader = ([''ab'', ''c''], []), mb_remaining = maxJWTMetadataResponseBytes\<rparr> = (''abc'', Some [])"
  using metadata_reads_bounded [of "replicate 9 512" "[''ab'', ''c'']" _ "[]", OF _ _ refl]
  by (simp add: bounded_body_def maxJWTMetadataResponseBytes_def push_bit_eq_mult list_all_iff)

end
