(* ===== verification/CursorLaws.thy ===== *)
theory CursorLaws
  imports Handler
begin

text \<open>
  The list cursor survives the trip through the client: base64 decodes what it encoded, an
  RFC 3339 text parses to the instant it was made from, and so \<open>parseCursor\<close> undoes
  \<open>encodeCursor\<close>.  Also the bounds of the page limit.
\<close>

section \<open>Base 64\<close>

lemma byte_b64_digit:
  "n < 64 \<Longrightarrow> byte (b64_digit n) =
     (if n < 26 then 65 + n else if n < 52 then 71 + n else if n < 62 then n - 4
      else if n = 62 then 45 else 95)"
  by (simp add: b64_digit_def)

lemma b64_digit_facts [simp]:
  assumes "n < 64"
  shows "b64_value (b64_digit n) = Some n" "b64_digit n \<noteq> CHR 0x0A" "b64_digit n \<noteq> CHR 0x0D"
proof -
  have "45 \<le> byte (b64_digit n)" using assms by (auto simp: byte_b64_digit)
  then show "b64_digit n \<noteq> CHR 0x0A" "b64_digit n \<noteq> CHR 0x0D" by auto
  consider "n < 26" | "26 \<le> n" "n < 52" | "52 \<le> n" "n < 62" | "n = 62" | "n = 63"
    using assms by linarith
  then show "b64_value (b64_digit n) = Some n"
    by cases (auto simp: b64_value_def byte_b64_digit is_digit_def, simp_all add: b64_digit_def)
qed

lemma byte_less: "byte c < 256"
  by (rule nat_of_char_less_256)

lemma byte_parts: "byte c div 4 < 64" "byte c div 16 < 16" "byte c div 64 < 4"
  using byte_less [of c] by (simp_all add: less_mult_imp_div_less)

lemma char_of_byte_parts: "char_of (byte c div 4 * 4 + byte c mod 4) = c"
  "char_of (byte c div 16 * 16 + byte c mod 16) = c" "char_of (byte c div 64 * 64 + byte c mod 64) = c"
  by (simp_all only: div_mult_mod_eq char_of_char)

text \<open>The six-bit groups of a string, as \<open>b64_encode\<close> cuts them.\<close>

fun sextets :: "string \<Rightarrow> nat list" where
  "sextets [] = []"
| "sextets [a] = [byte a div 4, byte a mod 4 * 16]"
| "sextets [a, b] = [byte a div 4, byte a mod 4 * 16 + byte b div 16, byte b mod 16 * 4]"
| "sextets (a # b # c # cs) =
     byte a div 4 # (byte a mod 4 * 16 + byte b div 16) # (byte b mod 16 * 4 + byte c div 64) #
     byte c mod 64 # sextets cs"

lemma sextet_less:
  "x < 4 \<Longrightarrow> y < 16 \<Longrightarrow> x * 16 + y < (64::nat)" "x < 16 \<Longrightarrow> y < 4 \<Longrightarrow> x * 4 + y < (64::nat)"
  by simp_all

lemma sextets_less: "n \<in> set (sextets s) \<Longrightarrow> n < 64"
  using byte_parts by (induction s rule: sextets.induct) (auto intro: sextet_less)

lemma b64_encode_sextets: "b64_encode s = map b64_digit (sextets s)"
  by (induction s rule: sextets.induct) simp_all

lemma parse_all_digits: "(\<And>n. n \<in> set ns \<Longrightarrow> n < 64) \<Longrightarrow> parse_all b64_value (map b64_digit ns) = Some ns"
  by (induction ns) auto

lemma join_bits:
  "y < 16 \<Longrightarrow> (x * 16 + y) div 16 = (x::nat)" "y < 16 \<Longrightarrow> (x * 16 + y) mod 16 = (y::nat)"
  "y < 4 \<Longrightarrow> (x * 4 + y) div 4 = (x::nat)" "y < 4 \<Longrightarrow> (x * 4 + y) mod 4 = (y::nat)"
  by simp_all

lemma b64_bytes_sextets: "b64_bytes (sextets s) = Some s"
proof (induction s rule: sextets.induct)
  case (4 a b c cs)
  then show ?case
    using byte_parts [of a] byte_parts [of b] byte_parts [of c]
    by (simp only: sextets.simps b64_bytes.simps join_bits char_of_byte_parts option.map)
next
  case (3 a b)
  have "byte b mod 16 * 4 div 4 = byte b mod 16" by simp
  then show ?case using byte_parts [of b]
    by (simp only: sextets.simps b64_bytes.simps join_bits char_of_byte_parts)
next
  case (2 a)
  have "byte a mod 4 * 16 div 16 = byte a mod 4" by simp
  then show ?case by (simp only: sextets.simps b64_bytes.simps char_of_byte_parts)
qed simp

lemma b64_decode_encode: "b64_decode (b64_encode s) = Some s"
proof -
  have "filter (\<lambda>c. c \<noteq> CHR 0x0A \<and> c \<noteq> CHR 0x0D) (map b64_digit (sextets s)) = map b64_digit (sextets s)"
    using sextets_less by (intro filter_True) auto
  then show ?thesis
    by (simp add: b64_decode_def b64_encode_sextets parse_all_digits sextets_less b64_bytes_sextets)
qed

section \<open>RFC 3339\<close>

lemma digits_value_bound: "list_all is_digit s \<Longrightarrow> dec_value s < 10 ^ length s"
proof (induction s rule: rev_induct)
  case (snoc c s)
  then show ?case by (auto simp: dec_value_snoc is_digit_def)
qed (simp add: dec_value_def)

lemma dec_value_zeros: "dec_value (replicate k CHR ''0'' @ s) = dec_value s"
proof (induction k)
  case (Suc k)
  then show ?case by (simp add: dec_value_def)
qed simp

lemma dec_value_append_zeros: "dec_value (s @ replicate k CHR ''0'') = dec_value s * 10 ^ k"
proof (induction k)
  case (Suc k)
  have "s @ replicate (Suc k) CHR ''0'' = (s @ replicate k CHR ''0'') @ [CHR ''0'']"
    by (simp add: replicate_append_same)
  then show ?case using Suc by (simp only: dec_value_snoc) simp
qed simp

lemma show_nat_short: "n < 10 ^ w \<Longrightarrow> 0 < w \<Longrightarrow> length (show_nat n) \<le> w"
proof (induction n arbitrary: w rule: show_nat.induct)
  case (1 n)
  show ?case
  proof (cases "n < 10")
    case True
    with 1 show ?thesis by (subst show_nat.simps) simp
  next
    case False
    with "1.prems" have "1 < w" by (cases w) (auto simp: less_Suc_eq)
    then obtain v where v: "w = Suc v" "0 < v" by (cases w) auto
    with False 1 have "length (show_nat (n div 10)) \<le> v" by (intro "1.IH") auto
    with False v show ?thesis by (subst show_nat.simps) simp
  qed
qed

lemma pad_facts:
  assumes "0 \<le> n" and "n < 10 ^ w" and "0 < w"
  shows "length (pad w n) = w" "list_all is_digit (pad w n)" "dec_int (pad w n) = n"
proof -
  obtain k where n: "n = int k" using assms(1) nonneg_int_cases by blast
  with assms(2) have "int k < int (10 ^ w)" by simp
  then have k: "k < 10 ^ w" by (simp only: of_nat_less_iff)
  have pad: "pad w n = replicate (w - length (show_nat k)) CHR ''0'' @ show_nat k"
    by (simp add: pad_def n show_dec_nat Let_def)
  show len: "length (pad w n) = w" using show_nat_short [OF k assms(3)] by (simp add: pad)
  show dig: "list_all is_digit (pad w n)"
    using show_nat_digits by (simp add: pad is_digit_def list_all_iff [of _ "replicate _ _"])
  have "dec_int (pad w n) = int (dec_value (pad w n))" using dig by (rule dec_int_digits)
  also have "\<dots> = int k" by (simp only: pad dec_value_zeros dec_value_show_nat)
  finally show "dec_int (pad w n) = n" by (simp only: n)
qed

lemma length_two: "length s = 2 \<Longrightarrow> \<exists>c d. s = [c, d]"
  by (cases s rule: remdups_adj.cases) auto

lemma getnum_pad: "0 \<le> n \<Longrightarrow> n < 100 \<Longrightarrow> getnum fixed (pad 2 n @ s) = Some (n, s)"
proof -
  assume n: "0 \<le> n" "n < 100"
  then have f: "length (pad 2 n) = 2" "list_all is_digit (pad 2 n)" "dec_int (pad 2 n) = n"
    using pad_facts [of n 2] by simp_all
  then obtain c d where "pad 2 n = [c, d]" using length_two by blast
  with f show ?thesis by simp
qed

lemma get_year_pad: "0 \<le> y \<Longrightarrow> y < 10000 \<Longrightarrow> get_year (show_year y @ s) = Some (y, s)"
  using pad_facts [of y 4] by (simp add: get_year_def show_year_def)

lemma drop_zeros_parts: "s = drop_zeros s @ replicate (length s - length (drop_zeros s)) CHR ''0''"
proof -
  have "rev s = takeWhile (\<lambda>c. c = CHR ''0'') (rev s) @ dropWhile (\<lambda>c. c = CHR ''0'') (rev s)" by simp
  moreover have "takeWhile (\<lambda>c. c = CHR ''0'') xs = replicate (length (takeWhile (\<lambda>c. c = CHR ''0'') xs)) CHR ''0''" for xs
    by (induction xs) auto
  ultimately have "rev (rev s) = drop_zeros s @ replicate (length (takeWhile (\<lambda>c. c = CHR ''0'') (rev s))) CHR ''0''"
    unfolding drop_zeros_def by (metis rev_append rev_replicate)
  then have s: "s = drop_zeros s @ replicate (length (takeWhile (\<lambda>c. c = CHR ''0'') (rev s))) CHR ''0''" by simp
  then have "length s = length (drop_zeros s) + length (takeWhile (\<lambda>c. c = CHR ''0'') (rev s))"
    by (metis length_append length_replicate)
  with s show ?thesis by simp
qed

lemma get_frac_show:
  assumes "0 \<le> f" and "f < 10 ^ 9"
  shows "get_frac (show_frac f @ ''Z'') = (f, ''Z'')"
proof (cases "f = 0")
  case True
  then show ?thesis by (simp add: show_frac_def get_frac_def)
next
  case False
  let ?p = "pad 9 f" and ?ds = "drop_zeros (pad 9 f)"
  have p: "length ?p = 9" "list_all is_digit ?p" "dec_int ?p = f"
    using assms pad_facts [of f 9] by simp_all
  have split: "?p = ?ds @ replicate (9 - length ?ds) CHR ''0''" using drop_zeros_parts [of ?p] p(1) by simp
  then have dig: "list_all is_digit ?ds" using p(2) by (metis list_all_append)
  have len: "length ?ds \<le> 9" using arg_cong [OF split, of length] p(1) by simp
  have "int (dec_value ?ds * 10 ^ (9 - length ?ds)) = f"
    using p(3) dec_int_digits [OF p(2)] dec_value_append_zeros [of ?ds] split by metis
  then have f: "dec_int ?ds * 10 ^ (9 - length ?ds) = f" using dec_int_digits [OF dig] by simp
  with False have "?ds \<noteq> []" by (auto simp: dec_int_def)
  then obtain d ds where ds: "?ds = d # ds" by (cases ?ds) auto
  have "is_digit d" using dig ds by simp
  have "\<not> is_digit CHR ''Z''" by (simp add: is_digit_def)
  then have tw: "takeWhile is_digit (d # ds @ ''Z'') = d # ds"
    using dig ds takeWhile_append2 [of "d # ds" is_digit "''Z''"] by (simp add: list_all_iff)
  show ?thesis
    using False ds \<open>is_digit d\<close> tw len f by (simp add: show_frac_def get_frac_def Let_def)
qed

text \<open>Parsing undoes formatting for every instant of the years 0 to 9999.\<close>

lemma days_before_year_mono: "y \<le> z \<Longrightarrow> days_before_year y \<le> days_before_year z"
proof (induction z rule: int_ge_induct)
  case (step z)
  then show ?case using days_before_year_step [of z] by (simp split: if_splits)
qed simp

lemma year_bounds:
  assumes "0 \<le> d" and "d < 3652425"
  shows "0 \<le> year_of_day d" "year_of_day d < 10000"
proof -
  note b = year_of_day_bounds [of d]
  have ends: "days_before_year 0 = 0" "days_before_year 10000 = 3652425"
    by (simp_all add: days_before_year_def)
  show "0 \<le> year_of_day d"
  proof (rule ccontr)
    assume "\<not> 0 \<le> year_of_day d"
    then have "days_before_year (year_of_day d + 1) \<le> days_before_year 0" by (intro days_before_year_mono) simp
    with b ends assms(1) show False by linarith
  qed
  show "year_of_day d < 10000"
  proof (rule ccontr)
    assume "\<not> year_of_day d < 10000"
    then have "days_before_year 10000 \<le> days_before_year (year_of_day d)" by (intro days_before_year_mono) simp
    with b ends assms(2) show False by linarith
  qed
qed

text \<open>The instants of those years.\<close>

definition four_digit_year :: "time \<Rightarrow> bool" where
  "four_digit_year t \<longleftrightarrow> - 62167219200 * 10 ^ 9 \<le> t \<and> t < 253402300800 * 10 ^ 9"

lemma clock_parts:
  fixes ns :: int
  assumes "0 \<le> ns" and "ns < day_ns"
  defines "sec \<equiv> ns div 10 ^ 9"
  shows "0 \<le> sec div 3600" "sec div 3600 < 24" "0 \<le> sec div 60 mod 60" "sec div 60 mod 60 < 60"
    "0 \<le> sec mod 60" "sec mod 60 < 60"
    "(sec div 3600 * 3600 + sec div 60 mod 60 * 60 + sec mod 60) * 10 ^ 9 + ns mod 10 ^ 9 = ns"
proof -
  have "10 ^ 9 * sec + ns mod 10 ^ 9 = ns" "0 \<le> ns mod 10 ^ 9"
    by (simp_all only: sec_def mult_div_mod_eq) simp
  moreover have "ns < 86400 * 10 ^ 9" using assms(2) by (simp add: day_ns_def)
  moreover have "0 \<le> sec" using assms(1) by (simp add: sec_def pos_imp_zdiv_nonneg_iff)
  ultimately have sec: "0 \<le> sec" "sec < 86400" by simp_all
  then show "0 \<le> sec div 3600" "sec div 3600 < 24" "0 \<le> sec div 60 mod 60" "sec div 60 mod 60 < 60"
    "0 \<le> sec mod 60" "sec mod 60 < 60" by (simp_all add: pos_imp_zdiv_nonneg_iff)
  define m where "m = sec div 60"
  have h: "sec div 3600 = m div 60" by (simp add: m_def zdiv_zmult2_eq [symmetric])
  have "sec div 3600 * 3600 + sec div 60 mod 60 * 60 + sec mod 60 = sec"
    unfolding h m_def [symmetric]
    using mult_div_mod_eq [of 60 m] mult_div_mod_eq [of 60 sec, folded m_def] by linarith
  then show "(sec div 3600 * 3600 + sec div 60 mod 60 * 60 + sec mod 60) * 10 ^ 9 + ns mod 10 ^ 9 = ns"
    using div_mult_mod_eq [of ns "10 ^ 9"] by (simp only: sec_def)
qed

lemma daysIn_31: "1 \<le> m \<Longrightarrow> m \<le> 12 \<Longrightarrow> daysIn m y \<le> 31"
proof -
  assume m: "1 \<le> m" "m \<le> 12"
  then have "m \<in> {1, 2, 3, 4, 5, 6, 7, 8, 9, 10, 11, 12}"
    by (simp only: insert_iff empty_iff) presburger
  then show ?thesis by (auto simp: daysIn_def days_before_month_def)
qed

lemma Parse_Format_steps:
  assumes y: "0 \<le> y" "y < 10000" and m: "1 \<le> m" "m \<le> 12" and d: "1 \<le> d" "d \<le> daysIn m y"
    and hh: "0 \<le> hh" "hh < 24" and mm: "0 \<le> mm" "mm < 60" and ss: "0 \<le> ss" "ss < 60"
    and f: "0 \<le> f" "f < 10 ^ 9"
  shows "Parse_RFC3339Nano (show_year y @ ''-'' @ pad 2 (int m) @ ''-'' @ pad 2 d @ ''T'' @
         pad 2 hh @ '':'' @ pad 2 mm @ '':'' @ pad 2 ss @ show_frac f @ ''Z'') =
    Some (days_of_civil y m d * day_ns + (hh * 3600 + mm * 60 + ss) * 10 ^ 9 + f)"
proof -
  have "daysIn m y \<le> 31" using m by (rule daysIn_31)
  with d have "d < 100" by simp
  have "getnum True (pad 2 (int m) @ s) = Some (int m, s)" for s using m by (intro getnum_pad) simp_all
  moreover have "getnum True (pad 2 d @ s) = Some (d, s)" for s using d \<open>d < 100\<close> by (intro getnum_pad) simp_all
  moreover have "getnum False (pad 2 hh @ s) = Some (hh, s)" for s using hh by (intro getnum_pad) simp_all
  moreover have "getnum True (pad 2 mm @ s) = Some (mm, s)" for s using mm by (intro getnum_pad) simp_all
  moreover have "getnum True (pad 2 ss @ s) = Some (ss, s)" for s using ss by (intro getnum_pad) simp_all
  moreover have "get_zone ''Z'' = Some (0, [])" by (simp add: get_zone_def)
  ultimately show ?thesis
    using get_year_pad [OF y] get_frac_show [OF f] m d hh mm ss
    by (simp add: Parse_RFC3339Nano_def guard_def)
qed

text \<open>The calendar date and the clock time of an instant are in the ranges the format has room for.\<close>

lemma instant_parts:
  assumes "four_digit_year t" and civil: "civil_of_days (t div day_ns) = (y, m, d)"
  shows "0 \<le> y" "y < 10000" "1 \<le> m" "m \<le> 12" "1 \<le> d" "d \<le> daysIn m y"
    "days_of_civil y m d = t div day_ns"
proof -
  have range: "- 719528 * day_ns \<le> t" "t < 2932897 * day_ns"
    using assms(1) by (simp_all add: four_digit_year_def day_ns_def)
  define q r where "q = t div day_ns" and "r = t mod day_ns"
  have "day_ns * q + r = t" "0 \<le> r" "r < day_ns" by (simp_all add: q_def r_def day_ns_def)
  with range have "- 719528 \<le> q" "q < 2932897" unfolding day_ns_def by simp_all
  with civil year_bounds [of "q + unix_epoch_day"] show "0 \<le> y" "y < 10000"
    by (auto simp: civil_of_days_def Let_def unix_epoch_day_def q_def)
qed (use civil_of_days_civil [OF civil] in auto)

lemma Parse_Format:
  assumes "four_digit_year t"
  shows "Parse_RFC3339Nano (Format_RFC3339Nano t) = Some t"
proof -
  obtain y m d where civil: "civil_of_days (t div day_ns) = (y, m, d)" by (cases "civil_of_days (t div day_ns)")
  have ns: "0 \<le> t mod day_ns" "t mod day_ns < day_ns" by (simp_all add: day_ns_def)
  note c = instant_parts [OF assms civil] and p = clock_parts [OF ns]
  have "Parse_RFC3339Nano (Format_RFC3339Nano t) =
      Some (t div day_ns * day_ns + (t mod day_ns div 10 ^ 9 div 3600 * 3600 +
        t mod day_ns div 10 ^ 9 div 60 mod 60 * 60 + t mod day_ns div 10 ^ 9 mod 60) * 10 ^ 9 +
        t mod day_ns mod 10 ^ 9)"
    unfolding Format_RFC3339Nano_def civil Let_def prod.case
    using Parse_Format_steps [OF c(1-6) p(1-6), of "t mod day_ns mod 10 ^ 9"] c(7) by simp
  also have "t div day_ns * day_ns + (t mod day_ns div 10 ^ 9 div 3600 * 3600 +
        t mod day_ns div 10 ^ 9 div 60 mod 60 * 60 + t mod day_ns div 10 ^ 9 mod 60) * 10 ^ 9 +
        t mod day_ns mod 10 ^ 9 = t"
    using p(7) by (simp only: add.assoc) simp
  finally show ?thesis .
qed

lemma pad_no_bar: "0 \<le> n \<Longrightarrow> n < 10 ^ w \<Longrightarrow> 0 < w \<Longrightarrow> CHR ''|'' \<notin> set (pad w n)"
  using pad_facts(2) [of n w] by (auto simp: list_all_iff is_digit_def)

lemma pad_frac_no_bar: "0 \<le> f \<Longrightarrow> f < 10 ^ 9 \<Longrightarrow> CHR ''|'' \<notin> set (show_frac f)"
  using pad_no_bar [of f 9] drop_zeros_parts [of "pad 9 f"]
  by (auto simp: show_frac_def) (metis Un_iff set_append)

lemma format_steps_no_bar:
  assumes "0 \<le> y" "y < 10000" and "1 \<le> m" "m \<le> 12" and "1 \<le> d" "d \<le> daysIn m y"
    and "0 \<le> hh" "hh < 24" and "0 \<le> mm" "mm < 60" and "0 \<le> ss" "ss < 60"
    and "0 \<le> f" "f < 10 ^ 9"
  shows "CHR ''|'' \<notin> set (show_year y @ ''-'' @ pad 2 (int m) @ ''-'' @ pad 2 d @ ''T'' @
         pad 2 hh @ '':'' @ pad 2 mm @ '':'' @ pad 2 ss @ show_frac f @ ''Z'')"
proof -
  have "d < 100" using assms(6) daysIn_31 [OF assms(3,4), of y] by simp
  with assms pad_no_bar [of y 4] pad_no_bar [of "int m" 2] pad_no_bar [of d 2] pad_no_bar [of hh 2]
    pad_no_bar [of mm 2] pad_no_bar [of ss 2] pad_frac_no_bar [of f]
  show ?thesis by (simp add: show_year_def)
qed

lemma Format_no_bar:
  assumes "four_digit_year t"
  shows "CHR ''|'' \<notin> set (Format_RFC3339Nano t)"
proof -
  obtain y m d where civil: "civil_of_days (t div day_ns) = (y, m, d)" by (cases "civil_of_days (t div day_ns)")
  have ns: "0 \<le> t mod day_ns" "t mod day_ns < day_ns" by (simp_all add: day_ns_def)
  note c = instant_parts [OF assms civil] and p = clock_parts [OF ns]
  show ?thesis
    unfolding Format_RFC3339Nano_def civil Let_def prod.case
    by (rule format_steps_no_bar [OF c(1-6) p(1-6)]) simp_all
qed

lemma b64_encode_bytes: "c \<in> set (b64_encode s) \<Longrightarrow> 45 \<le> byte c \<and> byte c < 128"
  using sextets_less [of _ s] by (auto simp: b64_encode_sextets byte_b64_digit)

lemma b64_encode_Nil [simp]: "b64_encode s = [] \<longleftrightarrow> s = []"
  by (cases s rule: b64_encode.cases) auto

lemma TrimSpace_printable:
  assumes "\<And>c. c \<in> set s \<Longrightarrow> 45 \<le> byte c \<and> byte c < 128"
  shows "TrimSpace s = s"
proof -
  have "trim_left s = s"
  proof (rule ccontr)
    assume "trim_left s \<noteq> s"
    moreover have "leading_space s = 0 \<Longrightarrow> trim_left s = s" by (subst trim_left.simps) simp
    ultimately have "leading_space s \<noteq> 0" by blast
    then obtain p where "p \<in> set utf8_spaces" "s = p @ drop (leading_space s) s"
      by (rule trim_left_prefix_space)
    then have "p \<in> set utf8_spaces" "set p \<subseteq> set s" by (metis, metis set_append Un_upper1)
    then show False using assms by (fastforce simp: utf8_spaces_def)
  qed
  moreover have "trailing_space s = 0"
  proof (rule ccontr)
    assume "trailing_space s \<noteq> 0"
    then obtain p where "p \<in> set utf8_spaces" "suffix p s"
      by (auto simp: trailing_space_def find_Some_iff split: option.splits) (blast intro: nth_mem)
    then have "p \<in> set utf8_spaces" "set p \<subseteq> set s" by (auto dest: set_mono_suffix)
    then show False using assms by (fastforce simp: utf8_spaces_def)
  qed
  ultimately show ?thesis by (simp add: TrimSpace_def trim_right.simps [of s])
qed

lemma parse_encode:
  assumes "four_digit_year t" and "pkg_uuid_Parse pkg (pkg_uuid_String pkg u) = Some u"
    and "CHR ''|'' \<notin> set (pkg_uuid_String pkg u)"
  shows "parseCursor pkg (encodeCursor pkg t u) = Inr (Some t, Some u)"
proof -
  let ?s = "Format_RFC3339Nano t @ ''|'' @ pkg_uuid_String pkg u"
  have "TrimSpace (b64_encode ?s) = b64_encode ?s"
    by (rule TrimSpace_printable) (rule b64_encode_bytes)
  moreover have "Split CHR ''|'' ?s = [Format_RFC3339Nano t, pkg_uuid_String pkg u]"
    using Split_append [OF Format_no_bar [OF assms(1)]] Split_no_sep [OF assms(3)] by simp
  ultimately show ?thesis using Parse_Format [OF assms(1)] assms(2)
    by (simp add: parseCursor_def encodeCursor_def b64_decode_encode)
qed

section \<open>Properties\<close>

text \<open>C24: The list cursor round-trips: what the server hands out as \<open>next_cursor\<close> for the last
  order of a page it reads back as exactly that order's creation time, to the nanosecond, and
  id, for every instant of the years 0 to 9999 and every id whose text parses back.\<close>

theorem cursor_round_trip:
  assumes "four_digit_year t" and "pkg_uuid_Parse pkg (pkg_uuid_String pkg u) = Some u"
    and "CHR ''|'' \<notin> set (pkg_uuid_String pkg u)"
  shows "parseCursor pkg (encodeCursor pkg t u) = Inr (Some t, Some u)"
  using assms by (rule parse_encode)

definition demo_packages :: packages where
  "demo_packages =
     \<lparr>pkg_uuid_Parse = (\<lambda>s. if s = ''u9'' then Some 9 else if s = ''p1'' then Some 11
                           else if s = ''p2'' then Some 12 else if s = ''c7'' then Some 7
                           else if s = ''o102'' then Some 102 else None),
      pkg_uuid_String = (\<lambda>u. if u = 9 then ''u9'' else if u = 102 then ''o102'' else ''c7''),
      pkg_pgUUID_String = (\<lambda>u. case u of None \<Rightarrow> [] | Some _ \<Rightarrow> ''id'')\<rparr>"

lemma cursor_round_trip_witness:
  "parseCursor demo_packages (encodeCursor demo_packages 1700000000123456789 9) =
     Inr (Some 1700000000123456789, Some 9)"
  using cursor_round_trip [of 1700000000123456789 demo_packages 9]
  by (simp add: four_digit_year_def demo_packages_def)

text \<open>C25: The page limit: no value means 50; a value is accepted exactly when it is a decimal
  integer between 1 and 100, and then taken as it is, so the page size the repository gets
  is never zero, negative or larger than 100.\<close>

theorem list_limit_bounds:
  "(TrimSpace raw = [] \<longrightarrow> parseListLimit raw = Inr 50) \<and>
   (TrimSpace raw \<noteq> [] \<longrightarrow>
      (parseListLimit raw = Inr n \<longleftrightarrow> (\<exists>v. Atoi raw = Some v \<and> 1 \<le> v \<and> v \<le> 100 \<and> n = word_of_int v))) \<and>
   (parseListLimit raw = Inr n \<longrightarrow> 1 \<le> sint n \<and> sint n \<le> 100)"
proof -
  have "sint (word_of_int v :: int32) = v" if "1 \<le> v" "v \<le> 100" for v
    using that by (simp add: sint_sbintrunc' signed_take_bit_int_eq_self)
  then show ?thesis
    by (auto simp: parseListLimit_def defaultListLimit_def maxListLimit_def split: option.splits if_splits)
qed

lemma list_limit_bounds_witness: "parseListLimit ''100'' = Inr 100 \<and> parseListLimit ''101'' = Inl ''limit must be between 1 and 100''"
proof -
  have "TrimSpace ''100'' \<noteq> []" "Atoi ''100'' = Some 100" by code_simp+
  then have "parseListLimit ''100'' = Inr 100" using list_limit_bounds [of "''100''" 100] by auto
  moreover have "parseListLimit ''101'' = Inl ''limit must be between 1 and 100''" by code_simp
  ultimately show ?thesis by simp
qed

end
