(* ===== verification/DecodeLaws.thy ===== *)
theory DecodeLaws
  imports Decode
begin

text \<open>
  What strict decoding guarantees: the size limit, which errors a body can cause, and that
  an accepted body is one JSON object with known fields only whose request is valid.
\<close>

section \<open>The limit\<close>

definition decode_payload :: "'a fields \<Rightarrow> string \<Rightarrow> 'a \<Rightarrow> go_error + 'a" where
  "decode_payload fs payload dst =
     (case json_Decode True fs payload dst of
        Inl err \<Rightarrow> Inl (normalizeJSONDecodeError err)
      | Inr (x, rest) \<Rightarrow>
          if skip_space rest = [] then Inr x
          else Inl (Wrapped ErrMalformedJSON '': multiple JSON values''))"

lemma decodeJSONStrict_limit:
  assumes "0 \<le> sint n" and "sint n < 2 ^ 63 - 1"
  shows "decodeJSONStrict fs r n dst =
    (if sint n < int (length (rd_bytes r)) then Inl (Sentinel ErrRequestBodyTooLarge)
     else (case rd_error r of
             Some t \<Rightarrow> Inl (OtherError (''read request body: '' @ t))
           | None \<Rightarrow> decode_payload fs (rd_bytes r) dst))"
proof -
  have "sint (n + 1) = sint n + 1" using sint_sum [of n 1] assms by simp
  then have "nat (sint (n + 1)) = Suc (nat (sint n))" using assms(1) by simp
  moreover have "Suc (nat (sint n)) \<le> length (rd_bytes r) \<longleftrightarrow> sint n < int (length (rd_bytes r))"
    using assms(1) by linarith
  ultimately show ?thesis using assms(1)
    by (auto simp: decodeJSONStrict_def read_limited_def decode_payload_def min_def split: option.splits)
qed

lemma DefaultRequestBodyLimit_value: "sint DefaultRequestBodyLimit = 2 ^ 20"
  by (simp add: DefaultRequestBodyLimit_def push_bit_eq_mult)

lemmas decode_default_limit =
  decodeJSONStrict_limit [of DefaultRequestBodyLimit, unfolded DefaultRequestBodyLimit_value]

section \<open>The errors of a payload\<close>

definition payload_error :: "go_error \<Rightarrow> bool" where
  "payload_error e \<longleftrightarrow> (\<exists>t. e = Wrapped ErrMalformedJSON t \<or> e = Wrapped ErrUnknownJSONField t)"

lemma payload_error_simps [simp]:
  "payload_error (Wrapped ErrMalformedJSON t)" "payload_error (Wrapped ErrUnknownJSONField t)"
  by (simp_all add: payload_error_def)

lemma normalize_payload_error [simp]: "payload_error (normalizeJSONDecodeError err)"
  by (simp add: normalizeJSONDecodeError_def split: decode_error.splits)

lemma decode_payload_error: "decode_payload fs s x = Inl e \<Longrightarrow> payload_error e"
  by (auto simp: decode_payload_def split: sum.splits if_splits)

lemma find_field_set: "find_field fs k = Some f \<Longrightarrow> f \<in> set fs \<and> foldName (fst f) = foldName k"
  by (auto simp: find_field_def find_Some_iff split: option.splits)

lemma setting_Inr: "setting f r = Inr y \<longleftrightarrow> (\<exists>v. r = Inr v \<and> y = f v)"
  by (cases r) (auto simp: setting_def)

lemma ValidateUpdate_error: "ValidateUpdateOrderStatusRequest req = Inl e \<Longrightarrow> IsValidationError e"
  by (auto simp: ValidateUpdateOrderStatusRequest_def Let_def split: if_splits)

text \<open>Every way a decoding can fail under the default limit.\<close>

definition body_error :: "reader \<Rightarrow> go_error \<Rightarrow> bool" where
  "body_error r e \<longleftrightarrow>
     (if 2 ^ 20 < length (rd_bytes r) then e = Sentinel ErrRequestBodyTooLarge
      else (case rd_error r of
              Some t \<Rightarrow> e = OtherError (''read request body: '' @ t)
            | None \<Rightarrow> payload_error e \<or> IsValidationError e))"

lemma decode_body_error:
  assumes "decodeJSONStrict fs r DefaultRequestBodyLimit dst = Inl e"
  shows "body_error r e"
proof -
  have "2 ^ 20 < int (length (rd_bytes r)) \<longleftrightarrow> 2 ^ 20 < length (rd_bytes r)" by simp
  with assms decode_payload_error show ?thesis
    by (auto simp: decode_default_limit body_error_def split: option.splits if_splits)
qed

lemma decode_body_ok:
  assumes "decodeJSONStrict fs r DefaultRequestBodyLimit dst = Inr x"
  shows "length (rd_bytes r) \<le> 2 ^ 20" "rd_error r = None" "decode_payload fs (rd_bytes r) dst = Inr x"
proof -
  have "2 ^ 20 < int (length (rd_bytes r)) \<longleftrightarrow> 2 ^ 20 < length (rd_bytes r)" by simp
  with assms show "length (rd_bytes r) \<le> 2 ^ 20" "rd_error r = None" "decode_payload fs (rd_bytes r) dst = Inr x"
    by (auto simp: decode_default_limit split: option.splits if_splits)
qed

lemma validation_body_error: "decodeJSONStrict fs r DefaultRequestBodyLimit dst = Inr x \<Longrightarrow>
    IsValidationError e \<Longrightarrow> body_error r e"
  using decode_body_ok [of fs r dst x] by (auto simp: body_error_def)

lemma DecodeCreate_error:
  "DecodeCreateOrderRequest r DefaultRequestBodyLimit = Inl e \<Longrightarrow> body_error r e"
  by (auto simp: DecodeCreateOrderRequest_def dest: decode_body_error
      ValidateCreateOrderRequest_Inl validation_body_error split: sum.splits)

lemma DecodeUpdate_error:
  "DecodeUpdateOrderStatusRequest r DefaultRequestBodyLimit = Inl e \<Longrightarrow> body_error r e"
  by (auto simp: DecodeUpdateOrderStatusRequest_def dest: decode_body_error
      ValidateUpdate_error validation_body_error split: sum.splits)

lemma body_error_TooLarge: "body_error r e \<Longrightarrow>
    errors_Is e ErrRequestBodyTooLarge \<longleftrightarrow> 2 ^ 20 < length (rd_bytes r)"
  by (auto simp: body_error_def payload_error_def IsValidationError_not_Is split: if_splits option.splits)

section \<open>What an accepted body looks like\<close>

definition item_names :: "string list" where
  "item_names = [''product_id'', ''sku'', ''quantity'', ''unit_price_cents'']"

definition request_names :: "string list" where
  "request_names = [''idempotency_key'', ''currency'', ''items'']"

text \<open>Keys are compared as \<open>encoding/json\<close> does, without regard to case.\<close>

definition key_in :: "string list \<Rightarrow> string \<Rightarrow> bool" where
  "key_in names k \<longleftrightarrow> foldName k \<in> foldName ` set names"

fun item_known :: "json \<Rightarrow> bool" where
  "item_known (JObject ms) \<longleftrightarrow> list_all (\<lambda>m. key_in item_names (fst m)) ms"
| "item_known JNull \<longleftrightarrow> True"
| "item_known _ \<longleftrightarrow> False"

fun items_known :: "json \<Rightarrow> bool" where
  "items_known (JArray js) \<longleftrightarrow> list_all item_known js"
| "items_known JNull \<longleftrightarrow> True"
| "items_known _ \<longleftrightarrow> False"

definition members_known :: "(string \<times> json) list \<Rightarrow> bool" where
  "members_known ms \<longleftrightarrow>
     list_all (\<lambda>m. key_in request_names (fst m) \<and> (foldName (fst m) = foldName ''items'' \<longrightarrow> items_known (snd m))) ms"

lemma item_names_fields: "item_names = map fst item_fields"
  by (simp add: item_names_def item_fields_def)

lemma find_field_key_in: "find_field fs k = Some f \<Longrightarrow> key_in (map fst fs) k"
  by (auto dest!: find_field_set simp: key_in_def) (metis image_eqI)

lemma store_members_known:
  "store_members True fs path ms x = Inr y \<Longrightarrow> list_all (\<lambda>m. key_in (map fst fs) (fst m)) ms"
  by (induction ms arbitrary: x)
    (auto dest: find_field_key_in split: option.splits sum.splits prod.splits)

lemma store_item_known: "store_struct True item_fields path j x = Inr y \<Longrightarrow> item_known j"
  by (cases j) (auto simp: item_names_fields dest: store_members_known)

lemma store_elements_known: "store_elements path js b = Inr ys \<Longrightarrow> list_all item_known js"
  by (induction js arbitrary: b ys) (auto simp: setting_Inr dest: store_item_known split: sum.splits)

lemma store_items_known: "store_items path v st = Inr st' \<Longrightarrow> items_known v"
  by (cases v) (auto simp: setting_Inr dest: store_elements_known)

lemma items_field:
  assumes "find_field request_fields k = Some f" and "foldName k = foldName ''items''"
  shows "f = (''items'', store_items)"
proof -
  have "f \<in> set request_fields" "foldName (fst f) = foldName ''items''"
    using find_field_set [OF assms(1)] assms(2) by auto
  then show ?thesis by (auto simp: request_fields_def upper_byte_def)
qed

lemma store_request_known:
  "store_members True request_fields path ms x = Inr y \<Longrightarrow> members_known ms"
proof (induction ms arbitrary: x)
  case Nil
  show ?case by (simp add: members_known_def)
next
  case (Cons m ms)
  obtain k v where m: "m = (k, v)" by (cases m)
  with Cons.prems obtain f x' where f: "find_field request_fields k = Some f"
      "snd f (path @ [fst f]) v x = Inr x'" "store_members True request_fields path ms x' = Inr y"
    by (auto split: option.splits sum.splits prod.splits)
  have "foldName k = foldName ''items'' \<Longrightarrow> items_known v"
    using items_field [OF f(1)] f(2) by (auto dest: store_items_known)
  moreover have "key_in request_names k"
    using find_field_key_in [OF f(1)] by (simp add: request_names_def request_fields_def)
  moreover have "members_known ms" using f(3) by (rule Cons.IH)
  ultimately show ?case by (simp add: members_known_def m)
qed

section \<open>Properties\<close>

text \<open>C26: The size limit is exact: a body is refused as too large exactly when the client sends
  more than 1 MiB, whatever it contains, and then nothing of it is parsed; every other body
  is judged by its content.\<close>

theorem body_limit_enforced:
  "((\<exists>e. DecodeCreateOrderRequest r DefaultRequestBodyLimit = Inl e \<and> errors_Is e ErrRequestBodyTooLarge) \<longleftrightarrow>
     2 ^ 20 < length (rd_bytes r)) \<and>
   ((\<exists>e. DecodeUpdateOrderStatusRequest r DefaultRequestBodyLimit = Inl e \<and> errors_Is e ErrRequestBodyTooLarge) \<longleftrightarrow>
     2 ^ 20 < length (rd_bytes r))"
proof -
  have "2 ^ 20 < length (rd_bytes r) \<Longrightarrow>
      DecodeCreateOrderRequest r DefaultRequestBodyLimit = Inl (Sentinel ErrRequestBodyTooLarge) \<and>
      DecodeUpdateOrderStatusRequest r DefaultRequestBodyLimit = Inl (Sentinel ErrRequestBodyTooLarge)"
    by (simp add: DecodeCreateOrderRequest_def DecodeUpdateOrderStatusRequest_def decode_default_limit)
  then show ?thesis
    using body_error_TooLarge DecodeCreate_error DecodeUpdate_error by (metis errors_Is.simps(1))
qed

text \<open>C27: A create request that is accepted came as one JSON object and nothing after it, with
  no field outside the documented ones at either level, and it satisfies every validation
  rule.\<close>

theorem accepted_bodies_known_fields:
  assumes "DecodeCreateOrderRequest r DefaultRequestBodyLimit = Inr req"
  shows "request_ok req \<and> length (rd_bytes r) \<le> 2 ^ 20 \<and>
    (\<exists>ms rest. parse_json (rd_bytes r) = Scanned (JObject ms) rest \<and> skip_space rest = [] \<and> members_known ms)"
proof -
  from assms obtain st where dec: "decodeJSONStrict request_fields r DefaultRequestBodyLimit
      \<lparr>st_req = zero_request, st_spare = []\<rparr> = Inr st" and
    val: "ValidateCreateOrderRequest (st_req st) = Inr ()" and req: "req = st_req st"
    by (auto simp: DecodeCreateOrderRequest_def split: sum.splits)
  note ok = decode_body_ok [OF dec]
  have valid: "request_ok req" using val req by (simp add: ValidateCreateOrderRequest_Inr)
  from ok(3) obtain v rest where v: "parse_json (rd_bytes r) = Scanned v rest" "skip_space rest = []"
    "store_body True request_fields (rd_bytes r) rest v \<lparr>st_req = zero_request, st_spare = []\<rparr> = Inr st"
    by (auto simp: decode_payload_def json_Decode_def split: sum.splits if_splits scan.splits)
  have "v \<noteq> JNull" using v(3) valid req by (auto simp: store_body_def request_ok_def zero_request_def)
  then obtain ms where "v = JObject ms"
      "store_members True request_fields [] ms \<lparr>st_req = zero_request, st_spare = []\<rparr> = Inr st"
    using v(3) by (cases v) (auto simp: store_body_def)
  then show ?thesis using valid ok(1) v(1,2) store_request_known by blast
qed

definition quoted :: "string \<Rightarrow> string" where
  "quoted s = CHR 0x22 # s @ [CHR 0x22]"

definition demo_body :: string where
  "demo_body =
     ''{'' @ quoted ''idempotency_key'' @ '':'' @ quoted ''checkout'' @ '', '' @
     quoted ''currency'' @ '':'' @ quoted ''USD'' @ '','' @ quoted ''items'' @ '':[{'' @
     quoted ''product_id'' @ '':'' @ quoted ''p1'' @ '','' @ quoted ''sku'' @ '':'' @ quoted ''mug'' @ '','' @
     quoted ''quantity'' @ '':2,'' @ quoted ''unit_price_cents'' @ '':1250}]}''"

definition demo_reader :: reader where
  "demo_reader = \<lparr>rd_bytes = demo_body, rd_error = None\<rparr>"

definition demo_request :: CreateOrderRequest where
  "demo_request =
     \<lparr>Req_IdempotencyKey = ''checkout'', Req_Currency = ''USD'',
      Req_Items = [\<lparr>Item_ProductID = ''p1'', Item_SKU = ''mug'', Item_Quantity = 2,
                    Item_UnitPriceCents = 1250\<rparr>]\<rparr>"

lemma demo_payload:
  "decode_payload request_fields demo_body \<lparr>st_req = zero_request, st_spare = []\<rparr> =
     Inr \<lparr>st_req = demo_request, st_spare = []\<rparr>"
  "length demo_body < 200" "ValidateCreateOrderRequest demo_request = Inr ()"
  by code_simp+

lemma demo_decoded: "DecodeCreateOrderRequest demo_reader DefaultRequestBodyLimit = Inr demo_request"
proof -
  have "\<not> 2 ^ 20 < int (length demo_body)" using demo_payload(2) by simp
  then show ?thesis
    by (simp add: DecodeCreateOrderRequest_def decode_default_limit demo_reader_def demo_payload)
qed

lemma accepted_bodies_known_fields_witness: "request_ok demo_request"
  using accepted_bodies_known_fields [OF demo_decoded] by simp

end
