(* ===== verification/ApiLaws.thy ===== *)
theory ApiLaws
  imports App AuthLaws CursorLaws DecodeLaws
begin

text \<open>
  The HTTP interface as a whole: what a request may see and change, from the identity
  middleware through routing and handlers to the database.
\<close>

section \<open>The client's address\<close>

lemma last_colon_append: "CHR '':'' \<notin> set b \<Longrightarrow> last_colon (a @ CHR '':'' # b) = Some (length a)"
  by (simp add: last_colon_def dropWhile_append)

lemma show_v4_bytes:
  assumes "length bs = 4"
  shows "c \<in> set (show_v4 bs) \<Longrightarrow> c = CHR ''.'' \<or> is_digit c"
proof -
  from assms obtain b1 b2 b3 b4 where bs: "bs = [b1, b2, b3, b4]"
    by (auto simp: numeral_eq_Suc length_Suc_conv)
  have "c \<in> set (show_nat n) \<Longrightarrow> is_digit c" for n
    using show_nat_digits [of n] by (auto simp: list_all_iff)
  then show "c \<in> set (show_v4 bs) \<Longrightarrow> c = CHR ''.'' \<or> is_digit c"
    using bs by (auto simp: show_v4_def)
qed

text \<open>For a connection from an IPv4 address and any port, what the handlers pass down as the
  caller's address is that address, without the port.\<close>

lemma peer_address:
  assumes "length bs = 4" and "\<forall>b \<in> set bs. b \<le> 255"
    and "req_remote_addr r = Addr_String (V4 bs) @ '':'' @ show_nat port"
  shows "inetValue (requestIPAddress r) = Some (V4 bs)"
proof -
  let ?a = "show_v4 bs" and ?p = "show_nat port"
  have a: "c = CHR ''.'' \<or> is_digit c" if "c \<in> set ?a" for c using assms(1) that by (rule show_v4_bytes)
  have p: "is_digit c" if "c \<in> set ?p" for c
    using that show_nat_digits [of port] by (auto simp: list_all_iff)
  have addr: "ParseAddr ?a = Some (V4 bs)" using ParseAddr_show_v4 [OF assms(1,2)] by simp
  have "?a \<noteq> []" using assms(1) by (auto simp: show_v4_def numeral_eq_Suc length_Suc_conv)
  have trim: "TrimSpace ?a = ?a" "TrimSpace (?a @ '':'' @ ?p) = ?a @ '':'' @ ?p"
    using a p by (auto simp: is_digit_def intro!: TrimSpace_printable dest!: a p)
  have "CHR '':'' \<notin> set ?p" "CHR ''['' \<notin> set ?p" "CHR '']'' \<notin> set ?p"
    by (auto simp: is_digit_def dest!: p)
  moreover have "CHR '':'' \<notin> set ?a" "CHR ''['' \<notin> set ?a" "CHR '']'' \<notin> set ?a"
    by (auto simp: is_digit_def dest!: a)
  moreover from this(2) \<open>?a \<noteq> []\<close> have "hd ?a \<noteq> CHR ''[''" by (cases ?a) auto
  ultimately have "SplitHostPort (?a @ CHR '':'' # ?p) = Some (?a, ?p)"
    using \<open>?a \<noteq> []\<close> by (simp add: SplitHostPort_def last_colon_append)
  then have "requestIPAddress r = Some ?a"
    using trim addr \<open>?a \<noteq> []\<close> assms(3) by (simp add: requestIPAddress_def parseIPAddress_def Let_def)
  then show ?thesis using addr \<open>?a \<noteq> []\<close> by (simp add: inetValue_def)
qed

section \<open>Bodies\<close>

text \<open>C28: A body the client is responsible for is answered with 400, whatever is wrong with it:
  too large, malformed, unknown fields or a violated rule; only a body of admissible size
  that cannot be read at all counts as a failure of the server.\<close>

theorem bad_bodies_answer_400:
  assumes "DecodeCreateOrderRequest r DefaultRequestBodyLimit = Inl e \<or>
    DecodeUpdateOrderStatusRequest r DefaultRequestBodyLimit = Inl e"
  shows "resp_status (writeHandlerError e) =
    (if length (rd_bytes r) \<le> 2 ^ 20 \<and> rd_error r \<noteq> None then 500 else 400)"
proof -
  have "body_error r e" using assms DecodeCreate_error DecodeUpdate_error by blast
  then consider "bad_request_error e" "\<not> (length (rd_bytes r) \<le> 2 ^ 20 \<and> rd_error r \<noteq> None)"
    | t where "e = OtherError t" "length (rd_bytes r) \<le> 2 ^ 20 \<and> rd_error r \<noteq> None"
    by (auto simp: body_error_def bad_request_error_def payload_error_def split: if_splits option.splits)
  then show ?thesis
  proof cases
    case 1
    then show ?thesis by (simp add: writeHandlerError_codes)
  next
    case 2
    then show ?thesis
      by (simp add: writeHandlerError_def http_status_defs)
  qed
qed

lemma bad_bodies_answer_400_witness:
  "\<exists>e. DecodeCreateOrderRequest \<lparr>rd_bytes = ''{}'', rd_error = None\<rparr> DefaultRequestBodyLimit = Inl e \<and>
     resp_status (writeHandlerError e) = 400"
proof -
  have "decode_payload request_fields ''{}'' \<lparr>st_req = zero_request, st_spare = []\<rparr> =
      Inr \<lparr>st_req = zero_request, st_spare = []\<rparr>" by code_simp
  moreover obtain e where "ValidateCreateOrderRequest zero_request = Inl e"
    by (cases "ValidateCreateOrderRequest zero_request")
      (auto simp: ValidateCreateOrderRequest_Inr request_ok_def zero_request_def)
  ultimately have "DecodeCreateOrderRequest \<lparr>rd_bytes = ''{}'', rd_error = None\<rparr> DefaultRequestBodyLimit = Inl e"
    by (simp add: DecodeCreateOrderRequest_def decode_default_limit)
  with bad_bodies_answer_400 [of "\<lparr>rd_bytes = ''{}'', rd_error = None\<rparr>" e] show ?thesis by simp
qed

section \<open>Who sees and changes what\<close>

lemma context_identity [simp]:
  "RoleFromContext (WithIdentity r i) = Some (Id_Role i)"
  "RoleFromContext (r\<lparr>req_url_params := params\<rparr>) = RoleFromContext r"
  "CustomerIDFromContext (WithIdentity r i) =
     (if Id_HasCustomerID i then Some (Id_CustomerID i) else None)"
  by (simp_all add: RoleFromContext_def CustomerIDFromContext_def WithIdentity_def IdentityFromContext_def)

lemma RequireRole_identity:
  "IdentityFromContext r = Some i \<Longrightarrow>
     RequireRole roles h r s = (if Id_Role i \<in> set roles then h r s else (forbidden, s))"
  by (auto simp: RequireRole_def list_ex_iff)

text \<open>The router, told who the caller is, shows a customer's own orders or serves a privileged caller.\<close>

context order_api
begin

lemma routes_isolated:
  assumes "ok s" and "h_service h = Some svc" and id: "IdentityFromContext r = Some i"
    and quiet: "\<And>rs r resp. chi rs r = NotRouted resp \<Longrightarrow> response_orders resp = []"
    and x: "x \<in> set (response_orders (fst (chi_serve chi not_found_page (RegisterRoutes pkg h) r s)))"
  shows "(\<exists>cid. CustomerIDFromContext r = Some cid \<and> belongs pkg cid x) \<or> Id_Role i \<in> {RoleAdmin, RoleSystem}"
proof (cases rule: chi_serve_cases [of chi not_found_page "RegisterRoutes pkg h" r s])
  case (refused resp)
  then have "response_orders resp = []" using quiet by (auto simp: not_found_page_def response_orders_def)
  with refused x show ?thesis by simp
next
  case (served k params)
  let ?r = "r\<lparr>req_url_params := params\<rparr>"
  have id': "IdentityFromContext ?r = Some i" "CustomerIDFromContext ?r = CustomerIDFromContext r"
    using id by simp_all
  from served x have x: "x \<in> set (response_orders (fst (snd (snd (RegisterRoutes pkg h ! k)) ?r s)))" by simp
  from RegisterRoutes_nth [OF served(1)] consider
    "snd (snd (RegisterRoutes pkg h ! k)) = Handler_CreateOrder pkg h"
    | "snd (snd (RegisterRoutes pkg h ! k)) = Handler_ListOrders pkg h"
    | "snd (snd (RegisterRoutes pkg h ! k)) = Handler_GetOrder pkg h"
    | "snd (snd (RegisterRoutes pkg h ! k)) = Handler_CancelOrder pkg h"
    | "snd (snd (RegisterRoutes pkg h ! k)) = RequireRole [RoleAdmin, RoleSystem] (Handler_UpdateOrderStatus pkg h)"
    by blast
  then show ?thesis
  proof cases
    case 1
    with x create_isolated [OF assms(1,2), of x pkg ?r] id'(2) show ?thesis by simp
  next
    case 2
    with x list_isolated [OF assms(1,2), of x pkg ?r] id'(2) show ?thesis by simp
  next
    case 3
    with x get_isolated [OF assms(1,2), of x pkg ?r] id'(2) show ?thesis by simp
  next
    case 4
    with x cancel_isolated [OF assms(1,2), of x pkg ?r] id'(2) show ?thesis by simp
  next
    case 5
    with x show ?thesis by (auto simp: RequireRole_identity [OF id'(1)] split: if_splits)
  qed
qed

end

text \<open>C18: Customers see their own orders only: whatever mode authenticates the caller, each order
  in a response of the order routes either belongs to the customer whose identity the
  middleware established for this very request, or the caller is an administrator or the
  system.  (The router's own refusals are assumed to contain no orders.)\<close>

theorem customers_see_own_orders:
  assumes "good w" and "newIdentityMiddleware (pkg_uuid_Parse pkg) nv client cfg = Inr mw"
    and "\<And>rs r resp. chi rs r = NotRouted resp \<Longrightarrow> response_orders resp = []"
    and "h = NewHandler (Some (service_methods (pkg_uuid_Parse pkg) pg_service))"
    and "x \<in> set (response_orders (fst (orders_router chi pkg h mw r w)))"
  shows "\<exists>i. identity_ok i \<and> (\<forall>next. mw next r w = next (WithIdentity r i) w) \<and>
    ((Id_HasCustomerID i \<and> Res_CustomerID x = pkg_pgUUID_String pkg (Some (Id_CustomerID i))) \<or>
     Id_Role i \<in> {RoleAdmin, RoleSystem})"
proof -
  from assms(2) obtain authenticate where a: "authenticator mw authenticate"
    by (rule newIdentityMiddleware_authenticator)
  show ?thesis
  proof (cases "authenticate w r")
    case None
    with a assms(5) show ?thesis by (simp add: authenticator.orders_router_refuses)
  next
    case (Some i)
    have svc: "h_service h = Some (service_methods (pkg_uuid_Parse pkg) pg_service)"
      using assms(4) by (simp add: NewHandler_def)
    have x: "x \<in> set (response_orders (fst (chi_serve chi not_found_page (RegisterRoutes pkg h)
        (WithIdentity r i) w)))"
      using assms(5) Some a by (simp add: authenticator.orders_router_admits)
    have "(\<exists>cid. CustomerIDFromContext (WithIdentity r i) = Some cid \<and> api.belongs pkg cid x) \<or>
        Id_Role i \<in> {RoleAdmin, RoleSystem}"
      using assms(1) svc _ assms(3) x by (rule api.routes_isolated) simp_all
    moreover have "identity_ok i" "\<forall>next. mw next r w = next (WithIdentity r i) w"
      using Some a by (simp_all add: authenticator.admitted authenticator.authenticated_ok)
    ultimately show ?thesis by (intro exI [of _ i]) (auto simp: api.belongs_def split: if_splits)
  qed
qed

text \<open>A customer asks for one of its orders in development mode.\<close>

definition demo_chi :: "nat \<Rightarrow> (string \<rightharpoonup> string) \<Rightarrow> chi" where
  "demo_chi k params = (\<lambda>_ _. Routed k params)"

definition dev_config :: auth_Config where
  "dev_config = locked_config\<lparr>Auth_Mode := ModeDev\<rparr>"

definition dev_header :: "string \<Rightarrow> string \<Rightarrow> header" where
  "dev_header role customer =
     [''X-Oms-Role'' \<mapsto> [role], ''X-Oms-Customer-Id'' \<mapsto> [customer]]"

definition demo_handler :: "world Handler" where
  "demo_handler = NewHandler (Some (service_methods (pkg_uuid_Parse demo_packages) pg_service))"

lemma newIdentityMiddleware_dev:
  "newIdentityMiddleware up nv client dev_config = Inr (IdentityMiddleware up ModeDev)"
  by (simp add: newIdentityMiddleware_def dev_config_def ModeLocked_def ModeDev_def)

definition demo_get :: http_request where
  "demo_get = plain_request (dev_header ''CUSTOMER'' ''c7'')"

definition demo_answer :: http_response where
  "demo_answer = fst (orders_router (demo_chi 2 [''order_id'' \<mapsto> ''o102'']) demo_packages demo_handler
     (IdentityMiddleware (pkg_uuid_Parse demo_packages) ModeDev) demo_get demo_run)"

lemma demo_shown: "map Res_TotalCents (response_orders demo_answer) = [3400]"
  by code_simp

lemma good_demo_run: "good demo_run"
  unfolding demo_run_def by (rule run_start_good) (rule rely_calm)

lemma customers_see_own_orders_witness:
  "\<exists>x \<in> set (response_orders demo_answer). \<exists>i. identity_ok i \<and>
     ((Id_HasCustomerID i \<and> Res_CustomerID x = pkg_pgUUID_String demo_packages (Some (Id_CustomerID i))) \<or>
      Id_Role i \<in> {RoleAdmin, RoleSystem})"
proof -
  define xs where "xs = response_orders demo_answer"
  from demo_shown have "map Res_TotalCents xs = [3400]" by (simp only: xs_def)
  then obtain x where x: "x \<in> set xs" by (cases xs) auto
  have "\<exists>i. identity_ok i \<and>
    (\<forall>next. IdentityMiddleware (pkg_uuid_Parse demo_packages) ModeDev next demo_get demo_run =
       next (WithIdentity demo_get i) demo_run) \<and>
    ((Id_HasCustomerID i \<and> Res_CustomerID x = pkg_pgUUID_String demo_packages (Some (Id_CustomerID i))) \<or>
     Id_Role i \<in> {RoleAdmin, RoleSystem})"
    by (rule customers_see_own_orders [OF good_demo_run newIdentityMiddleware_dev _ demo_handler_def
        x [unfolded xs_def demo_answer_def]]) (simp add: demo_chi_def)
  with x show ?thesis unfolding xs_def by blast
qed

text \<open>C19: Status updates are for administrators and the system: a request the router sends to the
  update route is answered with 401 when no identity is established, with 403 and no change
  when the caller has another role, and reaches the handler otherwise.\<close>

theorem status_update_needs_privilege:
  assumes "newIdentityMiddleware up nv client cfg = Inr mw"
    and "\<And>i. chi (map (\<lambda>(m, p, _). (m, p)) (RegisterRoutes pkg h)) (WithIdentity r i) = Routed 4 params"
  shows "orders_router chi pkg h mw r s = (unauthorized, s) \<or>
    (\<exists>i. (\<forall>next. mw next r s = next (WithIdentity r i) s) \<and>
       orders_router chi pkg h mw r s =
         (if Id_Role i \<in> {RoleAdmin, RoleSystem}
          then Handler_UpdateOrderStatus pkg h ((WithIdentity r i)\<lparr>req_url_params := params\<rparr>) s
          else (forbidden, s)))"
proof -
  from assms(1) obtain authenticate where a: "authenticator mw authenticate"
    by (rule newIdentityMiddleware_authenticator)
  show ?thesis
  proof (cases "authenticate s r")
    case None
    with a show ?thesis by (simp add: authenticator.orders_router_refuses)
  next
    case (Some i)
    let ?r = "(WithIdentity r i)\<lparr>req_url_params := params\<rparr>"
    have "IdentityFromContext ?r = Some i" by simp
    moreover have "orders_router chi pkg h mw r s =
        RequireRole [RoleAdmin, RoleSystem] (Handler_UpdateOrderStatus pkg h) ?r s"
      using authenticator.orders_router_admits [OF a Some, of chi pkg h] assms(2) [of i]
      by (simp add: chi_serve_def RegisterRoutes_def)
    ultimately show ?thesis using Some a
      by (intro disjI2 exI [of _ i]) (simp add: RequireRole_identity authenticator.admitted)
  qed
qed

lemma status_update_needs_privilege_witness:
  "orders_router (demo_chi 4 Map.empty) demo_packages (NewHandler None)
     (IdentityMiddleware (pkg_uuid_Parse demo_packages) ModeDev) demo_get (5 :: nat) = (forbidden, 5)"
proof -
  let ?mw = "IdentityMiddleware (pkg_uuid_Parse demo_packages) ModeDev :: nat middleware"
  let ?role = "\<lambda>r (s :: nat). (if RoleFromContext r = Some RoleCustomer then forbidden else unauthorized, s)"
  have role: "?mw ?role demo_get 5 = (forbidden, 5)" by code_simp
  have ne: "forbidden \<noteq> unauthorized" using forbidden_status unauthorized_status by force
  have customer: "Id_Role i = RoleCustomer"
    if "\<And>next. ?mw next demo_get 5 = next (WithIdentity demo_get i) 5" for i
    using that [of ?role] role ne by (auto split: if_splits)
  let ?h = "orders_router (demo_chi 4 Map.empty) demo_packages (NewHandler None) ?mw demo_get (5 :: nat)"
  have status: "resp_status (fst ?h) = 403" by code_simp
  have "?h = (unauthorized, 5) \<or>
    (\<exists>i. (\<forall>next. ?mw next demo_get 5 = next (WithIdentity demo_get i) 5) \<and>
       ?h = (if Id_Role i \<in> {RoleAdmin, RoleSystem}
          then Handler_UpdateOrderStatus demo_packages (NewHandler None)
            ((WithIdentity demo_get i)\<lparr>req_url_params := Map.empty\<rparr>) 5
          else (forbidden, 5)))"
    by (rule status_update_needs_privilege [OF newIdentityMiddleware_dev]) (simp add: demo_chi_def)
  then show ?thesis
  proof (elim disjE exE conjE)
    assume "?h = (unauthorized, 5)"
    with status show ?thesis by simp
  next
    fix i assume "\<forall>next. ?mw next demo_get 5 = next (WithIdentity demo_get i) 5"
      and h: "?h = (if Id_Role i \<in> {RoleAdmin, RoleSystem}
          then Handler_UpdateOrderStatus demo_packages (NewHandler None)
            ((WithIdentity demo_get i)\<lparr>req_url_params := Map.empty\<rparr>) 5
          else (forbidden, 5))"
    then have "Id_Role i = RoleCustomer" by (intro customer) blast
    with h show ?thesis by (simp add: role_defs)
  qed
qed

end
