(* ===== verification/ProcessLaws.thy ===== *)
theory ProcessLaws
  imports ApiLaws
begin

text \<open>
  The running process: the background worker never overlaps with itself and stops, the
  process shuts down cleanly, every reachable state of process and database keeps the
  data's integrity, and what a configuration that loads guarantees.
\<close>

lemma two_steps: "R a b \<Longrightarrow> R b c \<Longrightarrow> R\<^sup>*\<^sup>* a c"
  by (blast intro: converse_rtranclp_into_rtranclp)

section \<open>The worker\<close>

text \<open>C32: The worker's runs exclude each other: in every reachable state, however ticks, runs,
  cancellation and other sessions interleave, at most one run is before its release of the
  running flag, a run is under way only when the flag is set, the wait group counts exactly
  the runs that have not finished, and none is left once \<open>Run\<close> has returned.\<close>

theorem worker_runs_exclusive:
  assumes "(system_step svc n others)\<^sup>*\<^sup>* (worker_start s) t"
  shows "holders (wk_runs t) \<le> 1 \<and> (holders (wk_runs t) = 1 \<longrightarrow> wk_isRunning t) \<and>
    wk_activeRuns t = length (wk_runs t) \<and> (wk_phase t = Returned \<longrightarrow> wk_runs t = [])"
proof -
  have "worker_inv t" using assms worker_inv_start by (rule worker.steps_inv)
  then show ?thesis by (simp add: worker_inv_def split: if_splits)
qed

definition idle_service :: "nat workerService" where
  "idle_service = \<lparr>ws_ProcessPendingOrdersBatch = (\<lambda>_ s. (Inr [], s))\<rparr>"

definition busy_worker :: "nat worker_state" where
  "busy_worker = (worker_start 0)\<lparr>wk_isRunning := True, wk_activeRuns := 1, wk_runs := [Called]\<rparr>"

lemma busy_worker_reached: "(system_step idle_service 1 (=))\<^sup>*\<^sup>* (worker_start 0) busy_worker"
proof -
  let ?mid = "(worker_start (0::nat))\<lparr>wk_isRunning := True, wk_phase := Launching\<rparr>"
  have "worker_tick (worker_start 0) ?mid"
    by (rule tick_taken) (simp_all add: worker_start_def)
  moreover have "worker_own idle_service 1 ?mid busy_worker"
    using launch [of ?mid idle_service 1] by (simp add: busy_worker_def worker_start_def)
  ultimately show ?thesis by (intro two_steps [of _ _ ?mid]) (simp_all add: system_step_def worker_step_def)
qed

lemma worker_runs_exclusive_witness: "holders (wk_runs busy_worker) \<le> 1 \<and> wk_activeRuns busy_worker = 1"
  using worker_runs_exclusive [OF busy_worker_reached] by (simp add: busy_worker_def worker_start_def)

text \<open>C33: A worker that has been told to stop does stop: from any reachable state whose context
  is done, whatever its loop is at (in its \<open>select\<close>, about to start a run, or waiting),
  the steps its goroutines take are at most the work that is left plus four for each tick it
  still takes; until \<open>Run\<close> has returned they always have a step to take that needs neither a
  tick nor anyone else; and once it has returned, every run has finished and no step is left.\<close>

theorem told_worker_stops:
  assumes "(system_step svc n others)\<^sup>*\<^sup>* (worker_start s0) s" and "wk_ctxDone s"
    and "run_of (worker_own svc n) worker_tick (world_step others) s k m t"
  shows "k \<le> work_left s + 4 * m \<and> (wk_phase t = Returned \<or> (\<exists>u. worker_own svc n t u)) \<and>
    (wk_phase t = Returned \<longrightarrow> wk_runs t = [] \<and> (\<nexists>u. worker_step svc n t u))"
proof -
  have "worker_inv s" using assms(1) worker_inv_start by (rule worker.steps_inv)
  then have "told s" using assms(2) by (simp add: told_def)
  note bound = stopping_worker.run_bound [OF assms(3) this] and moves = stopping_worker.run_moves [OF assms(3) this]
  from bound have inv: "worker_inv t" by (simp add: told_def)
  have "\<nexists>u. worker_step svc n t u" "wk_runs t = []" if "wk_phase t = Returned"
    using returned_stays [OF inv that] inv that by (simp_all add: worker_inv_def)
  with bound moves show ?thesis by simp
qed

text \<open>The worker is cancelled right after it took a tick, and its run is still to be started.\<close>

definition told_worker :: "nat worker_state" where
  "told_worker = (worker_start 0)\<lparr>wk_ctxDone := True, wk_isRunning := True, wk_phase := Launching\<rparr>"

lemma told_worker_reached: "(system_step idle_service 1 (=))\<^sup>*\<^sup>* (worker_start 0) told_worker"
proof -
  let ?mid = "(worker_start (0::nat))\<lparr>wk_isRunning := True, wk_phase := Launching\<rparr>"
  have "worker_tick (worker_start 0) ?mid"
    by (rule tick_taken) (simp_all add: worker_start_def)
  moreover have "world_step (=) ?mid told_worker"
    using cancel [of "(=)" ?mid] by (simp add: told_worker_def worker_start_def)
  ultimately show ?thesis by (intro two_steps [of _ _ ?mid]) (simp_all add: system_step_def worker_step_def)
qed

lemma told_worker_stops_witness:
  "\<exists>k t. run_of (worker_own idle_service 1) worker_tick (world_step (=)) told_worker k 0 t \<and>
     wk_phase t = Returned \<and> wk_runs t = [] \<and> k \<le> 6"
proof -
  have "told told_worker" by (simp add: told_def told_worker_def worker_start_def worker_inv_def)
  from stopping_worker.stops_alone [OF this] obtain t where
    steps: "(worker_own idle_service 1)\<^sup>*\<^sup>* told_worker t" and t: "wk_phase t = Returned" by auto
  from own_run [OF steps, of worker_tick "world_step (=)"] obtain k where
    k: "run_of (worker_own idle_service 1) worker_tick (world_step (=)) told_worker k 0 t" by (elim exE)
  have "wk_ctxDone told_worker" "work_left told_worker = 6"
    by (simp_all add: told_worker_def worker_start_def work_left_def)
  with told_worker_stops [OF told_worker_reached _ k] k t show ?thesis by auto
qed

section \<open>The process\<close>

text \<open>C35: A clean exit is quiet: when \<open>main\<close> has returned after joining, the server accepts no
  more requests and has answered all it accepted, the worker's loop has returned, no run is
  under way, and the worker cannot take another step.\<close>

theorem clean_exit_is_quiet:
  assumes "(process_step h svc n)\<^sup>*\<^sup>* (process_start wk s) p" and "pr_main p = ExitedClean"
  shows "\<not> pr_serving p \<and> pr_inflight p = 0 \<and> wk_phase (pr_worker p) = Returned \<and>
    wk_runs (pr_worker p) = [] \<and> (\<nexists>w. worker_step svc n (pr_worker p) w)"
proof -
  have inv: "process_inv p" using assms(1) process_inv_start by (rule process.steps_inv)
  then have w: "worker_inv (pr_worker p)" "wk_phase (pr_worker p) = Returned" "\<not> pr_serving p" "pr_inflight p = 0"
    using assms(2) by (simp_all add: process_inv_def)
  then have "wk_runs (pr_worker p) = []" by (simp add: worker_inv_def)
  with w returned_stays [OF w(1,2)] show ?thesis by blast
qed

definition idle_worker :: "nat Worker" where
  "idle_worker = NewWorker (Some idle_service) 1"

definition no_handler :: "nat handler" where
  "no_handler r s = (not_found_page, s)"

text \<open>The server fails while a request is in flight: \<open>main\<close> has an error to receive, and there
  is no signal.\<close>

definition failed_server :: "nat process" where
  "failed_server =
     (process_start idle_worker 0)\<lparr>pr_inflight := 1, pr_serving := False, pr_errors := [''listen tcp'']\<rparr>"

lemma process_start_idle: "process_start idle_worker s =
    \<lparr>pr_main = MainSelecting, pr_serving = True, pr_inflight = 0, pr_errors = [], pr_signal = False,
     pr_worker = worker_start s\<rparr>"
  by (simp add: process_start_def idle_worker_def Run_error_def NewWorker_def)

lemma failed_server_reached:
  "(process_step h idle_service 1)\<^sup>*\<^sup>* (process_start idle_worker 0) failed_server"
proof -
  let ?p = "process_start idle_worker (0::nat)"
  let ?q = "?p\<lparr>pr_inflight := pr_inflight ?p + 1\<rparr>"
  have "process_arrival ?p ?q" by (rule accept) (simp add: process_start_idle)
  moreover have "process_event ?q failed_server"
    using server_fails [of ?q "''listen tcp''"] by (simp add: failed_server_def process_start_idle)
  ultimately show ?thesis by (intro two_steps [of _ _ ?q]) (simp_all add: process_step_def)
qed

text \<open>By its own steps a process only exits cleanly.\<close>

lemma own_steps_not_early:
  "(process_own h svc n)\<^sup>*\<^sup>* p q \<Longrightarrow> pr_main p \<noteq> ExitedEarly \<Longrightarrow> pr_main q \<noteq> ExitedEarly"
  by (induction rule: rtranclp_induct) (auto elim!: process_ownE)

lemma own_steps_exit:
  assumes "process_inv p" and "asked_to_stop p" and "pr_main p \<noteq> ExitedEarly"
  shows "\<exists>q. (process_own h svc n)\<^sup>*\<^sup>* p q \<and> pr_main q = ExitedClean"
  using stopping_process.stops_alone [of p h svc n] assms own_steps_not_early [of h svc n p]
  by (auto simp: exited_def)

lemma own_steps_are_steps: "(process_own h svc n)\<^sup>*\<^sup>* p q \<Longrightarrow> (process_step h svc n)\<^sup>*\<^sup>* p q"
  by (rule mono_rtranclp [rule_format, of "process_own h svc n"]) (simp_all add: process_step_def)

lemma clean_exit_is_quiet_witness:
  "\<exists>p. (process_step no_handler idle_service 1)\<^sup>*\<^sup>* (process_start idle_worker (0::nat)) p \<and>
     pr_main p = ExitedClean \<and> wk_runs (pr_worker p) = []"
proof -
  note reached = failed_server_reached [of no_handler]
  have "process_inv failed_server" using reached process_inv_start by (rule process.steps_inv)
  moreover have "asked_to_stop failed_server" "pr_main failed_server \<noteq> ExitedEarly"
    by (simp_all add: failed_server_def process_start_idle asked_to_stop_def)
  ultimately obtain p where "(process_own no_handler idle_service 1)\<^sup>*\<^sup>* failed_server p"
    and exit: "pr_main p = ExitedClean" using own_steps_exit by blast
  with reached have p: "(process_step no_handler idle_service 1)\<^sup>*\<^sup>* (process_start idle_worker 0) p"
    by (blast intro: rtranclp_trans own_steps_are_steps)
  from clean_exit_is_quiet [OF p exit] p exit show ?thesis by blast
qed

text \<open>C34: A process that is asked to stop does exit: from any reachable state in which a signal
  has arrived, a component has reported an error or \<open>main\<close> has left its \<open>select\<close>, the steps of
  \<open>main\<close>, the handlers and the worker are at most the work that is left plus four for each
  tick or request that still arrives, and until \<open>main\<close> has returned there always is such a
  step, which needs no tick, no request and no further signal; unless the shutdown's time
  runs out, these steps alone lead to the clean exit.\<close>

theorem stopping_process_exits:
  assumes "(process_step h svc n)\<^sup>*\<^sup>* (process_start wk s) p"
    and "pr_signal p \<or> pr_errors p \<noteq> [] \<or> pr_main p \<noteq> MainSelecting"
    and "run_of (process_own h svc n) process_arrival process_event p k m q"
  shows "k \<le> process_work p + 4 * m \<and>
    (pr_main q \<in> {ExitedClean, ExitedEarly} \<or> (\<exists>r. process_own h svc n q r)) \<and>
    (pr_main q \<noteq> ExitedEarly \<longrightarrow> (\<exists>r. (process_own h svc n)\<^sup>*\<^sup>* q r \<and> pr_main r = ExitedClean))"
proof -
  have "process_inv p" using assms(1) process_inv_start by (rule process.steps_inv)
  then have p: "process_inv p \<and> asked_to_stop p" using assms(2) by (simp add: asked_to_stop_def)
  note bound = stopping_process.run_bound [OF assms(3) p]
  moreover have "exited q \<or> (\<exists>r. process_own h svc n q r)" using assms(3) p by (rule stopping_process.run_moves)
  moreover from bound have "pr_main q \<noteq> ExitedEarly \<longrightarrow>
      (\<exists>r. (process_own h svc n)\<^sup>*\<^sup>* q r \<and> pr_main r = ExitedClean)" using own_steps_exit by blast
  ultimately show ?thesis by (auto simp: exited_def)
qed

lemma stopping_process_exits_witness:
  "\<not> pr_signal failed_server \<and>
   (\<exists>q. (process_own no_handler idle_service 1)\<^sup>*\<^sup>* failed_server q \<and> pr_main q = ExitedClean)"
proof -
  have asked: "pr_signal failed_server \<or> pr_errors failed_server \<noteq> [] \<or> pr_main failed_server \<noteq> MainSelecting"
    by (simp add: failed_server_def)
  from stopping_process_exits [OF failed_server_reached asked run_start, of no_handler]
  show ?thesis by (simp add: failed_server_def process_start_idle)
qed

section \<open>Integrity of the data under the whole process\<close>

lemma process_step_leads:
  assumes step: "process_step h (batch_methods pg_service) n p q" and ok: "good (wk_store (pr_worker p))"
    and h: "\<And>r w. good w \<Longrightarrow> leads w (snd (h r w))"
  shows "leads (wk_store (pr_worker p)) (wk_store (pr_worker q))"
proof -
  have worker: "leads (wk_store (pr_worker p)) (wk_store w)"
    if "worker_step (batch_methods pg_service) n (pr_worker p) w" for w
    using that ok by (intro pg_worker.system_step_grows [where n = n]) (simp_all add: system_step_def)
  from step show ?thesis unfolding process_step_def
    by (elim disjE process_ownE process_arrivalE process_eventE)
      (use ok h worker in \<open>simp_all add: worker_step_def\<close>)
qed

lemma process_steps_lead:
  assumes "(process_step h (batch_methods pg_service) n)\<^sup>*\<^sup>* p q" and "good (wk_store (pr_worker p))"
    and h: "\<And>r w. good w \<Longrightarrow> leads w (snd (h r w))"
  shows "leads (wk_store (pr_worker p)) (wk_store (pr_worker q))"
  using assms(1,2)
proof (induction rule: rtranclp_induct)
  case (step u v)
  then have "leads (wk_store (pr_worker p)) (wk_store (pr_worker u))" by simp
  moreover from this step.prems have "good (wk_store (pr_worker u))" by (rule leads_good)
  ultimately show ?case using process_step_leads [OF step.hyps(2) _ h] leads_trans by blast
qed simp

lemma start_components_Inr:
  assumes "start_components chi pkg sur = Inr co"
  obtains cfg mw where "newIdentityMiddleware (pkg_uuid_Parse pkg) (sur_newVerifier sur) (sur_client sur)
      (Cfg_AuthConfig cfg) = Inr mw"
    and "LoadConfig (sur_map_order sur) (sur_getenv sur) = Inr cfg" and "co_config co = cfg"
    and "srv_Handler (co_server co) = root_router chi pkg
      (NewHandler (Some (service_methods (pkg_uuid_Parse pkg) pg_service))) mw"
  using assms
  by (auto simp: start_components_def NewIdentityMiddleware_def NewHTTPServer_def Let_def split: sum.splits)

lemma server_leads:
  assumes "start_components chi pkg sur = Inr co" and "good w"
  shows "leads w (snd (srv_Handler (co_server co) r w))"
proof -
  from assms(1) obtain cfg mw where mw: "newIdentityMiddleware (pkg_uuid_Parse pkg) (sur_newVerifier sur)
      (sur_client sur) (Cfg_AuthConfig cfg) = Inr mw"
    and "LoadConfig (sur_map_order sur) (sur_getenv sur) = Inr cfg" and "co_config co = cfg"
    and h: "srv_Handler (co_server co) = root_router chi pkg
      (NewHandler (Some (service_methods (pkg_uuid_Parse pkg) pg_service))) mw"
    by (rule start_components_Inr)
  from mw obtain authenticate where "authenticator mw authenticate"
    by (rule newIdentityMiddleware_authenticator)
  then show ?thesis unfolding h using assms(2) by (intro api.server_grows) (simp_all add: NewHandler_def)
qed

text \<open>C6: Whatever requests arrive at the server \<open>main\<close> starts, in whatever order they and the
  worker's runs interleave, and whatever faults and other sessions do, every state the
  process reaches has an intact database: keys and references hold, every total matches its
  items, every history replays to its order's status; and between two such states the
  database only grew along legal moves.\<close>

theorem process_keeps_integrity:
  assumes "start_components chi pkg sur = Inr co" and "rely E"
    and "(process_step (srv_Handler (co_server co)) (batch_methods pg_service) n)\<^sup>*\<^sup>*
           (process_start wk (start E)) p"
    and "(process_step (srv_Handler (co_server co)) (batch_methods pg_service) n)\<^sup>*\<^sup>* p q"
  shows "tables_ok (w_db (wk_store (pr_worker p))) \<and>
    extends (w_db (wk_store (pr_worker p))) (w_db (wk_store (pr_worker q)))"
proof -
  have s: "wk_store (pr_worker (process_start wk (start E))) = start E"
    by (simp add: process_start_def worker_start_def split: option.splits)
  have g: "good (start E)" using assms(2) by (rule start_good)
  have lead: "\<And>r w. good w \<Longrightarrow> leads w (snd (srv_Handler (co_server co) r w))"
    using assms(1) by (rule server_leads)
  have "leads (start E) (wk_store (pr_worker p))"
    using process_steps_lead [OF assms(3) _ lead] s g by simp
  then have p: "good (wk_store (pr_worker p))" using g by (rule leads_good)
  have "leads (wk_store (pr_worker p)) (wk_store (pr_worker q))"
    using assms(4) p lead by (rule process_steps_lead)
  with p show ?thesis by (auto simp: good_def intro: leads_extends)
qed

definition demo_env :: getenv where
  "demo_env name =
     (if name = ''DATABASE_URL'' then ''postgres://db'' else if name = ''OMS_AUTH_MODE'' then ''dev'' else [])"

definition demo_surroundings :: "world surroundings" where
  "demo_surroundings =
     \<lparr>sur_getenv = demo_env, sur_map_order = id, sur_client = (\<lambda>_. Inl []), sur_newVerifier = (\<lambda>_ _ _. Inl []),
      sur_newPool = (\<lambda>_. Inr ()), sur_Ping = Inr ()\<rparr>"

lemma demo_starts: "\<exists>co. start_components (demo_chi 0 Map.empty) demo_packages demo_surroundings = Inr co"
proof -
  have "isl (LoadConfig id demo_env) = False" by code_simp
  then obtain cfg where cfg: "LoadConfig id demo_env = Inr cfg" by (cases "LoadConfig id demo_env") auto
  have "load_auth_mode demo_env = Inr ModeDev" by code_simp
  with cfg have "Auth_Mode (Cfg_AuthConfig cfg) = ModeDev"
    by (auto simp: LoadConfig_def loadAuthConfig_def zero_auth_config_def ModeDev_def ModeJWT_def
        split: sum.splits if_splits)
  then have "newIdentityMiddleware up nv client (Cfg_AuthConfig cfg) = Inr (IdentityMiddleware up ModeDev)"
    for up client and nv :: "string \<Rightarrow> world \<Rightarrow> string \<Rightarrow> string + IDToken"
    by (simp add: newIdentityMiddleware_def ModeDev_def ModeLocked_def)
  with cfg show ?thesis
    by (simp add: start_components_def demo_surroundings_def NewIdentityMiddleware_def pingDatabase_def Let_def)
qed

lemma process_keeps_integrity_witness:
  "\<exists>co. start_components (demo_chi 0 Map.empty) demo_packages demo_surroundings = Inr co \<and>
     tables_ok (w_db (snd (srv_Handler (co_server co) demo_get (start calm_env))))"
proof -
  obtain co where co: "start_components (demo_chi 0 Map.empty) demo_packages demo_surroundings = Inr co"
    using demo_starts by blast
  let ?h = "srv_Handler (co_server co)"
  let ?p = "process_start (co_worker co) (start calm_env)"
  let ?q = "?p\<lparr>pr_inflight := pr_inflight ?p + 1\<rparr>"
  let ?r = "?q\<lparr>pr_inflight := pr_inflight ?q - 1,
    pr_worker := (pr_worker ?q)\<lparr>wk_store := snd (?h demo_get (wk_store (pr_worker ?q)))\<rparr>\<rparr>"
  have s: "wk_store (pr_worker ?p) = start calm_env" "pr_serving ?p"
    by (simp_all add: process_start_def worker_start_def split: option.splits)
  have "process_arrival ?p ?q" using s(2) by (rule accept)
  moreover have "process_own ?h (batch_methods pg_service) 1 ?q ?r" by (rule request) simp
  ultimately have steps: "(process_step ?h (batch_methods pg_service) 1)\<^sup>*\<^sup>* ?p ?r"
    by (intro two_steps [of _ _ ?q]) (simp_all add: process_step_def)
  have "tables_ok (w_db (wk_store (pr_worker ?r)))"
    using process_keeps_integrity [OF co rely_calm steps rtranclp.rtrancl_refl] by blast
  with s(1) co show ?thesis by auto
qed

section \<open>Configurations\<close>

lemma LoadConfig_parts:
  assumes "LoadConfig iter getenv = Inr cfg"
  shows "parsePositiveDurationEnv getenv ''HTTP_READ_TIMEOUT'' defaultReadTimeout = Inr (Cfg_ReadTimeout cfg)"
    "parsePositiveDurationEnv getenv ''HTTP_WRITE_TIMEOUT'' defaultWriteTimeout = Inr (Cfg_WriteTimeout cfg)"
    "parsePositiveDurationEnv getenv ''HTTP_IDLE_TIMEOUT'' defaultIdleTimeout = Inr (Cfg_IdleTimeout cfg)"
    "getenv ''DATABASE_URL'' \<noteq> []" "load_batch_size getenv = Inr (Cfg_WorkerBatchSize cfg)"
    "load_auth_mode getenv = Inr (Cfg_AuthMode cfg)"
    "loadAuthConfig iter getenv (Cfg_AuthMode cfg) = Inr (Cfg_AuthConfig cfg)"
    "Cfg_DatabaseURL cfg = getenv ''DATABASE_URL''" "Cfg_ShutdownTimeout cfg = load_shutdown_timeout getenv"
  using assms by (auto simp: LoadConfig_def split: sum.splits if_splits)

text \<open>C36: A configuration that loads is complete: the database is named, the mode is one of the
  three, and the server's read, write and idle timeouts are positive.  The shutdown timeout is
  not checked: it is whatever duration the variable holds, zero and negative ones included, and
  the default of 10 seconds when the variable is empty or holds none.  In JWT mode the
  configuration is safe: every required value is there, exactly one source of keys is named,
  every URL is HTTPS with a host, the three roles have distinct non-empty names, only asymmetric
  signature algorithms are allowed, and the timeout of the HTTP client is positive.\<close>

theorem loaded_config_sound:
  assumes "LoadConfig iter getenv = Inr cfg" and "\<And>xs. set (iter xs) = set xs"
  shows "Cfg_DatabaseURL cfg \<noteq> [] \<and>
    0 < Cfg_ReadTimeout cfg \<and> 0 < Cfg_WriteTimeout cfg \<and> 0 < Cfg_IdleTimeout cfg \<and>
    Cfg_ShutdownTimeout cfg =
      (case ParseDuration (getenv ''SHUTDOWN_TIMEOUT'') of
         Some t \<Rightarrow> t | None \<Rightarrow> 10 * time_Second) \<and>
    Cfg_AuthMode cfg \<in> {ModeLocked, ModeDev, ModeJWT} \<and> Auth_Mode (Cfg_AuthConfig cfg) = Cfg_AuthMode cfg \<and>
    (Cfg_AuthMode cfg = ModeJWT \<longrightarrow> jwt_config_ok (Cfg_AuthConfig cfg))"
proof -
  note p = LoadConfig_parts [OF assms(1)]
  have "0 < Cfg_ReadTimeout cfg" "0 < Cfg_WriteTimeout cfg" "0 < Cfg_IdleTimeout cfg"
    using parsePositiveDurationEnv_pos [OF p(1)] parsePositiveDurationEnv_pos [OF p(2)]
      parsePositiveDurationEnv_pos [OF p(3)] by (simp_all add: config_defaults)
  moreover have "Cfg_DatabaseURL cfg \<noteq> []" using p(4,8) by simp
  moreover have "Cfg_ShutdownTimeout cfg =
      (case ParseDuration (getenv ''SHUTDOWN_TIMEOUT'') of
         Some t \<Rightarrow> t | None \<Rightarrow> 10 * time_Second)"
    unfolding p(9) by (simp add: load_shutdown_timeout_def Let_def config_defaults ParseDuration_def split: option.splits)
  moreover have "Cfg_AuthMode cfg \<in> {ModeLocked, ModeDev, ModeJWT}"
    using p(6) by (auto simp: load_auth_mode_def Let_def split: if_splits)
  moreover have "Auth_Mode (Cfg_AuthConfig cfg) = Cfg_AuthMode cfg \<and>
      (Cfg_AuthMode cfg = ModeJWT \<longrightarrow> jwt_config_ok (Cfg_AuthConfig cfg))"
  proof (cases "Cfg_AuthMode cfg = ModeJWT")
    case True
    with p(7) have "loadAuthConfig iter getenv ModeJWT = Inr (Cfg_AuthConfig cfg)" by simp
    from loadAuthConfig_jwt [OF assms(2) this] True show ?thesis by simp
  next
    case False
    with p(7) have "Cfg_AuthConfig cfg = zero_auth_config (Cfg_AuthMode cfg)" by (simp add: loadAuthConfig_def)
    with False show ?thesis by (simp add: zero_auth_config_def)
  qed
  ultimately show ?thesis by blast
qed

definition jwt_env :: getenv where
  "jwt_env name =
     (case map_of
        [(''DATABASE_URL'', ''postgres://db''), (''OMS_AUTH_MODE'', ''jwt''), (''OMS_JWT_ISSUER'', ''https://id.example''),
         (''OMS_JWT_AUDIENCE'', ''oms''), (''OMS_JWT_JWKS_URL'', ''https://id.example/keys''),
         (''OMS_JWT_CUSTOMER_ID_CLAIM'', ''cid''), (''OMS_JWT_ROLE_CLAIM'', ''roles''),
         (''OMS_JWT_ROLE_CUSTOMER_VALUE'', ''buyer''), (''OMS_JWT_ROLE_ADMIN_VALUE'', ''ops''),
         (''OMS_JWT_ROLE_SYSTEM_VALUE'', ''job''), (''OMS_JWT_ALLOWED_ALGS'', ''RS256, ES256'')] name of
        None \<Rightarrow> [] | Some v \<Rightarrow> v)"

lemma loaded_config_sound_witness:
  "\<exists>cfg. LoadConfig id jwt_env = Inr cfg \<and> jwt_config_ok (Cfg_AuthConfig cfg) \<and>
     Auth_Mode (Cfg_AuthConfig cfg) = ModeJWT"
proof -
  have "(case LoadConfig id jwt_env of Inl _ \<Rightarrow> False | Inr cfg \<Rightarrow> Cfg_AuthMode cfg = ModeJWT)" by code_simp
  then obtain cfg where cfg: "LoadConfig id jwt_env = Inr cfg" "Cfg_AuthMode cfg = ModeJWT"
    by (cases "LoadConfig id jwt_env") auto
  with loaded_config_sound [OF cfg(1)] show ?thesis by auto
qed

lemma sint_int32_wrap:
  "sint (word_of_int v :: int32) = (if v mod 2 ^ 32 < 2 ^ 31 then v mod 2 ^ 32 else v mod 2 ^ 32 - 2 ^ 32)"
proof -
  define m where "m = v mod 2 ^ 32"
  have m: "0 \<le> m" "m < 2 ^ 32" by (simp_all add: m_def)
  have same: "word_of_int v = (word_of_int m :: int32)" "word_of_int m = (word_of_int (m - 2 ^ 32) :: int32)"
    by (simp_all add: m_def word_of_int_eq_iff take_bit_eq_mod)
  have exact: "- (2 ^ 31) \<le> k \<Longrightarrow> k < 2 ^ 31 \<Longrightarrow> sint (word_of_int k :: int32) = k" for k
    by (simp add: sint_sbintrunc' signed_take_bit_int_eq_self)
  show ?thesis
  proof (cases "m < 2 ^ 31")
    case True
    with m exact [of m] same(1) show ?thesis unfolding m_def [symmetric] by simp
  next
    case False
    have "sint (word_of_int (m - 2 ^ 32) :: int32) = m - 2 ^ 32" using False m by (intro exact) simp_all
    then have "sint (word_of_int v :: int32) = m - 2 ^ 32" by (subst same(1), subst same(2))
    with False show ?thesis unfolding m_def [symmetric] by simp
  qed
qed

text \<open>C37: The batch size the worker runs with is the configured number only below \<open>2 ^ 31\<close>: a
  larger number is accepted and wraps to 32 bits, and the worker then refuses to start, which
  brings the process down, unless the wrapped number happens to be positive.\<close>

theorem batch_size_wraps:
  assumes "Atoi (getenv ''WORKER_BATCH_SIZE'') = Some v"
  shows "(v < 1 \<longrightarrow> load_batch_size getenv = Inl ''WORKER_BATCH_SIZE must be a positive integer'') \<and>
    (1 \<le> v \<longrightarrow> (\<exists>n. load_batch_size getenv = Inr n \<and> (sint n = v \<longleftrightarrow> v < 2 ^ 31) \<and>
       (Run_error (NewWorker (Some svc) n) = None \<longleftrightarrow> 1 \<le> v mod 2 ^ 32 \<and> v mod 2 ^ 32 < 2 ^ 31)))"
proof -
  have ne: "getenv ''WORKER_BATCH_SIZE'' \<noteq> []" using assms by (auto simp: Atoi_def)
  define n where "n = (word_of_int v :: int32)"
  have wrap: "sint n = (if v mod 2 ^ 32 < 2 ^ 31 then v mod 2 ^ 32 else v mod 2 ^ 32 - 2 ^ 32)"
    unfolding n_def by (rule sint_int32_wrap)
  have load: "load_batch_size getenv =
      (if v < 1 then Inl ''WORKER_BATCH_SIZE must be a positive integer'' else Inr n)"
    using assms ne by (simp add: load_batch_size_def Let_def n_def)
  have "sint n = v \<longleftrightarrow> v < 2 ^ 31" if "1 \<le> v"
  proof (cases "v < 2 ^ 31")
    case True
    with that wrap show ?thesis by (simp add: mod_pos_pos_trivial)
  next
    case False
    have "sint n < 2 ^ 31" using wrap pos_mod_bound [of "2 ^ 32" v] by (simp split: if_splits)
    with False show ?thesis by linarith
  qed
  moreover have "Run_error (NewWorker (Some svc) n) = None \<longleftrightarrow> 1 \<le> v mod 2 ^ 32 \<and> v mod 2 ^ 32 < 2 ^ 31"
    using wrap pos_mod_bound [of "2 ^ 32" v] by (auto simp: Run_error_def NewWorker_def split: if_splits)
  ultimately show ?thesis using load by auto
qed

lemma batch_size_wraps_witness:
  "\<exists>n. load_batch_size (\<lambda>name. ''4294967296'') = Inr n \<and> Run_error (NewWorker (Some idle_service) n) \<noteq> None"
proof -
  have "Atoi ''4294967296'' = Some 4294967296" by code_simp
  then have "Atoi ((\<lambda>name. ''4294967296'') ''WORKER_BATCH_SIZE'') = Some 4294967296" by simp
  from batch_size_wraps [OF this, of idle_service] show ?thesis by auto
qed

end
