(* ===== verification/Pagination.thy ===== *)
theory Pagination
  imports Outcomes
begin

text \<open>
  Listing orders page by page.  The query orders a customer's rows by creation time and id,
  newest first, and a cursor continues strictly after a row.  Following cursors visits the
  whole list, each row once.
\<close>

section \<open>Strictly descending lists\<close>

lemma filter_below_nth:
  fixes k :: "'a \<Rightarrow> 'b :: linorder"
  assumes "sorted_wrt (\<lambda>x y. k y < k x) xs" and "i < length xs"
  shows "filter (\<lambda>x. k x < k (xs ! i)) xs = drop (Suc i) xs"
proof -
  have "xs = take (Suc i) xs @ drop (Suc i) xs" by simp
  moreover have "filter (\<lambda>x. k x < k (xs ! i)) (take (Suc i) xs) = []"
  proof -
    have "\<not> k (xs ! j) < k (xs ! i)" if "j < Suc i" for j
      using assms that sorted_wrt_nth_less [OF assms(1), of j i] by (cases "j = i") auto
    then show ?thesis using assms(2) by (auto simp: filter_empty_conv in_set_conv_nth)
  qed
  moreover have "filter (\<lambda>x. k x < k (xs ! i)) (drop (Suc i) xs) = drop (Suc i) xs"
  proof -
    have "k (drop (Suc i) xs ! j) < k (xs ! i)" if "j < length (drop (Suc i) xs)" for j
      using sorted_wrt_nth_less [OF assms(1), of i "Suc i + j"] that by simp
    then show ?thesis by (auto simp: filter_id_conv in_set_conv_nth)
  qed
  ultimately show ?thesis by (metis append_Nil filter_append)
qed

lemma descending_sort:
  fixes k :: "'a \<Rightarrow> 'b :: linorder"
  assumes "distinct (map k xs)"
  shows "sorted_wrt (\<lambda>x y. k y < k x) (rev (sort_key k xs))"
proof -
  have "distinct (map k (sort_key k xs))" using assms by (simp add: distinct_map)
  then have "sorted_wrt (<) (map k (sort_key k xs))" by (simp add: strict_sorted_iff)
  then show ?thesis by (simp add: sorted_wrt_rev sorted_wrt_map)
qed

section \<open>A customer's orders, newest first\<close>

text \<open>A status filter that is absent or empty selects every status.\<close>

definition wanted :: "uuid \<Rightarrow> OrderStatus option \<Rightarrow> orders_row \<Rightarrow> bool" where
  "wanted cid st r \<longleftrightarrow> o_customer_id r = cid \<and> (st = None \<or> st = Some [] \<or> st = Some (o_status r))"

definition newest_first :: "tables \<Rightarrow> uuid \<Rightarrow> OrderStatus option \<Rightarrow> orders_row list" where
  "newest_first d cid st = rev (sort_key order_key (filter (wanted cid st) (orders d)))"

lemma newest_first_set: "set (newest_first d cid st) = {r \<in> set (orders d). wanted cid st r}"
  by (simp add: newest_first_def)

lemma order_keys_distinct: "tables_ok d \<Longrightarrow> distinct (map order_key (filter P (orders d)))"
proof -
  assume "tables_ok d"
  then have "distinct (map o_id (orders d))" by (simp add: tables_ok_def keys_ok_def)
  then have "distinct (map o_id (filter P (orders d)))" by (rule distinct_map_filter)
  then show ?thesis by (auto simp: distinct_map order_key_def inj_on_def)
qed

lemma newest_first_descending:
  "tables_ok d \<Longrightarrow> sorted_wrt (\<lambda>x y. order_key y < order_key x) (newest_first d cid st)"
  unfolding newest_first_def by (intro descending_sort order_keys_distinct)

lemma newest_first_distinct: "tables_ok d \<Longrightarrow> distinct (newest_first d cid st)"
proof -
  assume "tables_ok d"
  from order_keys_distinct [OF this, of "wanted cid st"] show ?thesis
    by (simp add: newest_first_def distinct_map)
qed

text \<open>A cursor is the position of a row.\<close>

definition cursor_of :: "orders_row \<Rightarrow> time \<times> uuid" where
  "cursor_of r = (o_created_at r, o_id r)"

lemma after_cursor_row:
  assumes "tables_ok d" and "r \<in> set (orders d)"
  shows "after_cursor (Some (o_created_at r)) (Some (o_id r)) x \<longleftrightarrow> order_key x < order_key r"
  using assms by (auto simp: after_cursor_def order_key_def tables_ok_def order_ok_def)

lemma after_cursor_None [simp]: "after_cursor None c r"
  by (simp add: after_cursor_def)

section \<open>Pages\<close>

definition list_input :: "uuid \<Rightarrow> int32 \<Rightarrow> OrderStatus option \<Rightarrow> (time \<times> uuid) option \<Rightarrow> ListOrdersInput" where
  "list_input cid limit st cursor =
     \<lparr>ListIn_CustomerID = cid, ListIn_Limit = limit, ListIn_Status = st,
      ListIn_CursorCreatedAt = map_option fst cursor, ListIn_CursorID = map_option snd cursor\<rparr>"

definition details_of :: "tables \<Rightarrow> orders_row \<Rightarrow> OrderDetails" where
  "details_of d r = \<lparr>Details_Order = scan_order r, Details_Items = items_result d (o_id r)\<rparr>"

text \<open>The rows a cursor leaves.\<close>

fun remaining :: "(time \<times> uuid) option \<Rightarrow> orders_row list \<Rightarrow> orders_row list" where
  "remaining None rs = rs"
| "remaining (Some (t, u)) rs = filter (after_cursor (Some t) (Some u)) rs"

lemma remaining_after:
  assumes ok: "tables_ok d" and i: "i < length (newest_first d cid st)"
  shows "remaining (Some (cursor_of (newest_first d cid st ! i))) (newest_first d cid st) =
     drop (Suc i) (newest_first d cid st)"
proof -
  let ?r = "newest_first d cid st ! i"
  have "?r \<in> set (newest_first d cid st)" using i by (rule nth_mem)
  then have "?r \<in> set (orders d)" by (simp add: newest_first_set)
  then have "after_cursor (Some (o_created_at ?r)) (Some (o_id ?r)) = (\<lambda>x. order_key x < order_key ?r)"
    using after_cursor_row [OF ok] by blast
  then have "remaining (Some (cursor_of ?r)) (newest_first d cid st) =
      filter (\<lambda>x. order_key x < order_key ?r) (newest_first d cid st)"
    by (simp add: cursor_of_def)
  also have "\<dots> = drop (Suc i) (newest_first d cid st)"
    using newest_first_descending [OF ok] i by (rule filter_below_nth)
  finally show ?thesis .
qed

lemma list_page_remaining:
  "0 \<le> sint limit \<Longrightarrow>
   list_page (\<lambda>r. wanted cid st r \<and> after_cursor (map_option fst c) (map_option snd c) r) limit now d =
     Inr (map scan_order (take (nat (sint limit)) (remaining c (newest_first d cid st))), d)"
proof -
  let ?A = "after_cursor (map_option fst c) (map_option snd c)"
  have "rev (sort_key order_key (filter (\<lambda>r. wanted cid st r \<and> ?A r) (orders d))) =
      filter ?A (newest_first d cid st)"
    by (simp only: newest_first_def rev_filter [symmetric] filter_sort filter_filter)
  also have "\<dots> = remaining c (newest_first d cid st)" by (cases c) auto
  finally show "0 \<le> sint limit \<Longrightarrow> ?thesis" by (simp add: list_page_def)
qed

lemma list_orders_calm:
  assumes "calm (w_env w)" and "0 \<le> sint limit" and "pg_null_text st"
  shows "Service_ListOrders pg_service (list_input cid limit st c) w =
    (Inr (map scan_order (take (nat (sint limit)) (remaining c (newest_first (w_db w) cid st)))), tick w)"
proof -
  have run: "db_call Pool (list_page (\<lambda>r. wanted cid st r \<and>
      after_cursor (map_option fst c) (map_option snd c) r) limit) w =
    (Inr (map scan_order (take (nat (sint limit)) (remaining c (newest_first (w_db w) cid st)))), tick w)"
    using assms(1,2) by (simp add: db_call_calm list_page_remaining tick_def)
  show ?thesis
  proof (cases "st = None \<or> st = Some []")
    case True
    then have "wanted cid st = (\<lambda>r. o_customer_id r = cid)" by (auto simp: wanted_def)
    with True run show ?thesis
      by (auto simp: Service_ListOrders_def list_input_def Repository_ListOrders_def
          Queries_ListOrdersByCustomerID_def)
  next
    case False
    then obtain s where s: "st = Some s" "s \<noteq> []" "pg_text s" using assms(3) by (cases st) auto
    then have "wanted cid st = (\<lambda>r. o_customer_id r = cid \<and> o_status r = s)" by (auto simp: wanted_def)
    with s run show ?thesis
      by (simp add: Service_ListOrders_def list_input_def Repository_ListOrders_def
          Queries_ListOrdersByCustomerIDAndStatus_def conj_assoc)
  qed
qed

lemma scanned_id [simp]: "uuid_bytes (Order_ID (scan_order r)) = o_id r"
  by (simp add: uuid_bytes_def scan_order_def)

lemma hydrate_calm:
  assumes "calm (w_env w)"
  shows "\<exists>w'. hydrateOrderDetails pg_service (map scan_order rs) w = (Inr (map (details_of (w_db w)) rs), w') \<and>
     onward w w' \<and> w_db w' = w_db w"
  using assms
proof (induction rs arbitrary: w)
  case Nil
  show ?case by (simp add: hydrateOrderDetails_def)
next
  case (Cons r rs)
  then obtain w' where w': "hydrateOrderDetails pg_service (map scan_order rs) (tick w) =
      (Inr (map (details_of (w_db w)) rs), w')" "onward (tick w) w'" "w_db w' = w_db w"
    using Cons.IH [of "tick w"] by auto
  have "onward w w'" using onward_tick(1) w'(2) by (rule onward_trans)
  with w' show ?case using Cons.prems
    by (simp add: hydrateOrderDetails_def bindE_def get_items_calm scanned_id details_of_def)
qed

lemma list_details_calm:
  assumes "calm (w_env w)" and "0 \<le> sint limit" and "pg_null_text st"
  shows "succeeds (Service_ListOrderDetails pg_service (list_input cid limit st c)) w
    (\<lambda>xs d. xs = map (details_of (w_db w)) (take (nat (sint limit)) (remaining c (newest_first (w_db w) cid st))) \<and>
       d = w_db w)"
proof -
  let ?rs = "take (nat (sint limit)) (remaining c (newest_first (w_db w) cid st))"
  from hydrate_calm [of "tick w" ?rs] assms(1) obtain w' where
    h: "hydrateOrderDetails pg_service (map scan_order ?rs) (tick w) = (Inr (map (details_of (w_db w)) ?rs), w')"
      "onward (tick w) w'" "w_db w' = w_db w" by auto
  have "onward w w'" using onward_tick(1) h(2) by (rule onward_trans)
  have "Service_ListOrderDetails pg_service (list_input cid limit st c) w =
      (Inr (map (details_of (w_db w)) ?rs), w')"
    using list_orders_calm [OF assms] h(1) by (simp add: Service_ListOrderDetails_def bindE_def)
  then show ?thesis by (rule succeedsI) (use h(3) \<open>onward w w'\<close> in auto)
qed

end
