(* ===== verification/EndToEnd.thy ===== *)
theory EndToEnd
  imports ProcessLaws Pagination
begin

text \<open>
  What each request does, from the decoded request to the response and the tables: the
  outcome of creating, retrying, cancelling and moving an order when nothing interferes, and
  of a create whose total overflows.  The list is in \<open>PageWalk\<close>; the first section sets up
  the concrete worlds and requests of the witnesses.
\<close>

section \<open>Demonstrations\<close>

text \<open>The demonstration's environment meets the hypotheses of the theorems below.\<close>

lemma unat_small: "m < 2 ^ 128 \<Longrightarrow> unat (of_nat m :: uuid) = m"
  by (simp add: unat_of_nat take_bit_nat_eq_self)

lemma unat_demo_draw:
  "unat (demo_draw n) = (if n < 50 then 100 + n else 1000 + n mod 2 ^ 64)"
proof (cases "n < 50")
  case True
  then have "100 + n < (2::nat) ^ 128" by simp
  from unat_small [OF this] True show ?thesis unfolding demo_draw_def by (simp only: if_True)
next
  case False
  have "n mod 2 ^ 64 < (2::nat) ^ 64" by simp
  then have "1000 + n mod 2 ^ 64 < (2::nat) ^ 128" by simp
  from unat_small [OF this] False show ?thesis unfolding demo_draw_def by (simp only: if_False)
qed

lemma eq_mod_close:
  fixes i j m :: nat
  assumes "i mod m = j mod m" and "i < j + m" and "j < i + m"
  shows "i = j"
proof -
  have "int m dvd int i - int j"
    using assms(1) by (metis mod_eq_dvd_iff zmod_int)
  moreover have "\<bar>int i - int j\<bar> < int m" using assms(2,3) by linarith
  ultimately have "int i - int j = 0" using zdvd_imp_le [of "int m" "\<bar>int i - int j\<bar>"] by fastforce
  then show ?thesis by simp
qed

lemma demo_draw_window: "inj_on demo_draw {n ..< n + draw_window}"
proof (rule inj_onI)
  fix i j assume ij: "i \<in> {n ..< n + draw_window}" "j \<in> {n ..< n + draw_window}"
    "demo_draw i = demo_draw j"
  from arg_cong [where f = unat, OF this(3)]
  have eq: "(if i < 50 then 100 + i else 1000 + i mod 2 ^ 64) = (if j < 50 then 100 + j else 1000 + j mod 2 ^ 64)"
    by (simp only: unat_demo_draw)
  show "i = j"
  proof (cases "i < 50 \<or> j < 50")
    case True
    with eq show ?thesis by (auto split: if_splits)
  next
    case False
    with eq have "i mod 2 ^ 64 = j mod 2 ^ 64" by simp
    moreover have "i < j + 2 ^ 64" "j < i + 2 ^ 64" using ij(1,2) by (auto simp: draw_window_def)
    ultimately show ?thesis by (rule eq_mod_close)
  qed
qed

lemma fresh_demoI:
  assumes "w_env w = calm_env" and "w_tick w \<le> 50"
    and "\<forall>u \<in> o_id ` set (orders (w_db w)) \<union> i_id ` set (order_items (w_db w)) \<union>
      v_id ` set (order_events (w_db w)). u < of_nat (100 + w_tick w)"
  shows "fresh_uuids w"
proof -
  have "demo_draw n \<notin> o_id ` set (orders (w_db w)) \<union> i_id ` set (order_items (w_db w)) \<union>
      v_id ` set (order_events (w_db w))" if "w_tick w \<le> n" for n
  proof
    assume "demo_draw n \<in> o_id ` set (orders (w_db w)) \<union> i_id ` set (order_items (w_db w)) \<union>
      v_id ` set (order_events (w_db w))"
    with assms(3) have "demo_draw n < of_nat (100 + w_tick w)" by blast
    then have "unat (demo_draw n) < unat (of_nat (100 + w_tick w) :: uuid)" by (simp only: word_less_nat_alt)
    moreover have "100 + w_tick w < 2 ^ 128" using assms(2) by simp
    ultimately have "unat (demo_draw n) < 100 + w_tick w" by (simp only: unat_small)
    with that assms(2) show False unfolding unat_demo_draw by (auto split: if_splits)
  qed
  then show ?thesis using demo_draw_window by (simp add: fresh_uuids_def assms(1) calm_env_def)
qed

definition placed_world :: world where
  "placed_world = run_calls demo_parse [CallCreateOrder demo_input] (start calm_env)"

lemma calm_calm_env [simp]: "calm calm_env"
  by (simp add: calm_def calm_env_def)

lemma start_calm [simp]: "w_env (start E) = E" "w_db (start E) = empty_tables" "w_tick (start E) = 0"
  by (simp_all add: start_def)

lemma fresh_start: "fresh_uuids (start calm_env)"
  by (rule fresh_demoI) (simp_all add: empty_tables_def)

lemma demo_input_storable: "storable demo_parse demo_input"
  unfolding storable_def
proof (intro conjI)
  show "length (CreateIn_Items demo_input) \<le> draw_window"
    by (simp add: demo_input_def demo_items_def draw_window_def)
  show "exact_total (CreateIn_Items demo_input) < 2 ^ 63" by code_simp
qed code_simp+

lemma placed_world_env: "w_env placed_world = calm_env"
proof -
  have "\<not> key_taken (w_db (start calm_env)) (CreateIn_CustomerID demo_input) (CreateIn_IdempotencyKey demo_input)"
    by (simp add: key_taken_def empty_tables_def)
  from CreateOrder_succeeds [OF _ fresh_start demo_input_storable this] show ?thesis
    by (auto simp: placed_world_def run_calls_def succeeds_def onward_def)
qed

lemma placed_world_ok: "tables_ok (w_db placed_world)"
  unfolding placed_world_def by (rule run_start_ok) simp

lemma placed_world_fresh: "fresh_uuids placed_world"
  by (rule fresh_demoI) (simp_all only: placed_world_env, code_simp+)

section \<open>Creating\<close>

text \<open>What \<open>CreateOrder\<close> of the handler passes to the service.\<close>

definition create_input :: "uuid \<Rightarrow> http_request \<Rightarrow> CreateOrderRequest \<Rightarrow> CreateOrderInput" where
  "create_input cid r req =
     \<lparr>CreateIn_CustomerID = cid, CreateIn_IdempotencyKey = Req_IdempotencyKey req,
      CreateIn_Currency = Req_Currency req, CreateIn_Items = Req_Items req,
      CreateIn_ActorID = Some cid, CreateIn_Reason = None, CreateIn_IPAddress = requestIPAddress r\<rparr>"

lemma Handler_CreateOrder_runs:
  assumes "CustomerIDFromContext r = Some cid"
    and "DecodeCreateOrderRequest (req_body r) DefaultRequestBodyLimit = Inr req"
    and "h = NewHandler (Some (service_methods p pg_service))"
  shows "Handler_CreateOrder pkg h r w =
    answer (Service_CreateOrder p pg_service (create_input cid r req))
      (\<lambda>res. writeJSON StatusCreated (OrderResponse (mapOrderResponse pkg
         \<lparr>Details_Order = CreateRes_Order res, Details_Items = CreateRes_Items res\<rparr>))) w"
  using assms by (simp add: Handler_CreateOrder_def NewHandler_def create_input_def)

lemma answer_succeeds: "succeeds m w P \<Longrightarrow> \<exists>x w'. answer m f w = (f x, w') \<and> P x (w_db w')"
  by (auto simp: succeeds_def answer_def)

lemma answer_fails: "fails m w Q \<Longrightarrow> \<exists>e w'. answer m f w = (writeHandlerError e, w') \<and> Q e (w_db w')"
  by (auto simp: fails_def answer_def)

lemma answer_ok:
  "succeeds m w P \<Longrightarrow> answer m f w = (resp, w') \<Longrightarrow> (\<And>x. resp = f x \<Longrightarrow> P x (w_db w') \<Longrightarrow> R) \<Longrightarrow> R"
  by (auto simp: succeeds_def answer_def)

lemma answer_err:
  "fails m w Q \<Longrightarrow> answer m f w = (resp, w') \<Longrightarrow>
     (\<And>e. resp = writeHandlerError e \<Longrightarrow> Q e (w_db w') \<Longrightarrow> R) \<Longrightarrow> R"
  by (auto simp: fails_def answer_def)

definition demo_caller :: "Role \<Rightarrow> Identity" where
  "demo_caller role =
     \<lparr>Id_Role = role, Id_CustomerID = 7, Id_HasCustomerID = (role = RoleCustomer), Id_Subject = [],
      Id_HasSubject = False, Id_SubjectID = 9, Id_HasSubjectID = (role = RoleAdmin)\<rparr>"

definition demo_call :: "Role \<Rightarrow> string \<Rightarrow> http_request" where
  "demo_call role body =
     (WithIdentity (plain_request Map.empty) (demo_caller role))
       \<lparr>req_url_params := [''order_id'' \<mapsto> ''o102''], req_body := \<lparr>rd_bytes = body, rd_error = None\<rparr>\<rparr>"

definition status_body :: string where
  "status_body = ''{'' @ quoted ''status'' @ '':'' @ quoted ''PROCESSING'' @ ''}''"

lemma demo_call_facts [simp]:
  "CustomerIDFromContext (demo_call RoleCustomer body) = Some 7"
  "IdentityFromContext (demo_call role body) = Some (demo_caller role)"
  "parseOrderID demo_packages (demo_call role body) = Inr 102"
  "req_body (demo_call role body) = \<lparr>rd_bytes = body, rd_error = None\<rparr>"
  by (simp_all add: demo_call_def demo_caller_def WithIdentity_def IdentityFromContext_def
      CustomerIDFromContext_def parseOrderID_def demo_packages_def)

lemma demo_call_create:
  "DecodeCreateOrderRequest (req_body (demo_call role demo_body)) DefaultRequestBodyLimit = Inr demo_request"
  using demo_decoded by (simp add: demo_reader_def)

lemma demo_call_update:
  "DecodeUpdateOrderStatusRequest (req_body (demo_call role status_body)) DefaultRequestBodyLimit =
     Inr \<lparr>UpdReq_Status = StatusProcessing\<rparr>"
proof -
  have "decode_payload status_fields status_body \<lparr>UpdReq_Status = []\<rparr> = Inr \<lparr>UpdReq_Status = StatusProcessing\<rparr>"
    "length status_body < 200"
    "ValidateUpdateOrderStatusRequest \<lparr>UpdReq_Status = StatusProcessing\<rparr> = Inr ()" by code_simp+
  moreover from this(2) have "\<not> 2 ^ 20 < int (length status_body)" by simp
  ultimately show ?thesis
    by (simp add: DecodeUpdateOrderStatusRequest_def decode_default_limit)
qed

lemma demo_create_storable:
  "storable (pkg_uuid_Parse demo_packages) (create_input 7 (demo_call RoleCustomer demo_body) demo_request)"
  unfolding storable_def
proof (intro conjI)
  show "length (CreateIn_Items (create_input 7 (demo_call RoleCustomer demo_body) demo_request)) \<le> draw_window"
    by (simp add: create_input_def demo_request_def draw_window_def)
  show "exact_total (CreateIn_Items (create_input 7 (demo_call RoleCustomer demo_body) demo_request)) < 2 ^ 63"
    by code_simp
qed code_simp+

lemma placed_orders: "map (\<lambda>r. (o_id r, o_customer_id r, o_status r)) (orders (w_db placed_world)) = [(102, 7, StatusPending)]"
  "map (\<lambda>r. o_idempotency_key r) (orders (w_db placed_world)) = [''checkout'']"
  by code_simp+

lemma placed_order_facts:
  "r \<in> set (orders (w_db placed_world)) \<Longrightarrow>
     o_id r = 102 \<and> o_customer_id r = 7 \<and> o_status r = StatusPending \<and> o_idempotency_key r = ''checkout''"
  "\<exists>r. r \<in> set (orders (w_db placed_world))"
  using placed_orders by (auto simp: map_eq_Cons_conv)

text \<open>C7: A customer's create request that can be stored is stored and answered with 201: the
  response shows the stored order, which is pending, belongs to the caller, has exactly the
  requested items and the exact total, and the creation event names the caller and the
  address the request came from.\<close>

theorem create_order_answers_201:
  assumes "calm (w_env w)" and "fresh_uuids w" and "CustomerIDFromContext r = Some cid"
    and "DecodeCreateOrderRequest (req_body r) DefaultRequestBodyLimit = Inr req"
    and "storable p (create_input cid r req)" and "\<not> key_taken (w_db w) cid (Req_IdempotencyKey req)"
    and "h = NewHandler (Some (service_methods p pg_service))"
  shows "\<exists>res w'. Handler_CreateOrder pkg h r w =
      (writeJSON 201 (OrderResponse (mapOrderResponse pkg
         \<lparr>Details_Order = CreateRes_Order res, Details_Items = CreateRes_Items res\<rparr>)), w') \<and>
    placed_order p (create_input cid r req) (w_db w) res (w_db w')"
proof -
  have "\<not> key_taken (w_db w) (CreateIn_CustomerID (create_input cid r req))
      (CreateIn_IdempotencyKey (create_input cid r req))"
    using assms(6) by (simp add: create_input_def)
  from answer_succeeds [OF CreateOrder_succeeds [OF assms(1,2,5) this]] show ?thesis
    unfolding Handler_CreateOrder_runs [OF assms(3,4,7)] by (simp add: StatusCreated_def)
qed

lemma create_order_answers_201_witness:
  "resp_status (fst (Handler_CreateOrder demo_packages demo_handler (demo_call RoleCustomer demo_body)
     (start calm_env))) = 201"
proof -
  have "\<not> key_taken (w_db (start calm_env)) 7 (Req_IdempotencyKey demo_request)"
    by (simp add: key_taken_def empty_tables_def)
  from create_order_answers_201 [OF _ fresh_start _ demo_call_create demo_create_storable this
      demo_handler_def, of demo_packages]
  show ?thesis by auto
qed

text \<open>C8: A retried create is harmless: a request under a key the customer has used already is
  answered with 409 and leaves the tables untouched.\<close>

theorem retry_answers_409:
  assumes "calm (w_env w)" and "fresh_uuids w" and "CustomerIDFromContext r = Some cid"
    and "DecodeCreateOrderRequest (req_body r) DefaultRequestBodyLimit = Inr req"
    and "storable p (create_input cid r req)" and "key_taken (w_db w) cid (Req_IdempotencyKey req)"
    and "h = NewHandler (Some (service_methods p pg_service))"
  shows "\<exists>w'. Handler_CreateOrder pkg h r w =
      (writeJSONError 409 ''conflict'' ''idempotency conflict'', w') \<and> w_db w' = w_db w"
proof -
  have "key_taken (w_db w) (CreateIn_CustomerID (create_input cid r req))
      (CreateIn_IdempotencyKey (create_input cid r req))"
    using assms(6) by (simp add: create_input_def)
  from answer_fails [OF CreateOrder_reports_conflict [OF assms(1,2,5) this]] show ?thesis
    unfolding Handler_CreateOrder_runs [OF assms(3,4,7)]
    by (auto simp: writeHandlerError_def http_status_defs)
qed

lemma retry_answers_409_witness:
  "\<exists>w'. Handler_CreateOrder demo_packages demo_handler (demo_call RoleCustomer demo_body) placed_world =
     (writeJSONError 409 ''conflict'' ''idempotency conflict'', w') \<and> w_db w' = w_db placed_world"
proof -
  have "key_taken (w_db placed_world) 7 (Req_IdempotencyKey demo_request)"
    using placed_order_facts by (auto simp: key_taken_def demo_request_def)
  then show ?thesis
    by (intro retry_answers_409 [OF _ placed_world_fresh _ demo_call_create demo_create_storable _
          demo_handler_def]) (simp_all add: placed_world_env)
qed

text \<open>C38: A request whose total does not fit 64 bits is refused before anything is stored: for
  every valid body with an exact total of \<open>2 ^ 63\<close> cents or more the service reports the
  overflow, which the handler's table of errors does not know, so the client gets 500.\<close>

theorem overflowing_total_answers_500:
  assumes "CustomerIDFromContext r = Some cid"
    and "DecodeCreateOrderRequest (req_body r) DefaultRequestBodyLimit = Inr req"
    and "2 ^ 63 \<le> exact_total (Req_Items req)" and "h = NewHandler (Some (service_methods p pg_service))"
  shows "Handler_CreateOrder pkg h r w =
    (writeJSONError 500 ''internal_error'' ''Internal Server Error'', w)"
proof -
  let ?in = "create_input cid r req"
  have "\<lparr>Req_IdempotencyKey = CreateIn_IdempotencyKey ?in, Req_Currency = CreateIn_Currency ?in,
      Req_Items = CreateIn_Items ?in\<rparr> = req" by (cases req) (simp add: create_input_def)
  moreover have "ValidateCreateOrderRequest req = Inr ()"
    using assms(2) by (auto simp: DecodeCreateOrderRequest_def split: sum.splits if_splits)
  ultimately have "ValidateCreateOrderRequest \<lparr>Req_IdempotencyKey = CreateIn_IdempotencyKey ?in,
      Req_Currency = CreateIn_Currency ?in, Req_Items = CreateIn_Items ?in\<rparr> = Inr ()" by simp
  moreover from this have "list_all item_ok (CreateIn_Items ?in)"
    by (simp add: ValidateCreateOrderRequest_Inr request_ok_def)
  then have "calculateTotalCents (CreateIn_Items ?in) = Inl (Sentinel ErrTotalCentsOverflow)"
    using assms(3) by (simp add: calculateTotalCents_exact create_input_def)
  ultimately have "Service_CreateOrder p pg_service ?in w = (Inl (Sentinel ErrTotalCentsOverflow), w)"
    by (simp add: Service_CreateOrder_def bindE_def)
  then show ?thesis unfolding Handler_CreateOrder_runs [OF assms(1,2,4)]
    by (simp add: answer_def writeHandlerError_def http_status_defs StatusText_def)
qed

definition dear_body :: string where
  "dear_body =
     ''{'' @ quoted ''idempotency_key'' @ '':'' @ quoted ''checkout'' @ '', '' @
     quoted ''currency'' @ '':'' @ quoted ''USD'' @ '','' @ quoted ''items'' @ '':[{'' @
     quoted ''product_id'' @ '':'' @ quoted ''p1'' @ '','' @ quoted ''sku'' @ '':'' @ quoted ''mug'' @ '','' @
     quoted ''quantity'' @ '':2,'' @ quoted ''unit_price_cents'' @ '':9223372036854775807}]}''"

lemma dear_decoded:
  "\<exists>req. DecodeCreateOrderRequest (req_body (demo_call role dear_body)) DefaultRequestBodyLimit = Inr req \<and>
     2 ^ 63 \<le> exact_total (Req_Items req)"
proof -
  have "decode_payload request_fields dear_body \<lparr>st_req = zero_request, st_spare = []\<rparr> =
     Inr \<lparr>st_req = \<lparr>Req_IdempotencyKey = ''checkout'', Req_Currency = ''USD'',
      Req_Items = [\<lparr>Item_ProductID = ''p1'', Item_SKU = ''mug'', Item_Quantity = 2,
        Item_UnitPriceCents = 9223372036854775807\<rparr>]\<rparr>, st_spare = []\<rparr>"
    (is "_ = Inr \<lparr>st_req = ?req, st_spare = []\<rparr>")
    by code_simp
  moreover have "length dear_body < 200" "ValidateCreateOrderRequest ?req = Inr ()"
    "2 ^ 63 \<le> exact_total (Req_Items ?req)" by code_simp+
  moreover from this(1) have "\<not> 2 ^ 20 < int (length dear_body)" by simp
  ultimately show ?thesis
    by (intro exI [of _ ?req]) (simp add: DecodeCreateOrderRequest_def decode_default_limit)
qed

lemma overflowing_total_answers_500_witness:
  "resp_status (fst (Handler_CreateOrder demo_packages demo_handler (demo_call RoleCustomer dear_body)
     (start calm_env))) = 500"
proof -
  obtain req where "DecodeCreateOrderRequest (req_body (demo_call RoleCustomer dear_body)) DefaultRequestBodyLimit = Inr req"
    "2 ^ 63 \<le> exact_total (Req_Items req)" using dear_decoded by blast
  from overflowing_total_answers_500 [OF demo_call_facts(1) this demo_handler_def] show ?thesis
    by (simp add: writeJSONError_def writeJSON_def)
qed

section \<open>Cancelling\<close>



section \<open>Moving an order on\<close>

text \<open>C10: A status update by an administrator or the system has three outcomes for a well-formed
  id and body: an order that is ready for the target status is moved, the event naming the
  caller's role, its id when the token has one, and its address, and answered with 200; an
  order that is not ready, or a target nothing leads to, gives 409; an order that does not
  exist 404; in both cases nothing changes.\<close>

theorem update_outcomes:
  assumes "calm (w_env w)" and "fresh_uuids w" and "tables_ok (w_db w)"
    and "IdentityFromContext r = Some i" and "Id_Role i \<in> {RoleAdmin, RoleSystem}"
    and "parseOrderID pkg r = Inr oid"
    and "DecodeUpdateOrderStatusRequest (req_body r) DefaultRequestBodyLimit = Inr req"
    and "h = NewHandler (Some (service_methods p pg_service))"
    and "Handler_UpdateOrderStatus pkg h r w = (resp, w')"
  shows "(\<exists>row now. row \<in> set (orders (w_db w)) \<and> o_id row = oid \<and>
       CanTransition (o_status row) (UpdReq_Status req) \<and> resp_status resp = 200 \<and>
       moved_tables (w_db w) oid (o_status row) (UpdReq_Status req) actionStatusUpdated (Id_Role i)
         (if Id_HasSubjectID i then Some (Id_SubjectID i) else None) None (requestIPAddress r) now (w_db w')) \<or>
    ((UpdReq_Status req = StatusPending \<or> order_exists (w_db w) oid) \<and>
       (\<nexists>row. row \<in> set (orders (w_db w)) \<and> o_id row = oid \<and> CanTransition (o_status row) (UpdReq_Status req)) \<and>
       resp_status resp = 409 \<and> w_db w' = w_db w) \<or>
    (UpdReq_Status req \<noteq> StatusPending \<and> \<not> order_exists (w_db w) oid \<and> resp_status resp = 404 \<and> w_db w' = w_db w)"
proof -
  let ?t = "UpdReq_Status req" and ?a = "if Id_HasSubjectID i then Some (Id_SubjectID i) else None"
  let ?m = "Service_UpdateOrderStatusByTarget pg_service oid ?t (Id_Role i) ?a None (requestIPAddress r)"
  have role: "Id_Role i \<in> {''ADMIN'', ''SYSTEM''}" using assms(5) by (simp add: role_defs)
  have actor: "privilegedActorID i = ?a" using assms(5) by (auto simp: privilegedActorID_def)
  have "Handler_UpdateOrderStatus pkg h r w = answer ?m
      (\<lambda>details. writeJSON StatusOK (OrderResponse (mapOrderResponse pkg details))) w"
    using assms(4,6-8) actor
    by (simp add: Handler_UpdateOrderStatus_def NewHandler_def RoleFromContext_def Let_def)
  with assms(9) have run: "answer ?m (\<lambda>details. writeJSON StatusOK (OrderResponse (mapOrderResponse pkg details))) w =
      (resp, w')" by simp
  have valid: "IsValidStatus ?t"
    using assms(7) by (auto simp: DecodeUpdateOrderStatusRequest_def ValidateUpdateOrderStatusRequest_def Let_def
        split: sum.splits if_splits)
  consider (ready) row where "row \<in> set (orders (w_db w))" "o_id row = oid" "CanTransition (o_status row) ?t"
    | (pending) "?t = StatusPending"
    | (unready) expected where "expectedStatusForTarget ?t = Inr expected" "?t \<noteq> StatusPending"
        "\<And>row. row \<in> set (orders (w_db w)) \<Longrightarrow> o_id row = oid \<Longrightarrow> \<not> CanTransition (o_status row) ?t"
  proof (cases "?t = StatusPending")
    case False
    with valid obtain f where "CanTransition f ?t" by (auto simp: IsValidStatus_iff CanTransition_iff)
    then have "expectedStatusForTarget ?t = Inr f" by (simp only: expectedStatus_Inr)
    with False ready unready show ?thesis by blast
  qed (rule pending)
  then show ?thesis
  proof cases
    case ready
    from UpdateOrderStatusByTarget_succeeds [OF assms(1,3,2) ready(1,3) role, where reason = None and actorID = ?a and ip = "requestIPAddress r"]
    obtain now where "succeeds ?m w (\<lambda>x d. moved_tables (w_db w) oid (o_status row) ?t actionStatusUpdated
        (Id_Role i) ?a None (requestIPAddress r) now d)"
      using ready(2) by (auto intro: succeeds_mono)
    then obtain x where "resp = writeJSON StatusOK (OrderResponse (mapOrderResponse pkg x))"
      "moved_tables (w_db w) oid (o_status row) ?t actionStatusUpdated
        (Id_Role i) ?a None (requestIPAddress r) now (w_db w')"
      using run by (rule answer_ok)
    with ready show ?thesis by (intro disjI1 exI [of _ row] exI [of _ now]) (simp add: StatusOK_def)
  next
    case pending
    then obtain e where "?m w = (Inl e, w)" "errors_Is e ErrInvalidTransition"
      using UpdateOrderStatusByTarget_bad_target [of ?t pg_service oid "Id_Role i" ?a None "requestIPAddress r" w]
      by auto
    with run have "resp_status resp = 409" "w' = w" by (auto simp: answer_def writeHandlerError_codes)
    with pending show ?thesis by (intro disjI2 disjI1) (auto simp: CanTransition_iff)
  next
    case unready
    have "\<And>row. row \<in> set (orders (w_db w)) \<Longrightarrow> o_id row = oid \<Longrightarrow> o_status row \<noteq> expected"
      using unready(1,3) by (auto simp: expectedStatus_Inr)
    from UpdateOrderStatusByTarget_refused [OF assms(1,3) unready(1) this role, where reason = None and actorID = ?a and ip = "requestIPAddress r"] run
    obtain e where "resp = writeHandlerError e"
      "e = Sentinel (if order_exists (w_db w) oid then ErrInvalidTransition else ErrOrderNotFound) \<and> w_db w' = w_db w"
      by (rule answer_err)
    then show ?thesis using unready by (cases "order_exists (w_db w) oid") (auto simp: writeHandlerError_codes)
  qed
qed

lemma update_outcomes_witness:
  "resp_status (fst (Handler_UpdateOrderStatus demo_packages demo_handler (demo_call RoleAdmin status_body)
     placed_world)) = 200"
proof -
  let ?m = "Handler_UpdateOrderStatus demo_packages demo_handler (demo_call RoleAdmin status_body) placed_world"
  have "?m = (fst ?m, snd ?m)" by simp
  from update_outcomes [OF _ placed_world_fresh placed_world_ok _ _ _ demo_call_update demo_handler_def this]
  have "resp_status (fst ?m) = 200 \<or>
      (\<nexists>r. r \<in> set (orders (w_db placed_world)) \<and> o_id r = 102 \<and> CanTransition (o_status r) StatusProcessing)"
    by (auto simp: placed_world_env demo_caller_def StatusPending_def StatusProcessing_def order_exists_def)
  moreover have "CanTransition StatusPending StatusProcessing" by (simp add: CanTransition_iff)
  ultimately show ?thesis using placed_order_facts by fastforce
qed

end
