(* ===== verification/Interference.thy ===== *)
theory Interference
  imports EndToEnd
begin

text \<open>
  What holds of single calls when the driver may fail and other sessions interfere: creating an
  order is all or nothing, a refusal tells the truth, and one race is answered wrongly.  Also
  what a batch of the worker takes: the oldest pending orders first.
\<close>

section \<open>All or nothing\<close>

text \<open>C12: Creating an order is all or nothing, whatever faults the driver reports and whatever
  other sessions do: either no row at all is added and an error is returned, or the order, all
  its items and its creation event are added together, and then the result is the stored
  order unless the driver lost the reply to the commit.\<close>

theorem creation_is_atomic:
  "case Repository_CreateOrderWithItemsAndAudit cmd w of (res, w') \<Rightarrow>
     (w_db w' = w_db (begin_session w) \<and> (\<exists>e. res = Inl e)) \<or>
     (\<exists>cur vid now.
        w_db w' = place_order (new_order_row cmd cur now)
          (map (new_item_row (CreateCmd_OrderID cmd) now) (CreateCmd_Items cmd))
          (created_event cmd vid now) (w_db (begin_session w)) \<and>
        (res = Inr \<lparr>CreateRes_Order = scan_order (new_order_row cmd cur now),
                    CreateRes_Items = map (\<lambda>it. scan_item (new_item_row (CreateCmd_OrderID cmd) now it))
                      (CreateCmd_Items cmd)\<rparr> \<or>
         (\<exists>t. res = Inl (OtherError t))))"
proof -
  obtain res w' where run: "Repository_CreateOrderWithItemsAndAudit cmd w = (res, w')"
    by (cases "Repository_CreateOrderWithItemsAndAudit cmd w")
  from run [unfolded Repository_CreateOrderWithItemsAndAudit_def] keeps_env_bodies(1)
  show ?thesis
  proof (cases rule: withTx_elim)
    case (committed x w2)
    let ?now = "now_at (w_env w) (w_tick w)"
    from committed(1) obtain cur vid where
      "w_db w2 = place_order (new_order_row cmd cur ?now)
          (map (new_item_row (CreateCmd_OrderID cmd) ?now) (CreateCmd_Items cmd))
          (created_event cmd vid ?now) (w_db (begin_session w))"
      "x = \<lparr>CreateRes_Order = scan_order (new_order_row cmd cur ?now),
           CreateRes_Items = map (\<lambda>it. scan_item (new_item_row (CreateCmd_OrderID cmd) ?now it))
             (CreateCmd_Items cmd)\<rparr>"
      by (rule create_tx_effect) simp
    with committed(2,4) show ?thesis
      unfolding run prod.case by (intro disjI2 exI [of _ cur] exI [of _ vid] exI [of _ ?now]) simp
  qed (auto simp: run)
qed

section \<open>The oldest first\<close>

definition eligible :: "(uuid \<Rightarrow> bool) \<Rightarrow> tables \<Rightarrow> orders_row list" where
  "eligible locked d = filter (\<lambda>r. o_status r = StatusPending \<and> \<not> locked (o_id r)) (orders d)"

lemma picked_orders_eligible:
  "picked_orders locked n d = map o_id (take n (sort_key order_key (eligible locked d)))"
  by (simp add: picked_orders_def eligible_def)

lemma picked_length: "length (picked_orders locked n d) = min n (length (eligible locked d))"
  by (simp add: picked_orders_eligible min.commute)

lemma row_of_id:
  assumes "tables_ok d" and "r \<in> set (orders d)" and "r' \<in> set (orders d)" and "o_id r = o_id r'"
  shows "r = r'"
  using assms by (auto simp: tables_ok_def keys_ok_def distinct_map dest: inj_onD)

lemma picked_oldest:
  assumes ok: "tables_ok d" and x: "x \<in> set (orders d)" "o_id x \<in> set (picked_orders locked n d)"
    and y: "y \<in> set (eligible locked d)" "o_id y \<notin> set (picked_orders locked n d)"
  shows "order_key x < order_key y"
proof -
  let ?s = "sort_key order_key (eligible locked d)"
  have "sorted (map order_key ?s)" by simp
  then have s: "sorted_wrt (\<lambda>a b. order_key a \<le> order_key b) (take n ?s @ drop n ?s)"
    by (simp only: append_take_drop_id sorted_wrt_map [symmetric])
  have "y \<in> set (take n ?s @ drop n ?s)" using y(1) by simp
  moreover have "y \<notin> set (take n ?s)" using y(2) by (auto simp: picked_orders_eligible)
  ultimately have "y \<in> set (drop n ?s)" unfolding set_append by blast
  moreover have "x \<in> set (take n ?s)"
  proof -
    from x(2) obtain z where z: "z \<in> set (take n ?s)" "o_id z = o_id x" by (auto simp: picked_orders_eligible)
    then have "z \<in> set (orders d)" by (auto dest!: in_set_takeD simp: eligible_def)
    with row_of_id [OF ok] x(1) z show ?thesis by blast
  qed
  ultimately have "order_key x \<le> order_key y" using s unfolding sorted_wrt_append by blast
  moreover have "order_key x \<noteq> order_key y" using x(2) y(2) by (auto simp: order_key_def)
  ultimately show ?thesis by (rule order.not_eq_order_implies_strict [rotated])
qed

lemma picked_rows:
  assumes "tables_ok d"
  shows "length (filter (\<lambda>r. o_id r \<in> set (picked_orders locked n d)) (orders d)) = min n (length (eligible locked d))"
proof -
  let ?ids = "picked_orders locked n d" and ?rows = "filter (\<lambda>r. o_id r \<in> set (picked_orders locked n d)) (orders d)"
  have d: "distinct (map o_id (orders d))" using assms by (simp add: tables_ok_def keys_ok_def)
  have "oid \<in> o_id ` set ?rows" if "oid \<in> set ?ids" for oid
    using that by (rule picked_orders_subset) (use that in auto)
  then have "o_id ` set ?rows = set ?ids" by auto
  moreover have "card (o_id ` set ?rows) = length ?rows"
    using distinct_map_filter [OF d] distinct_card by fastforce
  ultimately show ?thesis using distinct_card [OF picked_orders_distinct [OF d]] by (simp add: picked_length)
qed

text \<open>C11: The worker's batch moves exactly the oldest pending orders: when nothing interferes, a
  run with limit \<open>n\<close> returns, having moved \<open>n\<close> orders or all there are, if fewer; every
  order it moved was pending and not locked, and is older than every pending unlocked order
  it left; each moved order has one system event from \<open>PENDING\<close> to \<open>PROCESSING\<close>, and no
  other order changed.\<close>

theorem worker_moves_oldest:
  assumes "calm (w_env w)" and "tables_ok (w_db w)" and "fresh_uuids w"
    and "0 \<le> sint (BatchIn_Limit input)" and "pg_null_text (BatchIn_Reason input)"
  shows "\<exists>xs w' moved es now free.
    Service_ProcessPendingOrdersBatch pg_service input w = (Inr xs, w') \<and>
    free = eligible (env_locked (w_env w) (Suc (w_tick w))) (w_db w) \<and>
    length moved = min (nat (sint (BatchIn_Limit input))) (length free) \<and> distinct moved \<and> set moved \<subseteq> set free \<and>
    (\<forall>x \<in> set moved. \<forall>y \<in> set free - set moved. order_key x < order_key y) \<and>
    xs = map (\<lambda>r. scan_order (set_status StatusProcessing now r)) moved \<and>
    w_db w' = (w_db w)\<lparr>orders := map (\<lambda>r. if r \<in> set moved then set_status StatusProcessing now r else r)
        (orders (w_db w)), order_events := order_events (w_db w) @ es\<rparr> \<and>
    list_all2 (\<lambda>r e. v_order_id e = o_id r \<and> v_actor_type e = actorTypeSystem \<and>
        v_from_status e = Some StatusPending \<and> v_to_status e = Some StatusProcessing) moved es"
proof -
  let ?locked = "env_locked (w_env w) (Suc (w_tick w))"
  define ids where "ids = picked_orders ?locked (nat (sint (BatchIn_Limit input))) (w_db w)"
  define moved where "moved = filter (\<lambda>r. o_id r \<in> set ids) (orders (w_db w))"
  let ?free = "eligible ?locked (w_db w)"
  from ProcessPendingOrdersBatch_succeeds [OF assms, folded ids_def, folded moved_def] obtain now xs w' es where
    run: "Service_ProcessPendingOrdersBatch pg_service input w = (Inr xs, w')"
    and xs: "xs = map (\<lambda>r. scan_order (set_status StatusProcessing now r)) moved"
    and db: "w_db w' = move_all ids StatusProcessing now es (w_db w)"
    and es: "batch_events \<lparr>BatchCmd_Limit = BatchIn_Limit input, BatchCmd_ActorID = BatchIn_ActorID input,
        BatchCmd_Reason = BatchIn_Reason input, BatchCmd_IPAddress = BatchIn_IPAddress input\<rparr> now
        (map o_id moved) es"
    unfolding succeeds_def by (elim exE conjE) (rule that)
  have len: "length moved = min (nat (sint (BatchIn_Limit input))) (length ?free)"
    unfolding moved_def ids_def by (rule picked_rows) (rule assms(2))
  have dist: "distinct moved"
    using assms(2) by (auto simp: moved_def tables_ok_def keys_ok_def distinct_map)
  have sub: "set moved \<subseteq> set ?free"
  proof
    fix r assume r: "r \<in> set moved"
    then obtain z where "z \<in> set (orders (w_db w))" "o_id z = o_id r" "o_status z = StatusPending"
        "\<not> ?locked (o_id r)"
      unfolding moved_def ids_def by (auto elim!: picked_orders_subset)
    moreover from r have "r \<in> set (orders (w_db w))" by (simp add: moved_def)
    ultimately show "r \<in> set ?free" using row_of_id [OF assms(2)] by (auto simp: eligible_def)
  qed
  have old: "order_key x < order_key y" if "x \<in> set moved" "y \<in> set ?free - set moved" for x y
  proof (rule picked_oldest [OF assms(2)])
    show "x \<in> set (orders (w_db w))" "o_id x \<in> set (picked_orders ?locked (nat (sint (BatchIn_Limit input))) (w_db w))"
      using that(1) by (auto simp: moved_def ids_def)
    show "y \<in> set ?free" "o_id y \<notin> set (picked_orders ?locked (nat (sint (BatchIn_Limit input))) (w_db w))"
      using that(2) by (auto simp: moved_def ids_def eligible_def)
  qed
  have db': "w_db w' = (w_db w)\<lparr>orders := map (\<lambda>r. if r \<in> set moved then set_status StatusProcessing now r else r)
        (orders (w_db w)), order_events := order_events (w_db w) @ es\<rparr>"
    unfolding db move_all_def by (simp add: moved_def cong: map_cong)
  have "list_all2 (\<lambda>r e. v_order_id e = o_id r \<and> v_actor_type e = actorTypeSystem \<and>
        v_from_status e = Some StatusPending \<and> v_to_status e = Some StatusProcessing) moved es"
    using es unfolding batch_events_def list_all2_map1
    by (rule list_all2_mono) (auto simp: move_event_def)
  with run xs len dist sub old db' show ?thesis
    by (intro exI [of _ xs] exI [of _ w'] exI [of _ moved] exI [of _ es] exI [of _ now] exI [of _ ?free] conjI ballI)
      (assumption | rule refl)+
qed


definition demo_batch :: ProcessPendingOrdersBatchInput where
  "demo_batch = \<lparr>BatchIn_Limit = 5, BatchIn_ActorID = None, BatchIn_Reason = None, BatchIn_IPAddress = None\<rparr>"

lemma worker_moves_oldest_witness:
  "\<exists>x w'. Service_ProcessPendingOrdersBatch pg_service demo_batch placed_world = (Inr [x], w') \<and>
     Order_Status x = StatusProcessing"
proof -
  have "orders (w_db placed_world) \<noteq> [] \<and> length (orders (w_db placed_world)) = 1"
    using arg_cong [OF placed_orders(1), of length] by auto
  then have "length (eligible (env_locked (w_env placed_world) (Suc (w_tick placed_world))) (w_db placed_world)) = 1"
    using placed_order_facts by (auto simp: placed_world_env calm_env_def eligible_def length_Suc_conv)
  moreover have "\<exists>xs w' moved es now free.
    Service_ProcessPendingOrdersBatch pg_service demo_batch placed_world = (Inr xs, w') \<and>
    free = eligible (env_locked (w_env placed_world) (Suc (w_tick placed_world))) (w_db placed_world) \<and>
    length moved = min (nat (sint (BatchIn_Limit demo_batch))) (length free) \<and> distinct moved \<and> set moved \<subseteq> set free \<and>
    (\<forall>x \<in> set moved. \<forall>y \<in> set free - set moved. order_key x < order_key y) \<and>
    xs = map (\<lambda>r. scan_order (set_status StatusProcessing now r)) moved \<and>
    w_db w' = (w_db placed_world)\<lparr>orders := map (\<lambda>r. if r \<in> set moved then set_status StatusProcessing now r else r)
        (orders (w_db placed_world)), order_events := order_events (w_db placed_world) @ es\<rparr> \<and>
    list_all2 (\<lambda>r e. v_order_id e = o_id r \<and> v_actor_type e = actorTypeSystem \<and>
        v_from_status e = Some StatusPending \<and> v_to_status e = Some StatusProcessing) moved es"
    by (rule worker_moves_oldest) (simp_all add: placed_world_env placed_world_ok placed_world_fresh demo_batch_def)
  ultimately show ?thesis
    by (auto simp: demo_batch_def length_Suc_conv scan_order_def)
qed

section \<open>Refusals tell the truth\<close>

lemma answer_status:
  assumes "answer m f s = (resp, t)" and "resp_status resp = n" and "\<And>x. resp_status (f x) \<noteq> n"
  obtains e where "m s = (Inl e, t)" and "resp_status (writeHandlerError e) = n"
  using assms by (cases "m s") (auto simp: answer_def split: sum.splits)

lemma body_error_codes: "body_error r e \<Longrightarrow> resp_status (writeHandlerError e) \<noteq> 404 \<and> resp_status (writeHandlerError e) \<noteq> 409"
  by (auto simp: body_error_def payload_error_def writeHandlerError_def http_status_defs split: if_splits option.splits)

lemma get_404:
  assumes good: "good w" and h: "h = NewHandler (Some (service_methods p pg_service))"
    and run: "Handler_GetOrder pkg h r w = (resp, w')" and code: "resp_status resp = 404"
  shows "\<exists>cid oid. CustomerIDFromContext r = Some cid \<and> parseOrderID pkg r = Inr oid \<and>
     (\<nexists>row. owned_order (w_db w') oid cid row)"
proof -
  from run code obtain cid oid where c: "CustomerIDFromContext r = Some cid" "parseOrderID pkg r = Inr oid"
    by (auto simp: Handler_GetOrder_def h NewHandler_def unauthorized_def invalid_request_def
        http_status_defs split: option.splits sum.splits)
  with run have "answer (Service_GetOrder pg_service oid cid)
      (\<lambda>details. writeJSON StatusOK (OrderResponse (mapOrderResponse pkg details))) w = (resp, w')"
    by (simp add: Handler_GetOrder_def h NewHandler_def)
  then obtain e where "Service_GetOrder pg_service oid cid w = (Inl e, w')" "errors_Is e ErrOrderNotFound"
    using code by (elim answer_status) (auto simp: StatusOK_def writeHandlerError_codes)
  with good have "\<not> owned_order (w_db w') oid cid row" for row by (rule pg.GetOrder_not_found)
  with c show ?thesis by blast
qed

lemma create_409:
  assumes good: "good w" and h: "h = NewHandler (Some (service_methods p pg_service))"
    and run: "Handler_CreateOrder pkg h r w = (resp, w')" and code: "resp_status resp = 409"
  shows "\<exists>cid req. CustomerIDFromContext r = Some cid \<and>
     DecodeCreateOrderRequest (req_body r) DefaultRequestBodyLimit = Inr req \<and>
     key_taken (w_db w') cid (Req_IdempotencyKey req)"
proof -
  from run code obtain cid where c: "CustomerIDFromContext r = Some cid"
    by (auto simp: Handler_CreateOrder_def h NewHandler_def unauthorized_def http_status_defs
        split: option.splits)
  from run code c obtain req where d: "DecodeCreateOrderRequest (req_body r) DefaultRequestBodyLimit = Inr req"
    by (auto simp: Handler_CreateOrder_def h NewHandler_def split: sum.splits
        dest!: DecodeCreate_error body_error_codes)
  from run code obtain e where
    e: "Service_CreateOrder p pg_service (create_input cid r req) w = (Inl e, w')"
      "resp_status (writeHandlerError e) = 409"
    unfolding Handler_CreateOrder_runs [OF c d h]
    by (elim answer_status) (auto simp: StatusCreated_def)
  then have "errors_Is e ErrIdempotencyConflict"
    using pg.CreateOrder_error_tags [OF e(1)] by (auto simp: writeHandlerError_codes)
  with pg.CreateOrder_conflict [OF good e(1)] c d show ?thesis by (auto simp: create_input_def)
qed

lemma update_404:
  assumes good: "good w" and h: "h = NewHandler (Some (service_methods p pg_service))"
    and run: "Handler_UpdateOrderStatus pkg h r w = (resp, w')" and code: "resp_status resp = 404"
  shows "\<exists>oid. parseOrderID pkg r = Inr oid \<and> \<not> order_exists (w_db w') oid"
proof -
  from run code obtain oid where o: "parseOrderID pkg r = Inr oid"
    by (auto simp: Handler_UpdateOrderStatus_def h NewHandler_def invalid_request_def
        http_status_defs split: sum.splits)
  from run code o obtain req where d: "DecodeUpdateOrderStatusRequest (req_body r) DefaultRequestBodyLimit = Inr req"
    by (auto simp: Handler_UpdateOrderStatus_def h NewHandler_def split: sum.splits
        dest!: DecodeUpdate_error body_error_codes)
  from run code o d obtain role i where "answer (Service_UpdateOrderStatusByTarget pg_service oid (UpdReq_Status req)
        role (privilegedActorID i) None (requestIPAddress r))
      (\<lambda>details. writeJSON StatusOK (OrderResponse (mapOrderResponse pkg details))) w = (resp, w')"
    by (auto simp: Handler_UpdateOrderStatus_def h NewHandler_def unauthorized_def Let_def
        http_status_defs split: option.splits)
  then obtain e where "errors_Is e ErrOrderNotFound" "Service_UpdateOrderStatusByTarget pg_service oid
        (UpdReq_Status req) role (privilegedActorID i) None (requestIPAddress r) w = (Inl e, w')"
    using code by (elim answer_status) (auto simp: StatusOK_def writeHandlerError_codes)
  with good have "\<not> order_exists (w_db w') oid" by (rule pg.UpdateByTarget_not_found)
  with o show ?thesis by blast
qed

text \<open>C30: A refusal tells the truth whatever happens in between: whenever a customer's order is
  answered with 404, no order with that id and that customer exists at the time of the
  answer; whenever a create is answered with 409, the customer has an order under the key of
  the request; and whenever a status update is answered with 404, no order has that id.\<close>

theorem refusals_are_truthful:
  assumes "good w" and "h = NewHandler (Some (service_methods p pg_service))"
  shows "(\<forall>resp w'. Handler_GetOrder pkg h r w = (resp, w') \<and> resp_status resp = 404 \<longrightarrow>
      (\<exists>cid oid. CustomerIDFromContext r = Some cid \<and> parseOrderID pkg r = Inr oid \<and>
        (\<nexists>row. owned_order (w_db w') oid cid row))) \<and>
    (\<forall>resp w'. Handler_CreateOrder pkg h r w = (resp, w') \<and> resp_status resp = 409 \<longrightarrow>
      (\<exists>cid req. CustomerIDFromContext r = Some cid \<and>
        DecodeCreateOrderRequest (req_body r) DefaultRequestBodyLimit = Inr req \<and>
        key_taken (w_db w') cid (Req_IdempotencyKey req))) \<and>
    (\<forall>resp w'. Handler_UpdateOrderStatus pkg h r w = (resp, w') \<and> resp_status resp = 404 \<longrightarrow>
      (\<exists>oid. parseOrderID pkg r = Inr oid \<and> \<not> order_exists (w_db w') oid))"
  using get_404 [OF assms] create_409 [OF assms] update_404 [OF assms] by blast

lemma refusals_are_truthful_witness:
  "resp_status (fst (Handler_GetOrder demo_packages demo_handler (demo_call RoleCustomer []) (start calm_env))) = 404 \<and>
   (\<nexists>row. owned_order (w_db (snd (Handler_GetOrder demo_packages demo_handler (demo_call RoleCustomer [])
      (start calm_env)))) 102 7 row)"
proof -
  let ?m = "Handler_GetOrder demo_packages demo_handler (demo_call RoleCustomer []) (start calm_env)"
  have code: "resp_status (fst ?m) = 404" by code_simp
  have "good (start calm_env)"
    using run_start_good [OF rely_calm, of demo_parse "[]"] by (simp add: run_calls_def)
  from refusals_are_truthful [OF this demo_handler_def, of demo_packages "demo_call RoleCustomer []"] code
  show ?thesis by (auto simp: prod_eq_iff)
qed

section \<open>A lost race\<close>

lemma filter_owned:
  assumes "tables_ok d" and "owned_order d oid cid row"
  shows "filter (\<lambda>r. o_id r = oid \<and> o_customer_id r = cid) (orders d) = [row]"
proof -
  have row: "row \<in> set (orders d)" "o_id row = oid" "o_customer_id row = cid"
    using assms(2) by (simp_all add: owned_order_def)
  let ?f = "filter (\<lambda>r. o_id r = oid \<and> o_customer_id r = cid) (orders d)"
  have "distinct (orders d)" using assms(1) by (auto simp: tables_ok_def keys_ok_def distinct_map)
  then have "distinct ?f" by simp
  moreover have set: "set ?f = {row}" using row row_of_id [OF assms(1)] by auto
  ultimately have "length ?f = 1" using distinct_card [of ?f] by simp
  then obtain x where "?f = [x]" by (auto simp: length_Suc_conv)
  with set show ?thesis by simp
qed

text \<open>C39: Cancelling an order that another session moves on between the service's read and its
  update does not answer with the conflict it is: the transaction finds no pending row, the
  driver's \<open>no rows\<close> is passed on unmapped, and the client gets 500.  The tables stay as the
  other session left them.\<close>

theorem lost_cancel_race_answers_500:
  assumes "\<And>n. env_fault (w_env w) n = NoFault"
    and "d1 = env_others (w_env w) (w_tick w) (w_db w)" and "tables_ok d1"
    and "owned_order d1 oid cid row" and "o_status row = StatusPending"
    and "d2 = env_others (w_env w) (Suc (w_tick w)) d1"
    and "\<And>x. owned_order d2 oid cid x \<Longrightarrow> o_status x \<noteq> StatusPending"
    and "CustomerIDFromContext r = Some cid" and "parseOrderID pkg r = Inr oid"
    and "h = NewHandler (Some (service_methods p pg_service))"
  shows "\<exists>w'. Handler_CancelOrder pkg h r w =
      (writeJSONError 500 ''internal_error'' ''Internal Server Error'', w') \<and> w_db w' = d2"
proof -
  let ?w1 = "(tick w)\<lparr>w_db := d1\<rparr>"
  define input where "input = \<lparr>CancelIn_OrderID = oid, CancelIn_CustomerID = cid, CancelIn_ActorID = Some cid,
      CancelIn_Reason = None, CancelIn_IPAddress = requestIPAddress r\<rparr>"
  define cmd where "cmd = \<lparr>CancelCmd_OrderID = oid, CancelCmd_CustomerID = cid, CancelCmd_ActorID = Some cid,
      CancelCmd_Reason = None, CancelCmd_IPAddress = requestIPAddress r\<rparr>"
  have get: "Repository_GetOrderByIDAndCustomerID oid cid w = (Inr (scan_order row), ?w1)"
    using filter_owned [OF assms(3,4)] assms(1,2)
    by (simp add: Repository_GetOrderByIDAndCustomerID_def Queries_GetOrderByIDAndCustomerID_def db_call_Pool
        run_stmt_def begin_session_def pgUUID_eq_Some one_row_def tick_def)
  have "filter (\<lambda>x. o_id x = oid \<and> o_customer_id x = cid \<and> o_status x = StatusPending) (orders d2) = []"
    using assms(7) by (auto simp: filter_empty_conv owned_order_def)
  then have none: "\<exists>w2. cancel_tx cmd (Tx now) (tick (begin_session ?w1)) = (Inl (Sentinel PgxErrNoRows), w2)" for now
    using assms(1,6)
    by (simp add: cancel_tx_def cmd_def bindE_def Queries_CancelPendingOrder_def db_call_def run_stmt_def
        update_orders_def Let_def one_row_def begin_session_def tick_def pgUUID_eq_Some)
  have db2: "w_db (begin_session ?w1) = d2" using assms(6) by (simp add: begin_session_def tick_def)
  have "\<exists>w'. Repository_CancelOrderWithAudit cmd ?w1 = (Inl (Sentinel PgxErrNoRows), w') \<and> w_db w' = d2"
    using none [of "now_at (w_env w) (Suc (w_tick w))"] assms(1) db2
    by (auto simp: Repository_CancelOrderWithAudit_def withTx_def BeginTx_def RollbackTx_def Let_def)
  then obtain w' where fail: "Repository_CancelOrderWithAudit cmd ?w1 = (Inl (Sentinel PgxErrNoRows), w')"
    and db: "w_db w' = d2" by blast
  have "ValidateTransition (Order_Status (scan_order row)) StatusCancelled = Inr ()"
    using assms(5) ValidateTransition_Inr [of StatusPending StatusCancelled "()"]
    by (simp add: scan_order_def)
  then have "Service_CancelOrderDetails pg_service input w = (Inl (Sentinel PgxErrNoRows), w')"
    using get fail by (simp add: Service_CancelOrderDetails_def Service_CancelOrder_def input_def cmd_def
        bindE_def onErrE_def)
  then have "Handler_CancelOrder pkg h r w = (writeHandlerError (Sentinel PgxErrNoRows), w')"
    using assms(8-10) by (simp add: Handler_CancelOrder_def NewHandler_def answer_def input_def)
  then show ?thesis using db by (simp add: writeHandlerError_def http_status_defs StatusText_def)
qed

text \<open>A session whose worker takes the order just before the cancelling transaction begins.\<close>

definition racing_world :: world where
  "racing_world = placed_world\<lparr>w_env := calm_env\<lparr>env_others := \<lambda>n d.
     if n = Suc (w_tick placed_world)
     then w_db (snd (Service_ProcessPendingOrdersBatch pg_service demo_batch placed_world)) else d\<rparr>\<rparr>"

lemma lost_cancel_race_answers_500_witness:
  "resp_status (fst (Handler_CancelOrder demo_packages demo_handler (demo_call RoleCustomer []) racing_world)) = 500"
proof -
  define d2 where "d2 = w_db (snd (Service_ProcessPendingOrdersBatch pg_service demo_batch placed_world))"
  have "list_all (\<lambda>x. o_status x \<noteq> StatusPending)
      (orders (w_db (snd (Service_ProcessPendingOrdersBatch pg_service demo_batch placed_world))))"
    by code_simp
  then have moved: "owned_order d2 102 7 x \<Longrightarrow> o_status x \<noteq> StatusPending" for x
    by (auto simp: list_all_iff owned_order_def d2_def)
  obtain row where row: "owned_order (w_db placed_world) 102 7 row" "o_status row = StatusPending"
    using placed_order_facts by (auto simp: owned_order_def)
  have env: "env_fault (w_env racing_world) n = NoFault" for n
    by (simp add: racing_world_def calm_env_def)
  have s1: "w_db placed_world = env_others (w_env racing_world) (w_tick racing_world) (w_db racing_world)"
    by (simp add: racing_world_def)
  have s2: "d2 = env_others (w_env racing_world) (Suc (w_tick racing_world)) (w_db placed_world)"
    by (simp add: racing_world_def d2_def)
  from lost_cancel_race_answers_500 [OF env s1 placed_world_ok row s2 moved _ _ demo_handler_def,
      where r = "demo_call RoleCustomer []" and pkg = demo_packages]
  show ?thesis by (auto simp: writeJSONError_def writeJSON_def)
qed

end
