(* ===== verification/PageWalk.thy ===== *)
theory PageWalk
  imports EndToEnd
begin

text \<open>
  A client that follows \<open>next_cursor\<close>: the query string it sends, how the server reads it, and
  the list it collects page by page.
\<close>

section \<open>The client's query string\<close>

text \<open>Text that a query string carries as it is.\<close>

definition plain :: "string \<Rightarrow> bool" where
  "plain s \<longleftrightarrow> list_all (\<lambda>c. c \<notin> set ''&=;%+'') s"

lemma plain_simps [simp]:
  "plain []" "plain (c # s) \<longleftrightarrow> c \<notin> set ''&=;%+'' \<and> plain s" "plain (s @ t) \<longleftrightarrow> plain s \<and> plain t"
  by (simp_all add: plain_def)

lemma plain_notin: "plain s \<Longrightarrow> c \<in> set ''&=;%+'' \<Longrightarrow> c \<notin> set s"
  by (auto simp: plain_def list_all_iff)

lemma unescape_plain: "plain s \<Longrightarrow> unescape_url EncodeQuery s = Some s"
  by (induction s) auto

lemma cut_plain: "plain k \<Longrightarrow> cut CHR ''='' (k @ ''='' @ v) = (k, v)"
  by (induction k) (auto simp: cut_def)

lemma parse_pair_plain:
  assumes "plain k" and "plain v"
  shows "parse_pair (k @ ''='' @ v) = Some (k, v)"
  using assms plain_notin [of _ "CHR '';''"]
  by (simp add: parse_pair_def cut_plain [OF assms(1), simplified] unescape_plain)

definition page_query :: "int32 \<Rightarrow> string \<Rightarrow> string \<Rightarrow> string" where
  "page_query limit st cursor =
     ''limit='' @ show_dec (sint limit) @ ''&status='' @ st @ ''&cursor='' @ cursor"

lemma Query_Get_page:
  assumes "plain (show_dec (sint limit))" and "plain st" and "plain cursor"
  shows "Query_Get (page_query limit st cursor) ''limit'' = show_dec (sint limit)"
    and "Query_Get (page_query limit st cursor) ''status'' = st"
    and "Query_Get (page_query limit st cursor) ''cursor'' = cursor"
proof -
  have amp: "CHR ''&'' \<notin> set (''limit='' @ show_dec (sint limit))" "CHR ''&'' \<notin> set (''status='' @ st)"
    "CHR ''&'' \<notin> set (''cursor='' @ cursor)" using assms plain_notin [of _ "CHR ''&''"] by simp_all
  have "page_query limit st cursor =
      (''limit='' @ show_dec (sint limit)) @ CHR ''&'' # (''status='' @ st) @ CHR ''&'' # (''cursor='' @ cursor)"
    by (simp add: page_query_def)
  then have "Split CHR ''&'' (page_query limit st cursor) =
      [''limit='' @ show_dec (sint limit), ''status='' @ st, ''cursor='' @ cursor]"
    using Split_append [OF amp(1)] Split_append [OF amp(2)] Split_no_sep [OF amp(3)] by simp
  moreover have "parse_pair (''limit='' @ show_dec (sint limit)) = Some (''limit'', show_dec (sint limit))"
    "parse_pair (''status='' @ st) = Some (''status'', st)"
    "parse_pair (''cursor='' @ cursor) = Some (''cursor'', cursor)"
    using parse_pair_plain [of "''limit''"] parse_pair_plain [of "''status''"] parse_pair_plain [of "''cursor''"] assms
    by simp_all
  ultimately have "ParseQuery (page_query limit st cursor) =
      [(''limit'', show_dec (sint limit)), (''status'', st), (''cursor'', cursor)]"
    by (simp add: ParseQuery_def List.map_filter_simps)
  then show "Query_Get (page_query limit st cursor) ''limit'' = show_dec (sint limit)"
    and "Query_Get (page_query limit st cursor) ''status'' = st"
    and "Query_Get (page_query limit st cursor) ''cursor'' = cursor"
    by (simp_all add: Query_Get_def)
qed

lemma plain_bytes:
  assumes "\<And>c. c \<in> set s \<Longrightarrow> byte c \<notin> {37, 38, 43, 59, 61}"
  shows "plain s"
proof -
  have "c \<notin> set ''&=;%+''" if "c \<in> set s" for c
    using assms [OF that] by auto
  then show ?thesis by (simp add: plain_def list_all_iff)
qed

lemma plain_digits: "list_all is_digit s \<Longrightarrow> plain s"
  by (rule plain_bytes) (auto simp: list_all_iff is_digit_def)

lemma plain_encodeCursor: "plain (encodeCursor pkg t u)"
  unfolding encodeCursor_def b64_encode_sextets
proof (rule plain_bytes)
  fix c :: char and s
  assume "c \<in> set (map b64_digit (sextets s))"
  then obtain n where "n < 64" "c = b64_digit n" using sextets_less by auto
  then show "byte c \<notin> {37, 38, 43, 59, 61}" by (auto simp: byte_b64_digit)
qed

section \<open>How the server reads it\<close>

lemma limit_text:
  assumes "1 \<le> sint limit" and "sint limit \<le> 100"
  shows "plain (show_dec (sint limit))" and "parseListLimit (show_dec (sint limit)) = Inr limit"
proof -
  define n where "n = nat (sint limit)"
  have n: "sint limit = int n" "1 \<le> n" "n \<le> 100" using assms by (simp_all add: n_def)
  have t: "show_dec (sint limit) = show_nat n" by (simp only: n(1) show_dec_nat)
  show "plain (show_dec (sint limit))" unfolding t by (rule plain_digits) (rule show_nat_digits)
  have "TrimSpace (show_nat n) = show_nat n"
    by (rule TrimSpace_printable) (use show_nat_digits [of n] in \<open>auto simp: list_all_iff is_digit_def\<close>)
  moreover have "Atoi (show_nat n) = Some (int n)" using n(3) by (intro Atoi_show_nat) simp
  moreover have "word_of_int (int n) = limit" unfolding n(1) [symmetric] by simp
  ultimately show "parseListLimit (show_dec (sint limit)) = Inr limit"
    using n unfolding t by (simp add: parseListLimit_def maxListLimit_def)
qed

definition status_filter :: "string \<Rightarrow> OrderStatus option" where
  "status_filter st = (if st = [] then None else Some st)"

lemma status_param_text:
  assumes "st = [] \<or> IsValidStatus st"
  shows "plain st" and "parseStatusParam st = Inr (status_filter st)" and "pg_null_text (status_filter st)"
proof -
  have "plain st \<and> parseStatusParam st = Inr (status_filter st) \<and> pg_null_text (status_filter st)"
    if "st \<in> {[], ''PENDING'', ''PROCESSING'', ''SHIPPED'', ''DELIVERED'', ''CANCELLED''}"
    using that by (elim insertE emptyE) (simp only:, code_simp)+
  then show "plain st" "parseStatusParam st = Inr (status_filter st)" "pg_null_text (status_filter st)"
    using assms by (auto simp: IsValidStatus_iff status_defs)
qed

section \<open>One page\<close>

definition page_request :: "http_request \<Rightarrow> int32 \<Rightarrow> string \<Rightarrow> string \<Rightarrow> http_request" where
  "page_request r limit st cursor = r\<lparr>req_raw_query := page_query limit st cursor\<rparr>"

lemma page_request_customer [simp]:
  "CustomerIDFromContext (page_request r limit st cursor) = CustomerIDFromContext r"
  by (simp add: page_request_def CustomerIDFromContext_def IdentityFromContext_def)

lemma page_answer:
  assumes calm: "calm (w_env w)" and limit: "1 \<le> sint limit" "sint limit \<le> 100"
    and st: "st = [] \<or> IsValidStatus st" and cid: "CustomerIDFromContext r = Some cid"
    and h: "h = NewHandler (Some (service_methods p pg_service))"
    and cursor: "plain cursor" "parseCursor pkg cursor = Inr (map_option fst c, map_option snd c)"
  defines "rows \<equiv> take (nat (sint limit)) (remaining c (newest_first (w_db w) cid (status_filter st)))"
  obtains w' where "Handler_ListOrders pkg h (page_request r limit st cursor) w =
      (writeJSON 200 (OrderListResponse (list_response pkg limit (map (details_of (w_db w)) rows))), w')"
    and "onward w w'" and "w_db w' = w_db w"
proof -
  have "0 \<le> sint limit" using limit by simp
  from list_details_calm [OF calm this status_param_text(3) [OF st], of cid c]
  obtain w' where run: "Service_ListOrderDetails pg_service (list_input cid limit (status_filter st) c) w =
      (Inr (map (details_of (w_db w)) rows), w')" and w': "onward w w'" "w_db w' = w_db w"
    by (auto simp: succeeds_def rows_def)
  have "req_raw_query (page_request r limit st cursor) = page_query limit st cursor"
    by (simp add: page_request_def)
  then have "Handler_ListOrders pkg h (page_request r limit st cursor) w =
      (writeJSON 200 (OrderListResponse (list_response pkg limit (map (details_of (w_db w)) rows))), w')"
    using run limit_text [OF limit] status_param_text [OF st] cursor cid
    by (simp add: Handler_ListOrders_def h NewHandler_def Query_Get_page answer_def list_input_def StatusOK_def)
  with w' that show ?thesis by blast
qed

section \<open>The walk\<close>

text \<open>A client collects a list: it asks with an empty cursor, then with each \<open>next_cursor\<close>, at
  most \<open>fuel\<close> times, and gives up on any other answer.\<close>

fun page_walk :: "nat \<Rightarrow> (string \<Rightarrow> 's \<Rightarrow> http_response \<times> 's) \<Rightarrow> string \<Rightarrow> 's \<Rightarrow> orderResponse list option" where
  "page_walk 0 ask cursor s = None"
| "page_walk (Suc fuel) ask cursor s =
     (case ask cursor s of (resp, t) \<Rightarrow>
        (case resp_body resp of
           OrderListResponse l \<Rightarrow>
             (case List_NextCursor l of
                None \<Rightarrow> Some (List_Orders l)
              | Some next \<Rightarrow> map_option ((@) (List_Orders l)) (page_walk fuel ask next t))
         | _ \<Rightarrow> None))"

text \<open>The rows whose cursors survive the round trip.\<close>

definition cursors_ok :: "packages \<Rightarrow> tables \<Rightarrow> bool" where
  "cursors_ok pkg d \<longleftrightarrow>
     (\<forall>r \<in> set (orders d). four_digit_year (o_created_at r) \<and>
        pkg_uuid_Parse pkg (pkg_uuid_String pkg (o_id r)) = Some (o_id r) \<and>
        CHR ''|'' \<notin> set (pkg_uuid_String pkg (o_id r)))"

lemma list_response_full:
  assumes "rs \<noteq> []" and "int (length rs) = sint limit"
  shows "List_NextCursor (list_response pkg limit (map (details_of d) rs)) =
     Some (encodeCursor pkg (o_created_at (last rs)) (o_id (last rs)))"
  using assms by (simp add: list_response_def last_map details_of_def scan_order_def pg_time_def uuid_bytes_def)

lemma page_walk_from:
  assumes "calm (w_env w)" and ok: "tables_ok (w_db w)" and limit: "1 \<le> sint limit" "sint limit \<le> 100"
    and st: "st = [] \<or> IsValidStatus st" and cid: "CustomerIDFromContext r = Some cid"
    and h: "h = NewHandler (Some (service_methods p pg_service))" and cur: "cursors_ok pkg (w_db w)"
    and "plain cursor" "parseCursor pkg cursor = Inr (map_option fst c, map_option snd c)"
    and "remaining c (newest_first (w_db w) cid (status_filter st)) =
       drop i (newest_first (w_db w) cid (status_filter st))"
    and "length (newest_first (w_db w) cid (status_filter st)) < fuel + i"
    and "i \<le> length (newest_first (w_db w) cid (status_filter st))"
  shows "page_walk fuel (\<lambda>cursor. Handler_ListOrders pkg h (page_request r limit st cursor)) cursor w =
    Some (map (mapOrderResponse pkg \<circ> details_of (w_db w))
      (drop i (newest_first (w_db w) cid (status_filter st))))"
  using assms
proof (induction fuel arbitrary: w cursor c i)
  case 0
  then show ?case by simp
next
  case (Suc fuel)
  note prems = Suc.prems
  define xs where "xs = newest_first (w_db w) cid (status_filter st)"
  define n where "n = nat (sint limit)"
  have n: "1 \<le> n" "sint limit = int n" using limit by (simp_all add: n_def)
  let ?rows = "take n (drop i xs)"
  note page = page_answer [OF prems(1) limit st cid h prems(9,10),
      unfolded prems(11), folded xs_def, folded n_def]
  obtain w' where
    ans: "Handler_ListOrders pkg h (page_request r limit st cursor) w =
      (writeJSON 200 (OrderListResponse (list_response pkg limit (map (details_of (w_db w)) ?rows))), w')"
    and w': "onward w w'" "w_db w' = w_db w"
    by (rule page)
  show ?case
  proof (cases "length ?rows = n")
    case False
    then have short: "?rows = drop i xs" by simp
    have "List_NextCursor (list_response pkg limit (map (details_of (w_db w)) ?rows)) = None"
      using False n(2) by (simp add: list_response_def)
    then show ?thesis unfolding xs_def [symmetric]
      by (simp add: ans writeJSON_def) (simp add: list_response_def short comp_def)
  next
    case True
    define j where "j = i + n"
    have j: "j \<le> length xs" "0 < j" "i < j" using True n(1) by (simp_all add: j_def min_def split: if_splits)
    have rows: "?rows \<noteq> []" "last ?rows = xs ! (j - 1)"
    proof -
      show ne: "?rows \<noteq> []" using True n(1) by (cases "?rows") simp_all
      have "last ?rows = drop i xs ! (n - 1)" unfolding last_conv_nth [OF ne] True using n(1) by simp
      then show "last ?rows = xs ! (j - 1)" using n(1) j by (simp add: j_def)
    qed
    let ?last = "xs ! (j - 1)"
    let ?next = "encodeCursor pkg (o_created_at ?last) (o_id ?last)"
    have nxt: "List_NextCursor (list_response pkg limit (map (details_of (w_db w)) ?rows)) = Some ?next"
      using list_response_full [OF rows(1)] True n(2) rows(2) by simp
    have "?last \<in> set xs" using j by simp
    then have "?last \<in> set (orders (w_db w))" by (simp add: xs_def newest_first_set)
    with prems(8) have parse: "parseCursor pkg ?next = Inr (Some (o_created_at ?last), Some (o_id ?last))"
      by (intro parse_encode) (auto simp: cursors_ok_def)
    have step: "remaining (Some (cursor_of ?last)) xs = drop j xs"
    proof -
      have "j - 1 < length xs" "Suc (j - 1) = j" using j by simp_all
      with remaining_after [OF prems(2), of "j - 1" cid "status_filter st"] show ?thesis
        unfolding xs_def by metis
    qed
    have walk: "page_walk fuel (\<lambda>cursor. Handler_ListOrders pkg h (page_request r limit st cursor)) ?next w' =
        Some (map (mapOrderResponse pkg \<circ> details_of (w_db w'))
          (drop j (newest_first (w_db w') cid (status_filter st))))"
    proof (rule Suc.IH)
      show "parseCursor pkg ?next = Inr (map_option fst (Some (cursor_of ?last)), map_option snd (Some (cursor_of ?last)))"
        using parse by (simp add: cursor_of_def)
      show "remaining (Some (cursor_of ?last)) (newest_first (w_db w') cid (status_filter st)) =
          drop j (newest_first (w_db w') cid (status_filter st))"
        using step w'(2) unfolding xs_def by simp
      show "length (newest_first (w_db w') cid (status_filter st)) < fuel + j"
        using prems(12) n(1) w'(2) by (simp add: j_def)
      show "j \<le> length (newest_first (w_db w') cid (status_filter st))"
        using j(1) w'(2) by (simp add: xs_def)
    qed (use prems(1-8) w' plain_encodeCursor onward_calm in auto)
    have "?rows @ drop j xs = drop i xs"
      using append_take_drop_id [of n "drop i xs"] by (simp only: drop_drop j_def add.commute)
    then have "map f ?rows @ map f (drop j xs) = map f (drop i xs)" for f :: "orders_row \<Rightarrow> orderResponse"
      by (simp only: map_append [symmetric])
    then show ?thesis unfolding xs_def [symmetric]
      using walk w'(2) by (simp add: ans writeJSON_def nxt) (simp add: list_response_def comp_def xs_def)
  qed
qed


section \<open>The whole list\<close>

text \<open>C13: A client that follows the cursors gets the whole list: with any page size from 1 to 100
  and any status filter, asking again with each \<open>next_cursor\<close> collects exactly the caller's
  orders that match, newest first, each once and each as it is stored, and after at most one
  request more than there are orders the server says that there are no more.\<close>

theorem pages_cover_list:
  assumes "calm (w_env w)" and "tables_ok (w_db w)" and "1 \<le> sint limit" and "sint limit \<le> 100"
    and "st = [] \<or> IsValidStatus st" and "CustomerIDFromContext r = Some cid"
    and "h = NewHandler (Some (service_methods p pg_service))" and "cursors_ok pkg (w_db w)"
  shows "\<exists>rows. page_walk (Suc (length (orders (w_db w))))
        (\<lambda>cursor. Handler_ListOrders pkg h (page_request r limit st cursor)) [] w =
      Some (map (\<lambda>row. mapOrderResponse pkg (details_of (w_db w) row)) rows) \<and>
    distinct rows \<and> sorted_wrt (\<lambda>x y. order_key y < order_key x) rows \<and>
    set rows = {row \<in> set (orders (w_db w)). o_customer_id row = cid \<and> (st = [] \<or> o_status row = st)}"
proof (intro exI conjI)
  let ?rows = "newest_first (w_db w) cid (status_filter st)"
  have "length ?rows \<le> length (orders (w_db w))" by (simp add: newest_first_def)
  then show "page_walk (Suc (length (orders (w_db w))))
        (\<lambda>cursor. Handler_ListOrders pkg h (page_request r limit st cursor)) [] w =
      Some (map (\<lambda>row. mapOrderResponse pkg (details_of (w_db w) row)) ?rows)"
    using page_walk_from [OF assms, of "[]" None 0 "Suc (length (orders (w_db w)))"]
    by (simp add: parseCursor_def comp_def del: page_walk.simps)
  show "distinct ?rows" using assms(2) by (rule newest_first_distinct)
  show "sorted_wrt (\<lambda>x y. order_key y < order_key x) ?rows"
    using assms(2) by (rule newest_first_descending)
  show "set ?rows = {row \<in> set (orders (w_db w)). o_customer_id row = cid \<and> (st = [] \<or> o_status row = st)}"
    by (auto simp: newest_first_set wanted_def status_filter_def)
qed

lemma pages_cover_list_witness:
  "\<exists>xs. page_walk (Suc (length (orders (w_db placed_world))))
      (\<lambda>cursor. Handler_ListOrders demo_packages demo_handler
         (page_request (demo_call RoleCustomer []) 1 ''PENDING'' cursor)) [] placed_world = Some xs \<and>
     length xs = 1"
proof -
  have "map o_created_at (orders (w_db placed_world)) = [1003000]" by code_simp
  then have cur: "cursors_ok demo_packages (w_db placed_world)"
    using placed_order_facts by (auto simp: cursors_ok_def four_digit_year_def demo_packages_def map_eq_Cons_conv)
  have st: "''PENDING'' = [] \<or> IsValidStatus ''PENDING''" by (simp add: IsValidStatus_iff status_defs)
  have all: "{row \<in> set (orders (w_db placed_world)). o_customer_id row = 7 \<and>
      (''PENDING'' = [] \<or> o_status row = ''PENDING'')} = set (orders (w_db placed_world))"
    using placed_order_facts by (auto simp: StatusPending_def)
  have one: "length (orders (w_db placed_world)) = 1" using arg_cong [OF placed_orders(1), of length] by simp
  obtain rows where
    "page_walk (Suc (length (orders (w_db placed_world))))
      (\<lambda>cursor. Handler_ListOrders demo_packages demo_handler
         (page_request (demo_call RoleCustomer []) 1 ''PENDING'' cursor)) [] placed_world =
      Some (map (\<lambda>row. mapOrderResponse demo_packages (details_of (w_db placed_world) row)) rows)"
    and rows: "distinct rows" "set rows = set (orders (w_db placed_world))"
    using pages_cover_list [OF _ placed_world_ok _ _ st demo_call_facts(1) demo_handler_def cur, of 1 "[]"]
    unfolding all by (auto simp: placed_world_env)
  moreover have "length rows = 1"
  proof -
    from one obtain y where "orders (w_db placed_world) = [y]" by (auto simp: length_Suc_conv)
    then have "card (set rows) = 1" using rows(2) by simp
    then show ?thesis using distinct_card [OF rows(1)] by simp
  qed
  ultimately show ?thesis by auto
qed

end
