(* ===== verification/PeerAddress.thy ===== *)
theory PeerAddress
  imports EndToEnd
begin

text \<open>
  The client's address, from the TCP connection to the audit trail: what each statement,
  transaction, service method and handler writes into \<open>order_events\<close>.  \<open>stamps a n m\<close> says
  that \<open>m\<close>, whatever faults the driver reports, only appends events with the address \<open>a\<close>,
  and exactly \<open>n\<close> of them when it succeeds.
\<close>

section \<open>Operations and the events they append\<close>

text \<open>Other sessions may change the tables between two statements, but write no events.\<close>

definition private_events :: "env \<Rightarrow> bool" where
  "private_events E \<longleftrightarrow> (\<forall>n d. order_events (env_others E n d) = order_events d)"

definition appended :: "netip_Addr option \<Rightarrow> nat option \<Rightarrow> tables \<Rightarrow> tables \<Rightarrow> bool" where
  "appended a n d d' \<longleftrightarrow>
     (\<exists>es. order_events d' = order_events d @ es \<and> (\<forall>e \<in> set es. v_ip_address e = a) \<and>
       (case n of None \<Rightarrow> True | Some k \<Rightarrow> length es = k))"

definition stamps :: "netip_Addr option \<Rightarrow> nat \<Rightarrow> 'a dbop \<Rightarrow> bool" where
  "stamps a n m \<longleftrightarrow> (\<forall>w r w'. private_events (w_env w) \<longrightarrow> m w = (r, w') \<longrightarrow>
     w_env w' = w_env w \<and> appended a (case r of Inl _ \<Rightarrow> None | Inr _ \<Rightarrow> Some n) (w_db w) (w_db w'))"

lemma stampsI:
  assumes "\<And>w r w'. private_events (w_env w) \<Longrightarrow> m w = (r, w') \<Longrightarrow>
    w_env w' = w_env w \<and> appended a (case r of Inl _ \<Rightarrow> None | Inr _ \<Rightarrow> Some n) (w_db w) (w_db w')"
  shows "stamps a n m"
  using assms unfolding stamps_def by blast

lemma stampsD:
  assumes "stamps a n m" and "m w = (r, w')" and "private_events (w_env w)"
  shows "w_env w' = w_env w" and "appended a (case r of Inl _ \<Rightarrow> None | Inr _ \<Rightarrow> Some n) (w_db w) (w_db w')"
  using assms unfolding stamps_def by blast+

lemma appended_same [simp]: "order_events d' = order_events d \<Longrightarrow> appended a None d d'"
  "order_events d' = order_events d \<Longrightarrow> appended a (Some 0) d d'"
  by (simp_all add: appended_def)

lemma appended_any: "appended a n d d' \<Longrightarrow> appended a None d d'"
  by (auto simp: appended_def)

lemma appended_trans:
  assumes "appended a (Some k) d d1" and "appended a n d1 d2"
  shows "appended a (map_option ((+) k) n) d d2"
proof -
  from assms obtain es es' where
    "order_events d1 = order_events d @ es" "\<forall>e \<in> set es. v_ip_address e = a" "length es = k"
    "order_events d2 = order_events d1 @ es'" "\<forall>e \<in> set es'. v_ip_address e = a"
    "case n of None \<Rightarrow> True | Some j \<Rightarrow> length es' = j" by (auto simp: appended_def)
  then show ?thesis unfolding appended_def
    by (intro exI [of _ "es @ es'"]) (auto split: option.splits)
qed

lemma appended_trans_any: "appended a m d d1 \<Longrightarrow> appended a n d1 d2 \<Longrightarrow> appended a None d d2"
  unfolding appended_def by (metis (no_types, opaque_lifting) Un_iff append_assoc option.simps(4) set_append)

lemma stamps_pure [simp, intro]:
  "stamps a 0 (returnE x)" "stamps a n (failE e)" "stamps a 0 (liftE s)" "stamps a 0 (drawE draw_uuid)"
  by (auto simp: stamps_def returnE_def failE_def liftE_def drawE_def draw_uuid_def split: sum.splits)

lemma stamps_bind:
  assumes "stamps a k m" and "\<And>x. stamps a n (f x)"
  shows "stamps a (k + n) (bindE m f)"
proof (rule stampsI)
  fix w r w' assume p: "private_events (w_env w)" and run: "bindE m f w = (r, w')"
  from run show "w_env w' = w_env w \<and>
      appended a (case r of Inl _ \<Rightarrow> None | Inr _ \<Rightarrow> Some (k + n)) (w_db w) (w_db w')"
  proof (cases rule: bindE_cases)
    case (err e)
    from stampsD [OF assms(1) err(1) p] err(2) show ?thesis by simp
  next
    case (ok x w1)
    note m = stampsD [OF assms(1) ok(1) p]
    from m(1) p have "private_events (w_env w1)" by simp
    note f = stampsD [OF assms(2) ok(2) this]
    from appended_trans [OF _ f(2)] m f(1) show ?thesis by (cases r) auto
  qed
qed

text \<open>A handler of errors that cannot succeed.\<close>

lemma stamps_onErr:
  assumes "stamps a n m" and "\<And>e k. stamps a k (h e)"
  shows "stamps a n (onErrE m h)"
proof (rule stampsI)
  fix w r w' assume p: "private_events (w_env w)" and run: "onErrE m h w = (r, w')"
  from run show "w_env w' = w_env w \<and>
      appended a (case r of Inl _ \<Rightarrow> None | Inr _ \<Rightarrow> Some n) (w_db w) (w_db w')"
  proof (cases rule: onErrE_cases)
    case (err e w1)
    note m = stampsD [OF assms(1) err(1) p]
    from m(1) p have p1: "private_events (w_env w1)" by simp
    note h = stampsD [OF assms(2) err(2) p1]
    show ?thesis
    proof (cases r)
      case (Inl x)
      with m h appended_trans_any [OF m(2) h(2)] show ?thesis by simp
    next
      case (Inr x)
      with h(2) [of 0] h(2) [of 1] have False by (auto simp: appended_def)
      then show ?thesis ..
    qed
  next
    case (ok x)
    from stampsD [OF assms(1) ok(1) p] ok(2) show ?thesis by simp
  qed
qed

lemma stamps_mapE: "(\<And>x. stamps a 0 (f x)) \<Longrightarrow> stamps a 0 (mapE f xs)"
proof (induction xs)
  case (Cons x xs)
  have "stamps a (0 + (0 + 0)) (mapE f (x # xs))"
    unfolding mapE.simps by (intro stamps_bind Cons stamps_pure)
  then show ?case by simp
qed simp

section \<open>Statements and transactions\<close>

definition stamps_stmt :: "netip_Addr option \<Rightarrow> nat \<Rightarrow> 'a stmt \<Rightarrow> bool" where
  "stamps_stmt a n stmt \<longleftrightarrow> (\<forall>now d x d'. stmt now d = Inr (x, d') \<longrightarrow> appended a (Some n) d d')"

lemma run_stmt_appended:
  assumes "run_stmt now stmt w = (r, w')" and "stamps_stmt a n stmt"
  shows "w_env w' = w_env w \<and> appended a (case r of Inl _ \<Rightarrow> None | Inr _ \<Rightarrow> Some n) (w_db w) (w_db w')"
  using assms(1) by (cases rule: run_stmt_elim) (use assms(2) in \<open>auto simp: stamps_stmt_def\<close>)

lemma session_events: "private_events (w_env w) \<Longrightarrow> order_events (w_db (begin_session w)) = order_events (w_db w)"
  by (simp add: private_events_def)

lemma stamps_call:
  assumes "stamps_stmt a n stmt"
  shows "stamps a n (db_call conn stmt)"
proof (rule stampsI)
  fix w r w' assume p: "private_events (w_env w)" and run: "db_call conn stmt w = (r, w')"
  show "w_env w' = w_env w \<and> appended a (case r of Inl _ \<Rightarrow> None | Inr _ \<Rightarrow> Some n) (w_db w) (w_db w')"
  proof (cases conn)
    case Pool
    with run have "run_stmt (now_at (w_env w) (w_tick w)) stmt (begin_session w) = (r, w')"
      by (simp add: db_call_Pool)
    from run_stmt_appended [OF this assms] session_events [OF p] show ?thesis by (simp add: appended_def)
  next
    case (Tx now)
    with run have "run_stmt now stmt w = (r, w')" by simp
    then show ?thesis using assms by (rule run_stmt_appended)
  qed
qed

lemma stamps_read: "read_only stmt \<Longrightarrow> stamps a 0 (db_call conn stmt)"
  unfolding read_only_def stamps_stmt_def [abs_def]
  by (rule stamps_call) (metis appended_same(2) stamps_stmt_def)

lemma stamps_reads [simp, intro]:
  "stamps a 0 (Repository_GetOrderByIDAndCustomerID oid cid)"
  "stamps a 0 (Repository_GetOrderItemsByOrderID oid)"
  "stamps a 0 (Repository_GetOrderEventsByOrderID oid)"
  unfolding Repository_GetOrderByIDAndCustomerID_def Repository_GetOrderItemsByOrderID_def
    Repository_GetOrderEventsByOrderID_def query_defs
  by (rule stamps_read, simp)+

lemma one_row_events: "one_row (update_orders P s now d) = Inr (x, d') \<Longrightarrow> order_events d' = order_events d"
  by (auto simp: one_row_def update_orders_def Let_def split: list.splits)

lemma stamps_order_writes [simp, intro]:
  "stamps a 0 (Queries_CreateOrder conn c)" "stamps a 0 (Queries_CreateOrderItem conn i)"
  "stamps a 0 (Queries_CancelPendingOrder conn x)"
  "stamps a 0 (Queries_UpdateOrderStatusIfCurrentStatusMatches conn u)"
  unfolding query_defs
  by (rule stamps_call, auto simp: stamps_stmt_def create_order_stmt_def create_item_stmt_def Let_def
      insert_order_row_def insert_item_row_def dest!: one_row_events
      split: option.splits if_splits sum.splits)+

lemma stamps_event:
  assumes "EventP_IpAddress arg = a"
  shows "stamps a 1 (Queries_CreateOrderEvent conn arg)"
  unfolding Queries_CreateOrderEvent_def
proof (rule stamps_call)
  show "stamps_stmt a 1 (create_event_stmt arg)"
    using assms
    by (auto simp: stamps_stmt_def appended_def insert_event_Inr new_event_row_def dest!: create_event_stmt_Inr)
qed

lemma stamps_uuid [simp, intro]: "stamps a 0 uuid_New"
  by (simp add: uuid_New_def)

text \<open>The way every write ends: an event id is drawn, the event is inserted.\<close>

lemma stamps_finish:
  assumes "\<And>eventID. EventP_IpAddress (arg eventID) = a"
  shows "stamps a 1 (bindE uuid_New (\<lambda>eventID. bindE (Queries_CreateOrderEvent conn (arg eventID)) (\<lambda>_. returnE y)))"
proof -
  have "stamps a (0 + (1 + 0))
      (bindE uuid_New (\<lambda>eventID. bindE (Queries_CreateOrderEvent conn (arg eventID)) (\<lambda>_. returnE y)))"
    by (intro stamps_bind stamps_uuid stamps_event stamps_pure assms)
  then show ?thesis by simp
qed

lemma stamps_first: "stamps a 0 m \<Longrightarrow> (\<And>x. stamps a n (f x)) \<Longrightarrow> stamps a n (bindE m f)"
  using stamps_bind [of a 0 m n f] by simp

lemma stamps_last: "stamps a n m \<Longrightarrow> (\<And>x. stamps a 0 (f x)) \<Longrightarrow> stamps a n (bindE m f)"
  using stamps_bind [of a n m 0 f] by simp

lemma stamps_bodies:
  "inetValue (CreateCmd_IPAddress c) = a \<Longrightarrow> stamps a 1 (create_tx c conn)"
  "inetValue (CancelCmd_IPAddress x) = a \<Longrightarrow> stamps a 1 (cancel_tx x conn)"
  "inetValue (UpdateCmd_IPAddress u) = a \<Longrightarrow> stamps a 1 (update_tx u conn)"
  unfolding create_tx_def cancel_tx_def update_tx_def create_items_def
  by (intro stamps_first stamps_order_writes stamps_mapE stamps_finish, simp)+

lemma stamps_withTx:
  assumes fn: "\<And>conn. stamps a n (fn conn)"
  shows "stamps a n (withTx fn)"
proof (rule stampsI)
  fix w r w' assume p: "private_events (w_env w)" and run: "withTx fn w = (r, w')"
  have env: "keeps_env (w_env w) (fn conn)" for conn
    using stampsD(1) [OF fn] p by (intro keepsEI) (metis (full_types))
  have same: "order_events (w_db (begin_session w)) = order_events (w_db w)" using p by (rule session_events)
  from run env show "w_env w' = w_env w \<and>
      appended a (case r of Inl _ \<Rightarrow> None | Inr _ \<Rightarrow> Some n) (w_db w) (w_db w')"
  proof (cases rule: withTx_elim)
    case (committed x w2)
    from stampsD(2) [OF fn committed(1)] p same have "appended a (Some n) (w_db w) (w_db w2)"
      by (simp add: appended_def)
    with committed show ?thesis by (auto dest: appended_any)
  qed (use same in simp_all)
qed

section \<open>Service methods\<close>

lemma stamps_command_items: "stamps a 0 (command_items p pg_service k items)"
proof (induction items arbitrary: k)
  case (Cons it items)
  then show ?case by (auto intro!: stamps_first split: option.splits)
qed simp

lemma stamps_with_items [simp, intro]: "stamps a 0 (with_items pg_service x)"
  unfolding with_items_def by (intro stamps_first stamps_pure) simp

lemma CreateOrder_stamps:
  assumes "inetValue (CreateIn_IPAddress input) = a"
  shows "stamps a 1 (Service_CreateOrder p pg_service input)"
  unfolding Service_CreateOrder_def pg_simps Repository_CreateOrderWithItemsAndAudit_def
  by (intro stamps_first stamps_pure stamps_command_items stamps_onErr stamps_withTx stamps_bodies)
    (simp_all add: assms)

lemma CancelOrderDetails_stamps:
  assumes "inetValue (CancelIn_IPAddress input) = a"
  shows "stamps a 1 (Service_CancelOrderDetails pg_service input)"
  unfolding Service_CancelOrderDetails_def Service_CancelOrder_def pg_simps Repository_CancelOrderWithAudit_def
  by (intro stamps_last stamps_with_items stamps_first stamps_pure stamps_withTx stamps_bodies
      stamps_onErr stamps_reads) (simp_all add: assms)

lemma resolve_stamps: "stamps a k (resolveStatusUpdateNoRows pg_service oid)"
  unfolding resolveStatusUpdateNoRows_def pg_simps by (intro stamps_first) auto

lemma UpdateOrderStatusByTarget_stamps:
  assumes "inetValue ip = a"
  shows "stamps a 1 (Service_UpdateOrderStatusByTarget pg_service oid st actor aid reason ip)"
proof -
  have "stamps a 1 (Service_UpdateOrderStatus pg_service input)"
    if "inetValue (UpdateIn_IPAddress input) = a" for input
  proof -
    have "stamps a 1 (withTx (update_tx \<lparr>UpdateCmd_OrderID = UpdateIn_OrderID input,
        UpdateCmd_ExpectedStatus = UpdateIn_ExpectedStatus input, UpdateCmd_NewStatus = UpdateIn_NewStatus input,
        UpdateCmd_ActorType = UpdateIn_ActorType input, UpdateCmd_ActorID = UpdateIn_ActorID input,
        UpdateCmd_Reason = UpdateIn_Reason input, UpdateCmd_IPAddress = UpdateIn_IPAddress input\<rparr>))"
      using that by (intro stamps_withTx stamps_bodies) simp
    then show ?thesis
      unfolding Service_UpdateOrderStatus_def pg_simps Repository_UpdateOrderStatusWithAudit_def
      by (auto intro!: stamps_first stamps_onErr resolve_stamps)
  qed
  then show ?thesis
    unfolding Service_UpdateOrderStatusByTarget_def Service_UpdateOrderStatusDetails_def
    by (intro stamps_first stamps_last stamps_with_items stamps_pure) (simp_all add: assms)
qed

section \<open>Handlers\<close>

lemma error_status: "resp_status (writeHandlerError e) \<notin> {200, 201}"
  by (simp add: writeHandlerError_def http_status_defs)

text \<open>What a request may add: events with the address, exactly one when it succeeds.\<close>

definition stamped :: "netip_Addr option \<Rightarrow> http_response \<Rightarrow> tables \<Rightarrow> tables \<Rightarrow> bool" where
  "stamped a resp d d' \<longleftrightarrow> appended a (if resp_status resp \<in> {200, 201} then Some 1 else None) d d'"

lemma answer_stamps:
  assumes "stamps a 1 m" and "private_events (w_env w)" and "answer m f w = (resp, w')"
  shows "stamped a resp (w_db w) (w_db w')"
proof (cases "m w")
  case (Pair r t)
  note s = stampsD(2) [OF assms(1) Pair assms(2)]
  show ?thesis
  proof (cases r)
    case (Inl e)
    with Pair s assms(3) error_status [of e] show ?thesis by (auto simp: answer_def stamped_def)
  next
    case (Inr x)
    with Pair s assms(3) appended_any show ?thesis by (auto simp: answer_def stamped_def)
  qed
qed

lemma refusals_stamped:
  "stamped a unauthorized d d" "stamped a (invalid_request message) d d" "stamped a (writeHandlerError e) d d"
  using error_status [of e] by (simp_all add: stamped_def unauthorized_def invalid_request_def http_status_defs)

lemma handlers_stamp:
  assumes h: "h = NewHandler (Some (service_methods p pg_service))"
    and a: "inetValue (requestIPAddress r) = a" and p: "private_events (w_env w)"
  shows "Handler_CreateOrder pkg h r w = (resp, w') \<Longrightarrow> stamped a resp (w_db w) (w_db w')"
    and "Handler_CancelOrder pkg h r w = (resp, w') \<Longrightarrow> stamped a resp (w_db w) (w_db w')"
    and "Handler_UpdateOrderStatus pkg h r w = (resp, w') \<Longrightarrow> stamped a resp (w_db w) (w_db w')"
proof -
  assume "Handler_CreateOrder pkg h r w = (resp, w')"
  then show "stamped a resp (w_db w) (w_db w')"
    using a by (auto simp: Handler_CreateOrder_def h NewHandler_def split: option.splits sum.splits
        intro: refusals_stamped elim!: answer_stamps [OF CreateOrder_stamps p, rotated])
next
  assume "Handler_CancelOrder pkg h r w = (resp, w')"
  then show "stamped a resp (w_db w) (w_db w')"
    using a by (auto simp: Handler_CancelOrder_def h NewHandler_def split: option.splits sum.splits
        intro: refusals_stamped elim!: answer_stamps [OF CancelOrderDetails_stamps p, rotated])
next
  assume "Handler_UpdateOrderStatus pkg h r w = (resp, w')"
  then show "stamped a resp (w_db w) (w_db w')"
    by (auto simp: Handler_UpdateOrderStatus_def h NewHandler_def Let_def split: option.splits sum.splits
        intro: refusals_stamped elim!: answer_stamps [OF UpdateOrderStatusByTarget_stamps [OF a] p])
qed

text \<open>C29: The audit trail records the address of the TCP peer: when a request that creates,
  cancels or moves an order comes over a connection from an IPv4 address, on any port, every
  event its handler adds to the audit trail carries exactly that address, without the port,
  whatever faults the database reports; and when it is answered with success, exactly one
  event was added.\<close>

theorem client_address_recorded:
  assumes "length bs = 4" and "\<forall>b \<in> set bs. b \<le> 255"
    and "req_remote_addr r = Addr_String (V4 bs) @ '':'' @ show_nat port"
    and "h = NewHandler (Some (service_methods p pg_service))" and "private_events (w_env w)"
    and "m \<in> {Handler_CreateOrder pkg h, Handler_CancelOrder pkg h, Handler_UpdateOrderStatus pkg h}"
    and "m r w = (resp, w')"
  shows "\<exists>es. order_events (w_db w') = order_events (w_db w) @ es \<and>
    (\<forall>e \<in> set es. v_ip_address e = Some (V4 bs)) \<and> (resp_status resp \<in> {200, 201} \<longrightarrow> length es = 1)"
proof -
  have "inetValue (requestIPAddress r) = Some (V4 bs)" using assms(1-3) by (rule peer_address)
  from handlers_stamp [OF assms(4) this assms(5)] assms(6,7) have "stamped (Some (V4 bs)) resp (w_db w) (w_db w')"
    by auto
  then show ?thesis by (auto simp: stamped_def appended_def)
qed

lemma client_address_recorded_witness:
  "\<exists>e. order_events (w_db (snd (Handler_CancelOrder demo_packages demo_handler (demo_call RoleCustomer [])
       placed_world))) = order_events (w_db placed_world) @ [e] \<and> v_ip_address e = Some (V4 [192, 0, 2, 7])"
proof -
  let ?r = "demo_call RoleCustomer []"
  let ?run = "Handler_CancelOrder demo_packages demo_handler ?r placed_world"
  have "req_remote_addr ?r = Addr_String (V4 [192, 0, 2, 7]) @ '':'' @ show_nat 4711"
    by (simp add: demo_call_def WithIdentity_def plain_request_def show_v4_def show_nat.simps digit_def Join.simps
        char_of_def bit_Suc_0_iff)
  moreover have "private_events (w_env placed_world)"
    by (simp add: placed_world_env private_events_def calm_env_def)
  moreover have "?run = (fst ?run, snd ?run)" by simp
  ultimately obtain es where es: "order_events (w_db (snd ?run)) = order_events (w_db placed_world) @ es"
      "\<forall>e \<in> set es. v_ip_address e = Some (V4 [192, 0, 2, 7])" "resp_status (fst ?run) \<in> {200, 201} \<longrightarrow> length es = 1"
    using client_address_recorded [of "[192, 0, 2, 7]" ?r 4711 demo_handler _ placed_world
        "Handler_CancelOrder demo_packages demo_handler" demo_packages "fst ?run" "snd ?run",
        OF _ _ _ demo_handler_def] by auto
  have "resp_status (fst ?run) = 200" by code_simp
  with es(3) obtain e where "es = [e]" by (auto simp: length_Suc_conv)
  with es show ?thesis by auto
qed

end
