(* ===== verification/Spec2Isabelle.thy ===== *)
theory Spec2Isabelle
  imports Interference PageWalk PeerAddress
begin

text \<open>
  A verification development for the order management service \<open>oms-go\<close>: an HTTP API over
  PostgreSQL with a background worker.  The Go code under \<open>src/\<close> is translated function by
  function into executable HOL definitions, and the theorems C1 to C39 state what makes it
  correct.

  \<^bold>\<open>The program.\<close>  \<open>cmd/api/main.go\<close> loads the configuration, builds repository, service, worker
  and HTTP server, and stops them on a signal.  A request passes the identity middleware
  (\<open>internal/auth\<close>), is routed to one of five handlers (\<open>internal/orders/handler.go\<close>), which
  decode it strictly and call the service (\<open>service.go\<close>); the service validates, checks the
  state machine and calls the repository (\<open>repository.go\<close>), whose transactions run the
  generated queries (\<open>internal/db\<close>).  Every write adds an audit event in the same transaction.
  The worker moves batches of pending orders to processing.

  \<^bold>\<open>The theories.\<close>
  \<^item> \<open>Prelude\<close>, \<open>Systems\<close>: machine types, the error-and-state operation \<open>op\<close>, the contracts of
    transition systems and of sessions that share a store.
  \<^item> \<open>GoStrings\<close>, \<open>GoTime\<close>, \<open>NetIP\<close>, \<open>Http\<close>, \<open>Json\<close>: what the code uses of Go's standard
    library.
  \<^item> \<open>StateMachine\<close> (\<open>state_machine.go\<close>), \<open>Errors\<close> (\<open>errors.go\<close>), \<open>Validation\<close>
    (\<open>validation.go\<close>, and the total of \<open>service.go\<close>), \<open>Decode\<close> (\<open>json.go\<close>).
  \<^item> \<open>Database\<close> and \<open>Queries\<close> (\<open>internal/db\<close> and the migration): rows, constraints, the eleven
    statements.  The state is a \<open>world\<close>: tables, a tick that counts driver calls, and an
    environment.
  \<^item> \<open>Repository\<close>, \<open>Service\<close>, \<open>Handler\<close>: one definition per method; the Go interfaces
    \<open>serviceRepository\<close>, \<open>handlerService\<close> and \<open>workerService\<close> are records of operations.
  \<^item> \<open>Auth\<close> (\<open>middleware.go\<close>), \<open>JWT\<close> (\<open>jwt.go\<close>), \<open>Config\<close> (\<open>config.go\<close>).
  \<^item> \<open>Worker\<close> (\<open>worker.go\<close>) and \<open>App\<close> (\<open>main.go\<close>, \<open>httpserver.go\<close>, \<open>RegisterRoutes\<close>):
    inductive step relations, one step for each atomic action of a goroutine.  The steps are
    of three kinds: what the goroutines do by themselves (\<open>worker_own\<close>, \<open>process_own\<close>), new work
    that may arrive (ticks and requests: \<open>worker_tick\<close>, \<open>process_arrival\<close>), and what happens to
    them (\<open>world_step\<close>, \<open>process_event\<close>: a cancellation, a signal, a failing server, a shutdown
    that times out).  Requests in flight are counted; a handler runs atomically when it answers.

  \<^bold>\<open>The specification.\<close>  \<open>AuditTrail\<close> states what the program promises of its data on the tables
  alone: \<open>tables_ok\<close> (keys, references, totals, histories that replay to the status) and
  \<open>evolves\<close>, one step for each kind of move.  \<open>StoreLaws\<close> and \<open>RepositoryLaws\<close> show that every
  transaction refines it whatever the driver reports, \<open>PgStore\<close> that the repository meets
  the contract \<open>order_store\<close>, \<open>ServiceLaws\<close> and \<open>HandlerLaws\<close> derive the contracts of the
  service and of the handlers from it.  Other sessions are assumed to keep the same
  specification (\<open>rely\<close>); \<open>rely_calm\<close> and the runs of \<open>System\<close> show that this can hold.

  \<^bold>\<open>What is shown.\<close>
  \<^item> This theory: what holds of every run of service calls.  \<open>ProcessLaws\<close>: the same for
    the whole process, mutual exclusion and termination of the worker, shutdown, and what a
    configuration that loads guarantees.  Termination is the contract \<open>stopping_system\<close> of
    \<open>Systems\<close>: own steps lower a measure, arrivals raise it by at most four, and an own step is
    always there until the end; it supposes a scheduler that runs a goroutine that can run.
  \<^item> \<open>EndToEnd\<close>, \<open>PageWalk\<close>: the outcome of every kind of request, and of following the cursors of
    a list, when nothing interferes.  \<open>Outcomes\<close> and \<open>Pagination\<close> carry these proofs:
    \<open>succeeds\<close> and \<open>fails\<close> claim that a call returns, not only what it returns if it does.
  \<^item> \<open>Interference\<close>: atomicity, truthful refusals, the oldest first, and a race that the code
    answers with 500.  \<open>PeerAddress\<close>: the client's address in the audit trail.
  \<^item> \<open>ApiLaws\<close>, \<open>AuthLaws\<close>, \<open>DecodeLaws\<close>, \<open>CursorLaws\<close>, \<open>Validation\<close>, \<open>StateMachine\<close>: isolation of
    customers, authentication that fails closed, limits and errors of request bodies, the
    cursor's round trip, exact totals, the life cycle.

  \<^bold>\<open>Bounds and fuel.\<close>  The JSON scanner recurses with fuel derived from the length of the
  input, which is enough (\<open>parse_json_verdict\<close>), and refuses nesting beyond 10000 as Go does.
  \<open>page_walk\<close>, the model of a client, gets one request more than there are orders.
  Cents, quantities and page sizes are machine words of the width in the code, compared
  by \<open>sint\<close>.  \<open>fresh_uuids\<close> asks that random UUIDs not be in use and not repeat within
  \<open>2 ^ 32\<close> draws, more than any call makes; \<open>fresh_start\<close> and \<open>placed_world_fresh\<close> show
  worlds where this holds.

  \<^bold>\<open>Arguments of the model\<close>, because their code is not in the repository: \<open>uuid.Parse\<close> and the
  printing of UUIDs (\<open>packages\<close>), chi's choice of a registered route, go-oidc's verification
  of a token, the HTTP exchange with the identity provider, and PostgreSQL beyond the SQL
  text: faults, clock, locks and the commits of other sessions are read from an
  unconstrained \<open>env\<close>.

  \<^bold>\<open>Not modelled.\<close>  The logger (\<open>logger.go\<close>) and all log output; the bytes of a response after
  JSON encoding (a response is its status and the value encoded); \<open>%q\<close> of unprintable runes;
  the cancellation of a request's context, which the code passes to the driver and which
  shows as a driver fault; the interleaving of other sessions inside one of our
  transactions, which PostgreSQL isolates (row locks are in the environment); the
  contents of \<open>internal/platform/json.go\<close> beyond its use, since it repeats
  \<open>internal/orders/json.go\<close>; deployment files and the API description.
\<close>

section \<open>What holds of every run\<close>

text \<open>C1: In every run of any calls by any callers, whatever faults the driver reports and
  whatever other sessions do, the audit trail is complete: replaying the events of an order
  from its creation takes legal transitions only and ends in the order's current status.\<close>

theorem history_replays_to_status:
  assumes "rely E" and "w = run_calls uuid_Parse calls (start E)" and "r \<in> set (orders (w_db w))"
  shows "replay None (history (w_db w) (o_id r)) = Some (Some (o_status r))"
  using run_start_ok [OF assms(1), of uuid_Parse calls] assms(2,3)
  by (simp add: tables_ok_def order_ok_def)

lemma history_replays_to_status_witness:
  "replay None (history (w_db demo_run) 102) = Some (Some ''SHIPPED'')"
  using history_replays_to_status [OF rely_calm demo_run_def demo_row_placed]
  by (simp add: demo_row_def)

text \<open>C2: In every run each order has items, and its stored total is exactly the sum of unit
  price times quantity over its stored items, in exact arithmetic: no total has wrapped.\<close>

theorem totals_match_items:
  assumes "rely E" and "w = run_calls uuid_Parse calls (start E)" and "r \<in> set (orders (w_db w))"
  shows "items_of (w_db w) (o_id r) \<noteq> [] \<and>
    sint (o_total_cents r) = items_total (items_of (w_db w) (o_id r))"
  using run_start_ok [OF assms(1), of uuid_Parse calls] assms(2,3)
  by (simp add: tables_ok_def order_ok_def)

lemma totals_match_items_witness: "items_total (items_of (w_db demo_run) 102) = 3400"
  using totals_match_items [OF rely_calm demo_run_def demo_row_placed]
  by (simp add: demo_row_def)

text \<open>C3: The audit trail and the items are append-only and orders are never deleted: whatever
  calls follow, an order keeps its id, owner, key, total, currency and creation time, and its
  status moves along legal transitions only.\<close>

theorem runs_only_extend:
  assumes "rely E" and "d = w_db (run_calls uuid_Parse before (start E))"
    and "d' = w_db (run_calls uuid_Parse (before @ after) (start E))"
  shows "prefix (order_events d) (order_events d') \<and> prefix (order_items d) (order_items d') \<and>
    (\<nexists>r. r \<in> set (orders d) \<and>
       \<not> (\<exists>r' \<in> set (orders d'). same_order r r' \<and> CanTransition\<^sup>*\<^sup>* (o_status r) (o_status r')))"
  using run_start_extends [OF assms(1), of uuid_Parse before after] assms(2,3)
  by (auto simp: extends_def)

lemma runs_only_extend_witness:
  "prefix (order_events (w_db (run_calls demo_parse [] (start calm_env)))) (order_events (w_db demo_run))"
  using runs_only_extend [OF rely_calm refl refl, of demo_parse "[]" demo_calls]
  by (simp add: demo_run_def)

text \<open>C4: Delivered and cancelled are final: once an order is in one of them, no later call
  changes its status or adds an event to its history.\<close>

theorem terminal_orders_frozen:
  assumes "rely E" and "d = w_db (run_calls uuid_Parse before (start E))"
    and "d' = w_db (run_calls uuid_Parse (before @ after) (start E))"
    and "r \<in> set (orders d)" and "o_status r = StatusDelivered \<or> o_status r = StatusCancelled"
    and "r' \<in> set (orders d')" and "o_id r' = o_id r"
  shows "o_status r' = o_status r \<and> history d' (o_id r) = history d (o_id r)"
proof -
  have "tables_ok d" "tables_ok d'" "extends d d'"
    using assms(1-3) run_start_ok [OF assms(1)] run_start_extends [OF assms(1)] by auto
  with assms(4-7) show ?thesis by (blast dest: terminal_row_kept)
qed

lemma terminal_orders_frozen_witness: "history (w_db late_run) 102 = history (w_db cancelled_run) 102"
proof -
  have "o_status cancelled_row = StatusDelivered \<or> o_status cancelled_row = StatusCancelled"
    by (simp add: cancelled_row_def StatusCancelled_def)
  from terminal_orders_frozen [OF rely_calm refl refl _ this, where uuid_Parse = demo_parse and before = cancel_calls
      and after = late_calls and r' = cancelled_row]
  show ?thesis
    by (simp add: cancelled_run_def [symmetric] late_run_def [symmetric]) (simp add: cancelled_row_def)
qed

text \<open>C5: A customer never has two orders under one idempotency key: two rows with the same
  owner and key are the same row, so a retried request cannot charge twice.\<close>

theorem one_order_per_key:
  assumes "rely E" and "w = run_calls uuid_Parse calls (start E)"
    and "r \<in> set (orders (w_db w))" and "r' \<in> set (orders (w_db w))"
    and "o_customer_id r = o_customer_id r'" and "o_idempotency_key r = o_idempotency_key r'"
  shows "r = r'"
proof -
  have "distinct (map (\<lambda>r. (o_customer_id r, o_idempotency_key r)) (orders (w_db w)))"
    using run_start_ok [OF assms(1), of uuid_Parse calls] assms(2)
    by (simp add: tables_ok_def keys_ok_def)
  from distinct_map_inj_on_set [OF this assms(3,4)] assms(5,6) show ?thesis by simp
qed

lemma one_order_per_key_witness:
  "\<nexists>r. r \<in> set (orders (w_db demo_run)) \<and> o_customer_id r = 7 \<and> o_idempotency_key r = ''checkout'' \<and>
     r \<noteq> demo_row"
  using one_order_per_key [OF rely_calm demo_run_def _ demo_row_placed]
  by (auto simp: demo_row_def)

text \<open>C31: Every audit event was recorded by a party entitled to it: it is the creation of a pending
  order by a customer or a legal transition; customers otherwise only cancel pending orders,
  status updates are made by administrators or the system, and the worker only moves pending
  orders to processing.\<close>

theorem events_authorised:
  assumes "rely E" and "w = run_calls uuid_Parse calls (start E)" and "e \<in> set (order_events (w_db w))"
  shows "v_actor_type e \<in> {''CUSTOMER'', ''ADMIN'', ''SYSTEM''} \<and>
    (v_from_status e, v_to_status e) \<in>
      insert (None, Some StatusPending) {(Some f, Some t) | f t. CanTransition f t} \<and>
    (v_actor_type e \<noteq> ''CUSTOMER'' \<or> v_from_status e = None \<or>
      (v_from_status e, v_to_status e) = (Some StatusPending, Some StatusCancelled)) \<and>
    (v_action e \<noteq> actionStatusUpdated \<or> v_actor_type e \<noteq> ''CUSTOMER'') \<and>
    (v_action e \<noteq> actionWorkerMovedToProcessing \<or> v_actor_type e = ''SYSTEM'' \<and>
      (v_from_status e, v_to_status e) = (Some StatusPending, Some StatusProcessing))"
proof -
  have "evolves\<^sup>*\<^sup>* empty_tables (w_db w)"
    using run_calls_leads [OF start_good [OF assms(1)]] assms(2) by (simp add: leads_def)
  then have "trail_ok (w_db w)"
    by (rule trail.steps_inv) (simp add: trail_ok_def empty_tables_def)
  with assms(3) have "event_ok e" by (auto simp: trail_ok_def list_all_iff)
  then show ?thesis
    by (auto simp: event_ok_def attributed_def action_defs split: option.splits)
qed

lemma events_authorised_witness:
  "list_all (\<lambda>e. v_actor_type e \<noteq> ''CUSTOMER'' \<or> v_from_status e = None) (order_events (w_db demo_run))"
proof -
  have no_cancel: "list_all (\<lambda>e. v_to_status e \<noteq> Some StatusCancelled) (order_events (w_db demo_run))"
    by code_simp
  have "v_actor_type e \<noteq> ''CUSTOMER'' \<or> v_from_status e = None"
    if e: "e \<in> set (order_events (w_db demo_run))" for e
    using events_authorised [OF rely_calm demo_run_def e] no_cancel e by (auto simp: list_all_iff)
  then show ?thesis by (simp add: list_all_iff)
qed

end
